(* ===== verification/Prelude.thy ===== *)
theory Prelude
  imports Main "HOL-Library.Word" "HOL-Library.Char_ord" "HOL-Library.List_Lexorder"
    "HOL-Library.Product_Lexorder" "HOL-Library.AList"
begin

text \<open>
  Shared vocabulary of the development: machine integers, the result type of fallible code
  with its combinators, the hint collections, and the generic list lemmas used by several
  components.

  A Rust function that returns \<open>anyhow::Result<T>\<close> has type \<open>'a res\<close> here:
  \<open>Ok\<close>, \<open>Err\<close> with the chain of messages that \<open>anyhow\<close> keeps, or \<open>Panic\<close> where
  the Rust code would unwind (a slice off a character boundary, an index out of range).
\<close>

type_synonym u8 = "8 word"
type_synonym u16 = "16 word"
type_synonym u32 = "32 word"
type_synonym u64 = "64 word"
type_synonym usize = nat
type_synonym bytes = "u8 list"

named_theorems run_simps \<open>unfolding rules for world-passing code\<close>
named_theorems res_simps \<open>unfolding rules for fallible pure code\<close>

section \<open>Errors and results\<close>

text \<open>
  \<open>anyhow::Error\<close>: the messages from the outermost context inwards, and whether the value
  downcasts to the runner's \<open>StepAssertionFailure\<close>.
\<close>

datatype error = AnyhowError (err_chain: "string list") (is_assertion_failure: bool)

datatype 'a res = Ok 'a | Err error | Panic

definition anyhow :: "string \<Rightarrow> 'a res" where
  "anyhow m = Err (AnyhowError [m] False)"

text \<open>\<open>Display\<close> of an \<open>anyhow::Error\<close> prints the outermost message only.\<close>

definition err_to_string :: "error \<Rightarrow> string" where
  "err_to_string e = (case err_chain e of [] \<Rightarrow> [] | m # _ \<Rightarrow> m)"

fun with_context :: "string \<Rightarrow> 'a res \<Rightarrow> 'a res" where
  "with_context c (Ok x) = Ok x"
| "with_context c (Err e) = Err (AnyhowError (c # err_chain e) (is_assertion_failure e))"
| "with_context c Panic = Panic"

text \<open>The \<open>?\<close> operator on a pure result.\<close>

fun try_res :: "'a res \<Rightarrow> ('a \<Rightarrow> 'b res) \<Rightarrow> 'b res" where
  "try_res (Ok x) k = k x"
| "try_res (Err e) k = Err e"
| "try_res Panic k = Panic"

definition ok_or :: "string \<Rightarrow> 'a option \<Rightarrow> 'a res" where
  "ok_or m v = (case v of None \<Rightarrow> anyhow m | Some x \<Rightarrow> Ok x)"

text \<open>\<open>iter().map(f).collect::<Result<Vec<_>>>()\<close>: left to right, stops at the first failure.\<close>

fun mapM_res :: "('a \<Rightarrow> 'b res) \<Rightarrow> 'a list \<Rightarrow> 'b list res" where
  "mapM_res f [] = Ok []"
| "mapM_res f (x # xs) = try_res (f x) (\<lambda>y. try_res (mapM_res f xs) (\<lambda>ys. Ok (y # ys)))"

fun is_ok :: "'a res \<Rightarrow> bool" where
  "is_ok (Ok _) = True"
| "is_ok _ = False"

lemma anyhow_neq_Ok [simp]: "anyhow m \<noteq> Ok x" "Ok x \<noteq> anyhow m" "anyhow m \<noteq> Panic"
  by (simp_all add: anyhow_def)

lemma is_ok_anyhow [simp]: "\<not> is_ok (anyhow m)"
  by (simp add: anyhow_def)

lemma is_ok_iff: "is_ok r \<longleftrightarrow> (\<exists>x. r = Ok x)"
  by (cases r) auto

lemma try_res_anyhow [simp]: "try_res (anyhow m) k = anyhow m"
  by (simp add: anyhow_def)

lemma try_res_Ok_iff [simp]: "try_res r k = Ok y \<longleftrightarrow> (\<exists>x. r = Ok x \<and> k x = Ok y)"
  by (cases r) auto

lemma try_res_Panic_iff: "try_res r k = Panic \<longleftrightarrow> r = Panic \<or> (\<exists>x. r = Ok x \<and> k x = Panic)"
  by (cases r) auto

lemma with_context_Ok_iff [simp]: "with_context c r = Ok x \<longleftrightarrow> r = Ok x"
  by (cases r) auto

lemma with_context_Panic_iff [simp]: "with_context c r = Panic \<longleftrightarrow> r = Panic"
  by (cases r) auto

lemma ok_or_simps [simp]: "ok_or m None = anyhow m" "ok_or m (Some x) = Ok x"
  by (simp_all add: ok_or_def)

lemma ok_or_Ok_iff [simp]: "ok_or m v = Ok x \<longleftrightarrow> v = Some x"
  by (cases v) auto

lemma ok_or_not_Panic [simp]: "ok_or m v \<noteq> Panic"
  by (cases v) auto

lemma try_res_cong [fundef_cong]:
  "r = r' \<Longrightarrow> (\<And>x. r' = Ok x \<Longrightarrow> k x = k' x) \<Longrightarrow> try_res r k = try_res r' k'"
  by (cases r') simp_all

lemma mapM_res_cong [fundef_cong]:
  "xs = ys \<Longrightarrow> (\<And>x. x \<in> set ys \<Longrightarrow> f x = g x) \<Longrightarrow> mapM_res f xs = mapM_res g ys"
  by (induction ys arbitrary: xs) auto

lemma mapM_res_Ok_iff:
  "mapM_res f xs = Ok ys \<longleftrightarrow> length ys = length xs \<and> (\<forall>i < length xs. f (xs ! i) = Ok (ys ! i))"
proof (induction xs arbitrary: ys)
  case Nil
  then show ?case by auto
next
  case (Cons x xs)
  show ?case
  proof (cases ys)
    case Nil
    then show ?thesis by auto
  next
    case (Cons y ys')
    have "(\<forall>i < length (x # xs). f ((x # xs) ! i) = Ok ((y # ys') ! i)) \<longleftrightarrow>
        f x = Ok y \<and> (\<forall>i < length xs. f (xs ! i) = Ok (ys' ! i))"
      by (auto simp: nth_Cons' less_Suc_eq_0_disj)
    with Cons Cons.IH [of ys'] show ?thesis by auto
  qed
qed

lemma mapM_res_all_Ok: "(\<And>x. x \<in> set xs \<Longrightarrow> f x = Ok (g x)) \<Longrightarrow> mapM_res f xs = Ok (map g xs)"
  by (induction xs) auto

lemma mapM_res_length: "mapM_res f xs = Ok ys \<Longrightarrow> length ys = length xs"
  by (simp add: mapM_res_Ok_iff)

lemma mapM_res_not_Panic: "(\<And>x. x \<in> set xs \<Longrightarrow> f x \<noteq> Panic) \<Longrightarrow> mapM_res f xs \<noteq> Panic"
  by (induction xs) (auto simp: try_res_Panic_iff)

lemma mapM_res_Ok_D: "mapM_res f xs = Ok ys \<Longrightarrow> x \<in> set xs \<Longrightarrow> \<exists>y. f x = Ok y \<and> y \<in> set ys"
  by (induction xs arbitrary: ys) auto

lemma mapM_res_Ok_D2: "mapM_res f xs = Ok ys \<Longrightarrow> y \<in> set ys \<Longrightarrow> \<exists>x \<in> set xs. f x = Ok y"
  by (induction xs arbitrary: ys) auto

section \<open>Positions in lists\<close>

text \<open>\<open>iter().position(p)\<close>: the index of the first element that satisfies \<open>p\<close>.\<close>

fun position :: "('a \<Rightarrow> bool) \<Rightarrow> 'a list \<Rightarrow> usize option" where
  "position p [] = None"
| "position p (x # xs) = (if p x then Some 0 else map_option Suc (position p xs))"

lemma position_None_iff: "position p xs = None \<longleftrightarrow> (\<forall>x \<in> set xs. \<not> p x)"
  by (induction xs) auto

lemma position_Some_iff:
  "position p xs = Some i \<longleftrightarrow> i < length xs \<and> p (xs ! i) \<and> (\<forall>j < i. \<not> p (xs ! j))"
proof (induction xs arbitrary: i)
  case Nil
  then show ?case by simp
next
  case (Cons x xs)
  show ?case
  proof (cases i)
    case 0
    then show ?thesis by auto
  next
    case (Suc k)
    have "(\<forall>j < Suc k. \<not> p ((x # xs) ! j)) \<longleftrightarrow> \<not> p x \<and> (\<forall>j < k. \<not> p (xs ! j))"
      by (auto simp: nth_Cons' less_Suc_eq_0_disj)
    with Suc Cons.IH [of k] show ?thesis by auto
  qed
qed

lemma position_SomeD:
  assumes "position p xs = Some i"
  shows "i < length xs" and "p (xs ! i)" and "\<And>j. j < i \<Longrightarrow> \<not> p (xs ! j)"
  using assms by (auto simp: position_Some_iff)

lemma list_eq_map_nth: "map ((!) xs) [0..<length xs] = xs"
  by (rule map_nth)

section \<open>Ordered maps\<close>

text \<open>
  \<open>BTreeMap\<close> as the list of its entries in iteration order. \<open>bt_insert\<close> is
  \<open>BTreeMap::insert\<close>: a new key goes to its place, an old key gets the new value.
\<close>

fun bt_insert :: "'k :: linorder \<Rightarrow> 'v \<Rightarrow> ('k \<times> 'v) list \<Rightarrow> ('k \<times> 'v) list" where
  "bt_insert k v [] = [(k, v)]"
| "bt_insert k v ((k', v') # m) =
     (if k < k' then (k, v) # (k', v') # m
      else if k = k' then (k, v) # m
      else (k', v') # bt_insert k v m)"

definition bt_ok :: "('k :: linorder \<times> 'v) list \<Rightarrow> bool" where
  "bt_ok m \<longleftrightarrow> sorted_wrt (<) (map fst m)"

text \<open>The contract that the components use of an ordered map.\<close>

locale ordered_map =
  fixes empty :: "'m"
    and insert :: "'k :: linorder \<Rightarrow> 'v \<Rightarrow> 'm \<Rightarrow> 'm"
    and entries :: "'m \<Rightarrow> ('k \<times> 'v) list"
    and invar :: "'m \<Rightarrow> bool"
  assumes entries_empty: "entries empty = []"
    and invar_empty: "invar empty"
    and invar_insert: "invar m \<Longrightarrow> invar (insert k v m)"
    and entries_sorted: "invar m \<Longrightarrow> sorted_wrt (<) (map fst (entries m))"
    and lookup_insert: "invar m \<Longrightarrow> map_of (entries (insert k v m)) = (map_of (entries m))(k \<mapsto> v)"
begin

lemma lookup_insert_same: "invar m \<Longrightarrow> map_of (entries (insert k v m)) k = Some v"
  by (simp add: lookup_insert)

lemma lookup_insert_other:
  "invar m \<Longrightarrow> k' \<noteq> k \<Longrightarrow> map_of (entries (insert k v m)) k' = map_of (entries m) k'"
  by (simp add: lookup_insert)

lemma keys_insert: "invar m \<Longrightarrow> fst ` set (entries (insert k v m)) = Set.insert k (fst ` set (entries m))"
  using lookup_insert [of m k v] dom_map_of_conv_image_fst [of "entries (insert k v m)"]
    dom_map_of_conv_image_fst [of "entries m"] by simp

lemma entries_distinct: "invar m \<Longrightarrow> distinct (map fst (entries m))"
  using entries_sorted [of m] by (simp add: strict_sorted_iff)

lemma entry_iff: "invar m \<Longrightarrow> (k, v) \<in> set (entries m) \<longleftrightarrow> map_of (entries m) k = Some v"
  using entries_distinct [of m] by (auto simp: map_of_eq_Some_iff)

lemma invar_fold: "invar m \<Longrightarrow> invar (fold (\<lambda>(k, v). insert k v) kvs m)"
  by (induction kvs arbitrary: m) (auto simp: invar_insert)

lemma lookup_fold:
  "invar m \<Longrightarrow> map_of (entries (fold (\<lambda>(k, v). insert k v) kvs m)) = map_of (entries m) ++ map_of (rev kvs)"
proof (induction kvs arbitrary: m)
  case Nil
  then show ?case by simp
next
  case (Cons kv kvs)
  then show ?case
    by (cases kv) (simp add: invar_insert lookup_insert fun_eq_iff map_add_def split: option.split)
qed

end

lemma bt_insert_keys: "fst ` set (bt_insert k v m) = insert k (fst ` set m)"
proof (induction m)
  case (Cons kv m)
  then show ?case by (cases kv) (auto split: if_splits)
qed simp

lemma bt_ok_insert: "bt_ok m \<Longrightarrow> bt_ok (bt_insert k v m)"
proof (induction m)
  case Nil
  then show ?case by (simp add: bt_ok_def)
next
  case (Cons kv m)
  obtain k' v' where kv: "kv = (k', v')" by (cases kv)
  from Cons.prems kv have ok: "bt_ok m" and gt: "\<forall>x \<in> fst ` set m. k' < x"
    by (auto simp: bt_ok_def)
  show ?case
  proof (cases "k < k'")
    case True
    with Cons.prems kv gt show ?thesis by (auto simp: bt_ok_def)
  next
    case False
    then show ?thesis
      using Cons.IH ok Cons.prems kv gt bt_insert_keys [of k v m]
      by (cases "k = k'") (auto simp: bt_ok_def)
  qed
qed

lemma bt_map_of_insert: "bt_ok m \<Longrightarrow> map_of (bt_insert k v m) = (map_of m)(k \<mapsto> v)"
  by (induction m) (auto simp: bt_ok_def fun_eq_iff)

interpretation bt: ordered_map "[]" bt_insert "\<lambda>m. m" bt_ok
  by unfold_locales (simp_all add: bt_ok_insert bt_map_of_insert, simp_all add: bt_ok_def)

text \<open>Inserting below or above every key of the map is consing or appending.\<close>

lemma bt_insert_last: "(\<forall>x \<in> fst ` set m. x < k) \<Longrightarrow> bt_insert k v m = m @ [(k, v)]"
  by (induction m) (auto simp: not_less_iff_gr_or_eq)

end
