(* ===== verification/Rust_Std.thy ===== *)
theory Rust_Std
  imports Prelude
begin

text \<open>
  The parts of Rust's \<open>str\<close> and integer types that the harness uses. A Rust \<open>str\<close> is its
  UTF-8 bytes, one \<open>char\<close> (0 to 255) each, so \<open>length\<close> is \<open>str::len\<close> and an index is a
  byte offset, as in the code. Slicing off a character boundary panics.
\<close>

section \<open>Slices and character boundaries\<close>

definition utf8_continuation :: "char \<Rightarrow> bool" where
  "utf8_continuation c \<longleftrightarrow> 128 \<le> (of_char c :: nat) \<and> (of_char c :: nat) < 192"

definition is_ascii :: "string \<Rightarrow> bool" where
  "is_ascii s \<longleftrightarrow> list_all (\<lambda>c. (of_char c :: nat) < 128) s"

definition is_char_boundary :: "string \<Rightarrow> usize \<Rightarrow> bool" where
  "is_char_boundary s i \<longleftrightarrow>
     i = 0 \<or> i = length s \<or> (i < length s \<and> \<not> utf8_continuation (s ! i))"

text \<open>\<open>&s[i..j]\<close>\<close>

definition str_slice :: "string \<Rightarrow> usize \<Rightarrow> usize \<Rightarrow> string res" where
  "str_slice s i j =
     (if i \<le> j \<and> j \<le> length s \<and> is_char_boundary s i \<and> is_char_boundary s j
      then Ok (take (j - i) (drop i s)) else Panic)"

lemma is_ascii_append [simp]: "is_ascii (s @ t) \<longleftrightarrow> is_ascii s \<and> is_ascii t"
  by (simp add: is_ascii_def)

lemma is_ascii_Nil [simp]: "is_ascii []"
  by (simp add: is_ascii_def)

lemma is_ascii_Cons: "is_ascii (c # s) \<longleftrightarrow> (of_char c :: nat) < 128 \<and> is_ascii s"
  by (simp add: is_ascii_def)

lemma is_ascii_boundary: "is_ascii s \<Longrightarrow> i \<le> length s \<Longrightarrow> is_char_boundary s i"
  by (cases "i = length s")
    (auto simp: is_ascii_def is_char_boundary_def utf8_continuation_def list_all_length
      dest!: spec [of _ i])

lemma str_slice_ascii:
  "is_ascii s \<Longrightarrow> i \<le> j \<Longrightarrow> j \<le> length s \<Longrightarrow> str_slice s i j = Ok (take (j - i) (drop i s))"
  by (simp add: str_slice_def is_ascii_boundary)

section \<open>Searching\<close>

fun starts_with :: "string \<Rightarrow> string \<Rightarrow> bool" where
  "starts_with s [] = True"
| "starts_with [] (p # ps) = False"
| "starts_with (c # s) (p # ps) = (c = p \<and> starts_with s ps)"

text \<open>\<open>str::find\<close>: the byte offset of the first occurrence of the pattern.\<close>

fun str_find :: "string \<Rightarrow> string \<Rightarrow> usize option" where
  "str_find p s =
     (if starts_with s p then Some 0
      else (case s of [] \<Rightarrow> None | c # s' \<Rightarrow> map_option Suc (str_find p s')))"

declare str_find.simps [simp del]

definition str_contains :: "string \<Rightarrow> string \<Rightarrow> bool" where
  "str_contains p s \<longleftrightarrow> str_find p s \<noteq> None"

definition split_once :: "char \<Rightarrow> string \<Rightarrow> (string \<times> string) option" where
  "split_once d s =
     (case str_find [d] s of None \<Rightarrow> None | Some i \<Rightarrow> Some (take i s, drop (Suc i) s))"

definition trim_end_matches :: "char \<Rightarrow> string \<Rightarrow> string" where
  "trim_end_matches d s = rev (dropWhile (\<lambda>c. c = d) (rev s))"

text \<open>\<open>str::trim\<close> on ASCII white space: enough to ask whether a line is blank.\<close>

definition is_whitespace :: "char \<Rightarrow> bool" where
  "is_whitespace c \<longleftrightarrow> of_char c \<in> {9, 10, 11, 12, 13, 32 :: nat}"

definition is_blank :: "string \<Rightarrow> bool" where
  "is_blank s \<longleftrightarrow> list_all is_whitespace s"

lemma starts_with_iff: "starts_with s p \<longleftrightarrow> length p \<le> length s \<and> take (length p) s = p"
  by (induction s p rule: starts_with.induct) auto

lemma str_find_SomeD:
  "str_find p s = Some i \<Longrightarrow> i + length p \<le> length s \<and> take (length p) (drop i s) = p"
proof (induction s arbitrary: i)
  case Nil
  then show ?case by (simp add: str_find.simps starts_with_iff split: if_splits)
next
  case (Cons c s)
  then show ?case
    by (cases "starts_with (c # s) p") (auto simp: str_find.simps [of p "c # s"] starts_with_iff)
qed

lemma str_find_Some_decomp:
  "str_find p s = Some i \<Longrightarrow> s = take i s @ p @ drop (i + length p) s"
  using str_find_SomeD [of p s i] by (metis append_take_drop_id drop_drop add.commute)

lemma str_find_char_None_iff: "str_find [d] s = None \<longleftrightarrow> d \<notin> set s"
  by (induction s) (auto simp: str_find.simps)

lemma str_find_char_append: "d \<notin> set a \<Longrightarrow> str_find [d] (a @ d # b) = Some (length a)"
  by (induction a) (auto simp: str_find.simps)

lemma split_once_append: "d \<notin> set a \<Longrightarrow> split_once d (a @ d # b) = Some (a, b)"
  by (simp add: split_once_def str_find_char_append)

lemma split_once_None_iff: "split_once d s = None \<longleftrightarrow> d \<notin> set s"
  by (auto simp: split_once_def str_find_char_None_iff split: option.split)
    (metis option.distinct(1) str_find_char_None_iff)+

lemma split_once_SomeD: "split_once d s = Some (a, b) \<Longrightarrow> s = a @ d # b"
  by (auto simp: split_once_def split: option.splits dest: str_find_Some_decomp)

section \<open>Integers and text\<close>

text \<open>The messages of \<open>std::num::ParseIntError\<close>.\<close>

definition int_error_empty :: string where
  "int_error_empty = ''cannot parse integer from empty string''"
definition int_error_invalid :: string where
  "int_error_invalid = ''invalid digit found in string''"
definition int_error_overflow :: string where
  "int_error_overflow = ''number too large to fit in target type''"

text \<open>\<open>char::to_digit\<close> for radix at most 16.\<close>

definition to_digit :: "nat \<Rightarrow> char \<Rightarrow> nat option" where
  "to_digit radix c =
     (let n = (of_char c :: nat);
          d = (if 48 \<le> n \<and> n \<le> 57 then Some (n - 48)
               else if 97 \<le> n \<and> n \<le> 102 then Some (n - 87)
               else if 65 \<le> n \<and> n \<le> 70 then Some (n - 55) else None)
      in case d of None \<Rightarrow> None | Some v \<Rightarrow> if v < radix then Some v else None)"

fun parse_digits :: "nat \<Rightarrow> nat \<Rightarrow> nat \<Rightarrow> string \<Rightarrow> string + nat" where
  "parse_digits radix lim acc [] = Inr acc"
| "parse_digits radix lim acc (c # cs) =
     (case to_digit radix c of
        None \<Rightarrow> Inl int_error_invalid
      | Some d \<Rightarrow>
          if lim < acc * radix + d then Inl int_error_overflow
          else parse_digits radix lim (acc * radix + d) cs)"

text \<open>
  \<open>from_str_radix\<close> of an unsigned type with the given maximum. A leading \<open>+\<close> is accepted
  when a digit follows it, as the standard library does.
\<close>

definition parse_uint :: "nat \<Rightarrow> nat \<Rightarrow> string \<Rightarrow> string + nat" where
  "parse_uint radix lim s =
     (case s of
        [] \<Rightarrow> Inl int_error_empty
      | c # cs \<Rightarrow>
          if cs = [] \<and> (c = CHR ''+'' \<or> c = CHR ''-'') then Inl int_error_invalid
          else if c = CHR ''+'' then parse_digits radix lim 0 cs
          else parse_digits radix lim 0 s)"

definition parse_u64 :: "string \<Rightarrow> string + u64" where
  "parse_u64 s = (case parse_uint 10 18446744073709551615 s of Inl e \<Rightarrow> Inl e | Inr n \<Rightarrow> Inr (of_nat n))"

definition parse_usize :: "string \<Rightarrow> string + usize" where
  "parse_usize s = parse_uint 10 18446744073709551615 s"

definition digit_char :: "nat \<Rightarrow> char" where
  "digit_char d = (if d < 10 then char_of (48 + d) else char_of (87 + d))"

fun nat_to_string :: "nat \<Rightarrow> string" where
  "nat_to_string n =
     (if n < 10 then [digit_char n] else nat_to_string (n div 10) @ [digit_char (n mod 10)])"

declare nat_to_string.simps [simp del]

definition u64_to_string :: "u64 \<Rightarrow> string" where
  "u64_to_string w = nat_to_string (unat w)"

lemma to_digit_digit_char: "d < radix \<Longrightarrow> radix \<le> 16 \<Longrightarrow> to_digit radix (digit_char d) = Some d"
  by (auto simp: to_digit_def digit_char_def Let_def)

lemma digit_char_ascii: "d < 16 \<Longrightarrow> (of_char (digit_char d) :: nat) < 128"
  by (auto simp: digit_char_def)

lemma digit_char_range: "d < 10 \<Longrightarrow> (of_char (digit_char d) :: nat) \<in> {48..57}"
  by (auto simp: digit_char_def)

lemma digit_char_neq:
  assumes "d < 16"
  shows "digit_char d \<noteq> CHR ''+''" "digit_char d \<noteq> CHR ''-''" "digit_char d \<noteq> CHR '':''"
    "digit_char d \<noteq> CHR ''$''" "digit_char d \<noteq> CHR ''o''"
proof -
  have ne: "digit_char d \<noteq> c" if "(of_char c :: nat) \<notin> {48..57} \<union> {97..102}" for c
  proof
    assume "digit_char d = c"
    then have "of_char (digit_char d) = (of_char c :: nat)" by simp
    with assms that show False by (auto simp: digit_char_def split: if_splits)
  qed
  show "digit_char d \<noteq> CHR ''+''" "digit_char d \<noteq> CHR ''-''" "digit_char d \<noteq> CHR '':''"
    "digit_char d \<noteq> CHR ''$''" "digit_char d \<noteq> CHR ''o''"
    by (rule ne; simp)+
qed

lemma nat_to_string_nonempty [simp]: "nat_to_string n \<noteq> []"
  by (subst nat_to_string.simps) simp

lemma nat_to_string_set: "c \<in> set (nat_to_string n) \<Longrightarrow> \<exists>d < 10. c = digit_char d"
proof (induction n rule: nat_to_string.induct)
  case (1 n)
  then show ?case
    by (cases "n < 10") (auto simp: nat_to_string.simps [of n] intro: exI [of _ "n mod 10"])
qed

lemma nat_to_string_ascii [simp]: "is_ascii (nat_to_string n)"
  using digit_char_ascii by (force simp: is_ascii_def list_all_iff dest: nat_to_string_set)

lemma u64_to_string_ascii [simp]: "is_ascii (u64_to_string w)"
  by (simp add: u64_to_string_def)

lemma parse_digits_append:
  "parse_digits radix lim acc (xs @ ys) =
     (case parse_digits radix lim acc xs of Inl e \<Rightarrow> Inl e | Inr a \<Rightarrow> parse_digits radix lim a ys)"
  by (induction xs arbitrary: acc) (auto split: option.split)

lemma parse_digits_nat_to_string: "n \<le> lim \<Longrightarrow> parse_digits 10 lim 0 (nat_to_string n) = Inr n"
proof (induction n rule: nat_to_string.induct)
  case (1 n)
  show ?case
  proof (cases "n < 10")
    case True
    with 1 show ?thesis
      by (simp add: nat_to_string.simps [of n] to_digit_digit_char)
  next
    case False
    have "n div 10 \<le> lim" using 1(2) by (meson div_le_dividend le_trans)
    with 1 False have "parse_digits 10 lim 0 (nat_to_string (n div 10)) = Inr (n div 10)" by simp
    with False 1(2) show ?thesis
      by (simp add: nat_to_string.simps [of n] parse_digits_append to_digit_digit_char)
  qed
qed

lemma nat_to_string_hd: "\<exists>d < 10. hd (nat_to_string n) = digit_char d"
  using nat_to_string_set [of "hd (nat_to_string n)" n] by simp

lemma hd_nat_to_string:
  "hd (nat_to_string n) \<noteq> CHR ''o''" "hd (nat_to_string n) \<noteq> CHR ''+''"
  "hd (nat_to_string n) \<noteq> CHR ''-''"
proof -
  obtain d where "d < 10" "hd (nat_to_string n) = digit_char d"
    using nat_to_string_hd by blast
  then show "hd (nat_to_string n) \<noteq> CHR ''o''" "hd (nat_to_string n) \<noteq> CHR ''+''"
    "hd (nat_to_string n) \<noteq> CHR ''-''"
    using digit_char_neq [of d] by simp_all
qed

lemma parse_uint_nat_to_string: "n \<le> lim \<Longrightarrow> parse_uint 10 lim (nat_to_string n) = Inr n"
proof -
  assume le: "n \<le> lim"
  obtain c cs where s: "nat_to_string n = c # cs" by (cases "nat_to_string n") auto
  then have "c \<noteq> CHR ''+''" "c \<noteq> CHR ''-''"
    using hd_nat_to_string [of n] by simp_all
  with parse_digits_nat_to_string [OF le] s show ?thesis by (simp add: parse_uint_def)
qed

lemma unat_u64_le: "unat (w :: u64) \<le> 18446744073709551615"
  using unsigned_less [of w, where 'a = nat] by simp

lemma parse_u64_to_string: "parse_u64 (u64_to_string w) = Inr w"
  by (simp add: parse_u64_def u64_to_string_def parse_uint_nat_to_string unat_u64_le)

lemma u64_to_string_no_colon: "CHR '':'' \<notin> set (u64_to_string w)"
proof
  assume "CHR '':'' \<in> set (u64_to_string w)"
  then obtain d where "d < 10" "CHR '':'' = digit_char d"
    unfolding u64_to_string_def by (blast dest: nat_to_string_set)
  then show False using digit_char_neq(3) [of d] by simp
qed

lemma u64_to_string_neq_origin: "u64_to_string w @ t \<noteq> CHR ''o'' # x"
  using hd_nat_to_string(1) [of "unat w"]
  by (metis hd_append2 list.sel(1) nat_to_string_nonempty u64_to_string_def)

end
