(* ===== verification/Hex.thy ===== *)
theory Hex
  imports Rust_Std
begin

text \<open>
  Hexadecimal text. The harness carries one \<open>encode_hex\<close> and three flavours of decoder,
  each copied into several modules: the checked \<open>decode_hex\<close> (an error for odd length or a
  bad pair), the all-or-nothing unchecked one of \<open>fixture.rs\<close>, and the skipping unchecked
  one of \<open>peer_state.rs\<close>, \<open>block_fixture.rs\<close> and \<open>chainsync_server.rs\<close>.
\<close>

section \<open>Definitions\<close>

definition byte_to_hex :: "u8 \<Rightarrow> string" where
  "byte_to_hex b = [digit_char (unat b div 16), digit_char (unat b mod 16)]"

definition encode_hex :: "bytes \<Rightarrow> string" where
  "encode_hex bs = concat (map byte_to_hex bs)"

text \<open>\<open>(0..n).step_by(2)\<close>\<close>

definition step_by_2 :: "usize \<Rightarrow> usize list" where
  "step_by_2 n = map (\<lambda>k. 2 * k) [0..<(n + 1) div 2]"

text \<open>\<open>u8::from_str_radix(&s[i..i + 2], 16)\<close>; the outer result is the slice's panic.\<close>

definition hex_byte_at :: "string \<Rightarrow> usize \<Rightarrow> (string + u8) res" where
  "hex_byte_at s i =
     try_res (str_slice s i (i + 2)) (\<lambda>p.
       Ok (case parse_uint 16 255 p of Inl e \<Rightarrow> Inl e | Inr n \<Rightarrow> Inr (of_nat n)))"

text \<open>The checked decoder; \<open>fmt\<close> renders the message for the pair at an offset.\<close>

definition decode_hex_with :: "(usize \<Rightarrow> string \<Rightarrow> string) \<Rightarrow> string \<Rightarrow> bytes res" where
  "decode_hex_with fmt s =
     (if length s mod 2 \<noteq> 0 then anyhow ''odd-length hex string''
      else mapM_res (\<lambda>i. try_res (hex_byte_at s i) (\<lambda>r.
             case r of Inl e \<Rightarrow> anyhow (fmt i e) | Inr b \<Rightarrow> Ok b)) (step_by_2 (length s)))"

text \<open>\<open>fixture::decode_hex\<close>, \<open>response_rules::decode_hex\<close>, the two Leios servers': the bare message.\<close>

definition decode_hex :: "string \<Rightarrow> bytes res" where
  "decode_hex s = decode_hex_with (\<lambda>i e. e) s"

text \<open>\<open>scenario::decode_hex\<close> and \<open>peer_state::decode_hex\<close>: the message names the offset.\<close>

definition decode_hex_at :: "string \<Rightarrow> bytes res" where
  "decode_hex_at s =
     decode_hex_with (\<lambda>i e. ''invalid hex byte at offset '' @ nat_to_string i @ '': '' @ e) s"

text \<open>\<open>fixture::decode_hex_unchecked\<close>: \<open>decode_hex(s).unwrap_or_default()\<close>.\<close>

definition decode_hex_or_default :: "string \<Rightarrow> bytes res" where
  "decode_hex_or_default s =
     (case decode_hex s of Ok bs \<Rightarrow> Ok bs | Err e \<Rightarrow> Ok [] | Panic \<Rightarrow> Panic)"

text \<open>
  \<open>peer_state::decode_hex_unchecked\<close> and its copies: every pair is sliced, the pairs that do
  not parse are dropped.
\<close>

definition decode_hex_skip :: "string \<Rightarrow> bytes res" where
  "decode_hex_skip s =
     try_res (mapM_res (hex_byte_at s) (step_by_2 (length s))) (\<lambda>rs.
       Ok (concat (map (\<lambda>r. case r of Inl e \<Rightarrow> [] | Inr b \<Rightarrow> [b]) rs)))"

section \<open>Encoding\<close>

lemma length_encode_hex [simp]: "length (encode_hex bs) = 2 * length bs"
  by (induction bs) (simp_all add: encode_hex_def byte_to_hex_def)

lemma encode_hex_simps [simp]:
  "encode_hex [] = []" "encode_hex (b # bs) = byte_to_hex b @ encode_hex bs"
  by (simp_all add: encode_hex_def)

lemma unat_u8_less: "unat (b :: u8) < 256"
  using unsigned_less [of b, where 'a = nat] by simp

lemma byte_nibbles [simp]: "unat (b :: u8) div 16 < 16" "unat (b :: u8) mod 16 < 16"
  using unat_u8_less [of b] by simp_all

lemma byte_to_hex_set: "c \<in> set (byte_to_hex b) \<Longrightarrow> \<exists>d < 16. c = digit_char d"
  by (simp add: byte_to_hex_def) (metis byte_nibbles)

lemma encode_hex_set: "c \<in> set (encode_hex bs) \<Longrightarrow> \<exists>d < 16. c = digit_char d"
  by (induction bs) (auto dest: byte_to_hex_set)

lemma encode_hex_ascii [simp]: "is_ascii (encode_hex bs)"
  using digit_char_ascii by (force simp: is_ascii_def list_all_iff dest: encode_hex_set)

lemma encode_hex_no_colon: "CHR '':'' \<notin> set (encode_hex bs)"
proof
  assume "CHR '':'' \<in> set (encode_hex bs)"
  then obtain d where "d < 16" "CHR '':'' = digit_char d" by (blast dest: encode_hex_set)
  then show False using digit_char_neq(3) [of d] by simp
qed

lemma encode_hex_drop_take:
  "i < length bs \<Longrightarrow> take 2 (drop (2 * i) (encode_hex bs)) = byte_to_hex (bs ! i)"
proof (induction bs arbitrary: i)
  case Nil
  then show ?case by simp
next
  case (Cons b bs)
  have len: "length (byte_to_hex b) = 2" by (simp add: byte_to_hex_def)
  show ?case
  proof (cases i)
    case 0
    with len show ?thesis by simp
  next
    case (Suc k)
    with Cons len show ?thesis by simp
  qed
qed

section \<open>Decoding\<close>

lemma parse_byte_to_hex: "parse_uint 16 255 (byte_to_hex b) = Inr (unat b)"
proof -
  have "unat b \<le> 255" using unat_u8_less [of b] by simp
  moreover have "unat b div 16 \<le> 255" using calculation by simp
  moreover have "unat b div 16 * 16 + unat b mod 16 = unat b" by simp
  ultimately show ?thesis
    using digit_char_neq(1,2) [of "unat b div 16"]
    by (simp add: parse_uint_def byte_to_hex_def to_digit_digit_char)
qed

lemma step_by_2_even: "step_by_2 (2 * n) = map (\<lambda>k. 2 * k) [0..<n]"
  by (simp add: step_by_2_def)

lemma length_step_by_2 [simp]: "length (step_by_2 n) = (n + 1) div 2"
  by (simp add: step_by_2_def)

lemma hex_byte_at_encode: "i < length bs \<Longrightarrow> hex_byte_at (encode_hex bs) (2 * i) = Ok (Inr (bs ! i))"
  by (simp add: hex_byte_at_def str_slice_ascii encode_hex_drop_take parse_byte_to_hex)

lemma decode_encode_with: "decode_hex_with fmt (encode_hex bs) = Ok bs"
proof -
  have "mapM_res (\<lambda>i. try_res (hex_byte_at (encode_hex bs) i) (\<lambda>r.
             case r of Inl e \<Rightarrow> anyhow (fmt i e) | Inr b \<Rightarrow> Ok b)) (step_by_2 (2 * length bs)) = Ok bs"
    by (simp add: mapM_res_Ok_iff step_by_2_even hex_byte_at_encode)
  then show ?thesis by (simp add: decode_hex_with_def)
qed

lemma decode_encode_hex [simp]:
  "decode_hex (encode_hex bs) = Ok bs" "decode_hex_at (encode_hex bs) = Ok bs"
  "decode_hex_or_default (encode_hex bs) = Ok bs"
  by (simp_all add: decode_hex_def decode_hex_at_def decode_encode_with decode_hex_or_default_def)

lemma decode_encode_skip [simp]: "decode_hex_skip (encode_hex bs) = Ok bs"
proof -
  have "mapM_res (hex_byte_at (encode_hex bs)) (step_by_2 (2 * length bs)) = Ok (map Inr bs)"
    by (simp add: mapM_res_Ok_iff step_by_2_even hex_byte_at_encode)
  moreover have "concat (map (\<lambda>r. case r of Inl e \<Rightarrow> [] | Inr b \<Rightarrow> [b]) (map Inr bs)) = bs"
    by (induction bs) auto
  ultimately show ?thesis by (simp add: decode_hex_skip_def)
qed

lemma encode_hex_inj: "encode_hex a = encode_hex b \<longleftrightarrow> a = b"
  by (metis decode_encode_hex(1) res.inject(1))

lemma decode_hex_with_length: "decode_hex_with fmt s = Ok bs \<Longrightarrow> length s = 2 * length bs"
  by (auto simp: decode_hex_with_def dest!: mapM_res_length split: if_splits)

lemma hex_byte_at_ascii_not_Panic:
  "is_ascii s \<Longrightarrow> even (length s) \<Longrightarrow> i \<in> set (step_by_2 (length s)) \<Longrightarrow> hex_byte_at s i \<noteq> Panic"
  by (auto simp: hex_byte_at_def step_by_2_def str_slice_ascii elim!: evenE)

lemma sum_res_not_Panic [simp]: "(case r of Inl e \<Rightarrow> anyhow (f e) | Inr b \<Rightarrow> Ok b) \<noteq> Panic"
  by (cases r) auto

lemma decode_hex_with_ascii_not_Panic: "is_ascii s \<Longrightarrow> decode_hex_with fmt s \<noteq> Panic"
  unfolding decode_hex_with_def
  by (cases "even (length s)")
    (auto simp: try_res_Panic_iff odd_iff_mod_2_eq_one hex_byte_at_ascii_not_Panic
      intro!: mapM_res_not_Panic)

text \<open>The skipping decoder on an odd number of ASCII bytes slices past the end.\<close>

lemma mapM_res_Panic_last: "f x = Panic \<Longrightarrow> (\<And>y. y \<in> set xs \<Longrightarrow> is_ok (f y)) \<Longrightarrow> mapM_res f (xs @ [x]) = Panic"
proof (induction xs)
  case (Cons a xs)
  then obtain v where "f a = Ok v" by (force simp: is_ok_iff)
  with Cons show ?case by simp
qed simp

lemma decode_hex_skip_odd_panics:
  assumes "is_ascii s" "odd (length s)"
  shows "decode_hex_skip s = Panic"
proof -
  from \<open>odd (length s)\<close> obtain m where m: "length s = 2 * m + 1" by (rule oddE)
  have offs: "step_by_2 (length s) = map (\<lambda>k. 2 * k) [0..<m] @ [2 * m]"
    by (simp add: step_by_2_def m)
  have last: "hex_byte_at s (2 * m) = Panic"
    by (simp add: hex_byte_at_def str_slice_def m)
  have rest: "is_ok (hex_byte_at s y)" if "y \<in> set (map (\<lambda>k. 2 * k) [0..<m])" for y
    using that assms(1) m by (auto simp: hex_byte_at_def str_slice_ascii)
  have "mapM_res (hex_byte_at s) (step_by_2 (length s)) = Panic"
    unfolding offs using last rest by (rule mapM_res_Panic_last)
  then show ?thesis by (simp add: decode_hex_skip_def)
qed

section \<open>Text that decodes\<close>

definition is_ascii_hexdigit :: "char \<Rightarrow> bool" where
  "is_ascii_hexdigit c \<longleftrightarrow> to_digit 16 c \<noteq> None"

lemma to_digit_less: "to_digit r c = Some d \<Longrightarrow> d < r"
  by (auto simp: to_digit_def Let_def split: if_splits)

lemma to_digit_ascii: "to_digit r c = Some d \<Longrightarrow> (of_char c :: nat) < 128"
  by (auto simp: to_digit_def Let_def split: if_splits option.splits)

lemma hexdigits_ascii: "list_all is_ascii_hexdigit s \<Longrightarrow> is_ascii s"
  by (auto simp: list_all_iff is_ascii_def is_ascii_hexdigit_def dest!: to_digit_ascii)

lemma hexdigit_not_sign: "is_ascii_hexdigit c \<Longrightarrow> c \<noteq> CHR ''+''"
  by (auto simp: is_ascii_hexdigit_def to_digit_def)

lemma parse_hex_pair:
  assumes "is_ascii_hexdigit a" "is_ascii_hexdigit b"
  shows "\<exists>n. parse_uint 16 255 [a, b] = Inr n"
proof -
  obtain x y where xy: "to_digit 16 a = Some x" "to_digit 16 b = Some y"
    using assms by (auto simp: is_ascii_hexdigit_def)
  then have "x < 16" "y < 16" by (auto dest: to_digit_less)
  with xy hexdigit_not_sign [OF assms(1)] show ?thesis by (simp add: parse_uint_def)
qed

lemma decode_hexdigits:
  assumes "list_all is_ascii_hexdigit s" "length s = 2 * n"
  shows "\<exists>bs. decode_hex_with fmt s = Ok bs \<and> length bs = n"
proof -
  have pair: "\<exists>b. hex_byte_at s (2 * k) = Ok (Inr b)" if "k < n" for k
  proof -
    from that assms(2) have k: "2 * k < length s" "Suc (2 * k) < length s" by simp_all
    then have "take 2 (drop (2 * k) s) = [s ! (2 * k), s ! Suc (2 * k)]"
      by (simp add: numeral_2_eq_2 take_Suc_conv_app_nth)
    moreover obtain v where "parse_uint 16 255 [s ! (2 * k), s ! Suc (2 * k)] = Inr v"
      using parse_hex_pair [of "s ! (2 * k)" "s ! Suc (2 * k)"] assms(1) k
      unfolding list_all_length by blast
    ultimately show ?thesis
      using k hexdigits_ascii [OF assms(1)] by (simp add: hex_byte_at_def str_slice_ascii)
  qed
  then obtain g where g: "\<And>k. k < n \<Longrightarrow> hex_byte_at s (2 * k) = Ok (Inr (g k))" by metis
  have "decode_hex_with fmt s = Ok (map g [0..<n])"
    using assms(2) g by (simp add: decode_hex_with_def step_by_2_even mapM_res_Ok_iff)
  then show ?thesis by auto
qed

end
