(* ===== verification/Json.thy ===== *)
theory Json
  imports Rust_Std
begin

text \<open>
  \<open>serde_json::Value\<close> and the accessors the harness calls on it. An object is a
  \<open>BTreeMap\<close>: its entries are kept in key order (\<open>bt_insert\<close>). A floating-point number is
  identified with the text \<open>to_string\<close> prints for it; the code never computes with one.
\<close>

section \<open>Values\<close>

datatype json_number = PosInt u64 | NegInt u64 | Float string

datatype json =
    JNull
  | JBool bool
  | JNumber json_number
  | JString string
  | JArray "json list"
  | JObject "(string \<times> json) list"

fun number_to_string :: "json_number \<Rightarrow> string" where
  "number_to_string (PosInt n) = u64_to_string n"
| "number_to_string (NegInt n) = CHR ''-'' # nat_to_string (nat (- sint n))"
| "number_to_string (Float t) = t"

text \<open>The \<open>json!\<close> macro's object and the conversions of its leaves.\<close>

definition jobj :: "(string \<times> json) list \<Rightarrow> json" where
  "jobj kvs = JObject (fold (\<lambda>(k, v). bt_insert k v) kvs [])"

definition jnum :: "u64 \<Rightarrow> json" where
  "jnum n = JNumber (PosInt n)"

definition jlen :: "usize \<Rightarrow> json" where
  "jlen n = JNumber (PosInt (of_nat n))"

definition jopt :: "('a \<Rightarrow> json) \<Rightarrow> 'a option \<Rightarrow> json" where
  "jopt f v = (case v of None \<Rightarrow> JNull | Some x \<Rightarrow> f x)"

section \<open>Accessors\<close>

fun json_get :: "string \<Rightarrow> json \<Rightarrow> json option" where
  "json_get k (JObject m) = map_of m k"
| "json_get k _ = None"

fun json_get_idx :: "usize \<Rightarrow> json \<Rightarrow> json option" where
  "json_get_idx i (JArray xs) = (if i < length xs then Some (xs ! i) else None)"
| "json_get_idx i _ = None"

fun as_bool :: "json \<Rightarrow> bool option" where
  "as_bool (JBool b) = Some b"
| "as_bool _ = None"

fun as_str :: "json \<Rightarrow> string option" where
  "as_str (JString s) = Some s"
| "as_str _ = None"

fun as_u64 :: "json \<Rightarrow> u64 option" where
  "as_u64 (JNumber (PosInt n)) = Some n"
| "as_u64 _ = None"

fun as_array :: "json \<Rightarrow> json list option" where
  "as_array (JArray xs) = Some xs"
| "as_array _ = None"

text \<open>\<open>Map::remove\<close> and \<open>value[k] = v\<close> on an object.\<close>

fun json_remove :: "string \<Rightarrow> json \<Rightarrow> json" where
  "json_remove k (JObject m) = JObject (filter (\<lambda>(k', v). k' \<noteq> k) m)"
| "json_remove k v = v"

fun json_set :: "string \<Rightarrow> json \<Rightarrow> json \<Rightarrow> json" where
  "json_set k v (JObject m) = JObject (bt_insert k v m)"
| "json_set k v j = j"

section \<open>Lemmas\<close>

lemma json_get_jobj: "json_get k (jobj kvs) = map_of (rev kvs) k"
  using bt.lookup_fold [OF bt.invar_empty, of kvs] by (simp add: jobj_def)

lemma json_get_remove: "json_get k (json_remove k' j) = (if k = k' then None else json_get k j)"
proof (cases j)
  case (JObject m)
  have "map_of (filter (\<lambda>(k'', v). k'' \<noteq> k') m) k = (if k = k' then None else map_of m k)"
    by (induction m) auto
  with JObject show ?thesis by simp
qed auto

lemma jobj_ok: "\<exists>m. jobj kvs = JObject m \<and> bt_ok m"
  unfolding jobj_def by (intro exI conjI) (rule refl, rule bt.invar_fold [OF bt.invar_empty])

end
