(* ===== verification/Wire.thy ===== *)
theory Wire
  imports Hex Json
begin

text \<open>
  Points of the chain and the wire messages of the mini-protocols. The message types are those
  of \<open>pallas-network\<close> and \<open>net-core\<close>, with the constructors that the harness builds or matches;
  their encoding to bytes is not modelled.
\<close>

section \<open>Points\<close>

datatype point = Origin | Specific u64 bytes

datatype tip = Tip point u64

text \<open>\<open>net_core::types::Point\<close>; the hash of a specific point is an array of 32 bytes.\<close>

datatype nc_point = NcOrigin | NcSpecific u64 bytes

definition quoted :: "string \<Rightarrow> string" where
  "quoted s = CHR 0x22 # s @ [CHR 0x22]"

text \<open>\<open>scenario::parse_point\<close>\<close>

definition parse_point :: "string \<Rightarrow> point res" where
  "parse_point s =
     (if s = ''origin'' then Ok Origin
      else (case split_once (CHR '':'') s of
        None \<Rightarrow> anyhow (''expected '' @ quoted ''origin'' @ '' or '' @ quoted ''slot:hex_hash''
                  @ '', got '' @ quoted s)
      | Some (slot_str, hash_str) \<Rightarrow>
          try_res (with_context (''invalid slot in '' @ quoted s)
                    (case parse_u64 slot_str of Inl e \<Rightarrow> anyhow e | Inr n \<Rightarrow> Ok n)) (\<lambda>slot.
          try_res (with_context (''invalid hash hex in '' @ quoted s) (decode_hex_at hash_str)) (\<lambda>hash.
          Ok (Specific slot hash)))))"

text \<open>\<open>vars::point_to_str\<close>\<close>

fun point_to_str :: "point \<Rightarrow> string" where
  "point_to_str Origin = ''origin''"
| "point_to_str (Specific slot hash) = u64_to_string slot @ '':'' @ encode_hex hash"

text \<open>\<open>chainsync::format_point\<close> and its copy in \<open>blockfetch_server.rs\<close>\<close>

fun format_point :: "point \<Rightarrow> json" where
  "format_point Origin = JString ''origin''"
| "format_point (Specific slot hash) =
     jobj [(''slot'', jnum slot), (''hash'', JString (encode_hex hash))]"

fun format_nc_point :: "nc_point \<Rightarrow> json" where
  "format_nc_point NcOrigin = JString ''origin''"
| "format_nc_point (NcSpecific slot hash) =
     jobj [(''slot'', jnum slot), (''hash'', JString (encode_hex hash))]"

text \<open>\<open>chainsync::to_nc_point\<close>: the hash is cut or zero-padded to 32 bytes.\<close>

fun to_nc_point :: "point \<Rightarrow> nc_point" where
  "to_nc_point Origin = NcOrigin"
| "to_nc_point (Specific slot hash) =
     (let len = min (length hash) 32
      in NcSpecific slot (take len hash @ replicate (32 - len) 0))"

fun from_nc_point :: "nc_point \<Rightarrow> point" where
  "from_nc_point NcOrigin = Origin"
| "from_nc_point (NcSpecific slot hash) = Specific slot hash"

fun wf_nc_point :: "nc_point \<Rightarrow> bool" where
  "wf_nc_point NcOrigin = True"
| "wf_nc_point (NcSpecific slot hash) = (length hash = 32)"

section \<open>Messages\<close>

record header_content =
  hc_variant :: u8
  hc_cbor :: bytes

datatype cs_message =
    FindIntersect "point list"
  | RequestNext
  | ChainSyncDoneMsg
  | IntersectFound point tip
  | IntersectNotFound tip
  | RollForward header_content tip
  | RollBackward point tip
  | AwaitReply

datatype bf_message =
    RequestRange point point
  | ClientDone
  | StartBatch
  | NoBlocks
  | Block bytes
  | BatchDone

record vote =
  vote_slot :: u64
  vote_eb_hash :: bytes
  vote_voter_id :: u16
  vote_signature :: bytes

datatype ln_message =
    MsgLeiosNotificationRequestNext
  | MsgLeiosBlockAnnouncement bytes
  | MsgLeiosBlockOffer nc_point u32
  | MsgLeiosBlockTxsOffer nc_point
  | MsgLeiosVotes "vote list"
  | LnMsgDone
  | LnOther string

datatype lf_message =
    MsgLeiosBlockRequest nc_point
  | MsgLeiosBlock bytes
  | LfMsgDone
  | LfOther string

text \<open>The proposal carries the numbers of the version table, in order, and the network magic.\<close>

datatype hs_message = ProposeVersions "u64 list" u64

datatype ka_message =
    MsgKeepAlive u16
  | MsgKeepAliveResponse u16
  | KaMsgDone
  | KaOther string

datatype ts_message =
    TsMsgInit
  | MsgRequestTxIdsBlocking u16 u16
  | MsgRequestTxIdsNonBlocking u16 u16
  | MsgReplyTxIds "(bytes \<times> u32) list"
  | MsgRequestTxs "bytes list"
  | MsgReplyTxs "bytes list"
  | TsMsgDone
  | TsOther string

text \<open>What a session puts on the wire: a typed message or verbatim bytes.\<close>

datatype wire =
    CsWire cs_message
  | BfWire bf_message
  | LnWire ln_message
  | LfWire lf_message
  | HsWire hs_message
  | KaWire ka_message
  | TsWire ts_message
  | RawWire bytes

section \<open>Lemmas\<close>

lemma wf_to_nc_point: "wf_nc_point (to_nc_point p)"
  by (cases p) (auto simp: Let_def)

lemma from_to_nc_point: "length h = 32 \<Longrightarrow> from_nc_point (to_nc_point (Specific s h)) = Specific s h"
  by simp

lemma point_to_str_neq_origin: "point_to_str (Specific slot hash) \<noteq> ''origin''"
  using u64_to_string_neq_origin [of slot] by auto

lemma split_once_point: "split_once (CHR '':'') (point_to_str (Specific slot hash)) =
    Some (u64_to_string slot, encode_hex hash)"
  using split_once_append [OF u64_to_string_no_colon] by simp

lemma parse_point_Specific: "parse_point (point_to_str (Specific slot hash)) = Ok (Specific slot hash)"
  unfolding parse_point_def using point_to_str_neq_origin [of slot hash]
  by (simp add: split_once_point parse_u64_to_string del: point_to_str.simps)

lemma parse_point_to_str: "parse_point (point_to_str p) = Ok p"
proof (cases p)
  case Origin
  then show ?thesis by (simp add: parse_point_def)
next
  case (Specific slot hash)
  then show ?thesis by (simp only: parse_point_Specific)
qed

end
