(* ===== verification/Fixture.thy ===== *)
theory Fixture
  imports Wire
begin

text \<open>
  Chain fixtures (\<open>scenario/fixture.rs\<close>): the recorded headers of a chain, the JSONL file they
  are kept in, and the cursor a Chain-Sync server walks over them. A file is the list of its
  lines. The JSON reader and writer are those of the \<open>serde_json\<close> package and are arguments
  here: \<open>parse\<close> from text to a value, \<open>render\<close> from a value to text.
\<close>

section \<open>Data\<close>

definition default_header_variant :: u8 where
  "default_header_variant = 6"

record fixture_entry =
  fe_slot :: u64
  fe_block_hash :: string
  fe_block_number :: u64
  fe_cbor_hex :: string
  fe_variant :: u8

record fixture_chain =
  fc_anchor :: point
  fc_entries :: "fixture_entry list"

text \<open>\<open>FixtureChain::tip\<close>\<close>

definition chain_tip :: "fixture_chain \<Rightarrow> tip res" where
  "chain_tip c =
     (if fc_entries c = [] then Ok (Tip (fc_anchor c) 0)
      else let e = last (fc_entries c) in
        try_res (decode_hex_or_default (fe_block_hash e)) (\<lambda>h.
          Ok (Tip (Specific (fe_slot e) h) (fe_block_number e))))"

section \<open>Reading and writing fixture files\<close>

text \<open>The derived \<open>Deserialize\<close> and \<open>Serialize\<close> of a header record, on JSON values.\<close>

definition req_u64 :: "string \<Rightarrow> json \<Rightarrow> u64 res" where
  "req_u64 k v = (case json_get k v of
     None \<Rightarrow> anyhow (''missing field `'' @ k @ ''`'')
   | Some x \<Rightarrow> ok_or (''invalid type for u64 field '' @ k) (as_u64 x))"

definition req_str :: "string \<Rightarrow> json \<Rightarrow> string res" where
  "req_str k v = (case json_get k v of
     None \<Rightarrow> anyhow (''missing field `'' @ k @ ''`'')
   | Some x \<Rightarrow> ok_or (''invalid type for string field '' @ k) (as_str x))"

definition opt_u8_default :: "string \<Rightarrow> u8 \<Rightarrow> json \<Rightarrow> u8 res" where
  "opt_u8_default k d v = (case json_get k v of
     None \<Rightarrow> Ok d
   | Some x \<Rightarrow> (case as_u64 x of
       Some n \<Rightarrow> if unat n < 256 then Ok (ucast n) else anyhow (''invalid value for u8 field '' @ k)
     | None \<Rightarrow> anyhow (''invalid type for u8 field '' @ k)))"

definition entry_from_value :: "json \<Rightarrow> fixture_entry res" where
  "entry_from_value v =
     try_res (req_u64 ''slot'' v) (\<lambda>slot.
     try_res (req_str ''block_hash'' v) (\<lambda>block_hash.
     try_res (req_u64 ''block_number'' v) (\<lambda>block_number.
     try_res (req_str ''cbor_hex'' v) (\<lambda>cbor_hex.
     try_res (opt_u8_default ''variant'' default_header_variant v) (\<lambda>variant.
       Ok \<lparr>fe_slot = slot, fe_block_hash = block_hash, fe_block_number = block_number,
           fe_cbor_hex = cbor_hex, fe_variant = variant\<rparr>)))))"

text \<open>The fields in the order of the declaration, which is the order they are written in.\<close>

definition entry_fields :: "fixture_entry \<Rightarrow> (string \<times> json) list" where
  "entry_fields e = [
     (''slot'', jnum (fe_slot e)), (''block_hash'', JString (fe_block_hash e)),
     (''block_number'', jnum (fe_block_number e)), (''cbor_hex'', JString (fe_cbor_hex e)),
     (''variant'', jnum (ucast (fe_variant e)))]"

text \<open>\<open>parse_anchor\<close> after the text has been read as a JSON value\<close>

definition anchor_from_value :: "json \<Rightarrow> point res" where
  "anchor_from_value v =
     (if Option.bind (json_get ''anchor'' v) as_bool = Some True then
        (case (json_get ''slot'' v, json_get ''block_hash'' v) of
           (Some s, Some h) \<Rightarrow>
             if (case as_str h of None \<Rightarrow> [] | Some t \<Rightarrow> t) \<noteq> [] then
               try_res (ok_or ''anchor slot must be u64'' (as_u64 s)) (\<lambda>slot.
               try_res (ok_or ''anchor block_hash must be string'' (as_str h)) (\<lambda>t.
               try_res (with_context ''anchor block_hash hex'' (decode_hex t)) (\<lambda>hash.
                 Ok (Specific slot hash))))
             else Ok Origin
         | _ \<Rightarrow> Ok Origin)
      else anyhow ''first fixture line must have anchor: true'')"

definition parse_anchor :: "(string \<Rightarrow> json res) \<Rightarrow> string \<Rightarrow> point res" where
  "parse_anchor parse line = try_res (parse line) anchor_from_value"

definition load_entry :: "(string \<Rightarrow> json res) \<Rightarrow> usize \<Rightarrow> string \<Rightarrow> fixture_entry res" where
  "load_entry parse idx line =
     with_context (''parsing line '' @ nat_to_string (idx + 2) @ '' of fixture'')
       (try_res (parse line) entry_from_value)"

text \<open>The loop over the lines after the anchor; blank lines are skipped.\<close>

fun read_records :: "(usize \<Rightarrow> string \<Rightarrow> 'e res) \<Rightarrow> usize \<Rightarrow> string list \<Rightarrow> 'e list res" where
  "read_records read_line idx [] = Ok []"
| "read_records read_line idx (line # rest) =
     (if is_blank line then read_records read_line (Suc idx) rest
      else try_res (read_line idx line) (\<lambda>e.
           try_res (read_records read_line (Suc idx) rest) (\<lambda>es. Ok (e # es))))"

definition fixture_load :: "(string \<Rightarrow> json res) \<Rightarrow> string \<Rightarrow> string list option \<Rightarrow> fixture_chain res" where
  "fixture_load parse path file =
     (case file of
        None \<Rightarrow> anyhow (''opening fixture file '' @ path)
      | Some [] \<Rightarrow> anyhow (''fixture file is empty: '' @ path)
      | Some (anchor_line # lines) \<Rightarrow>
          try_res (with_context (''parsing anchor in '' @ path) (parse_anchor parse anchor_line)) (\<lambda>anchor.
          try_res (read_records (load_entry parse) 0 lines) (\<lambda>entries.
            Ok \<lparr>fc_anchor = anchor, fc_entries = entries\<rparr>)))"

text \<open>
  \<open>write_anchor\<close> truncates; \<open>append_entry\<close> adds a line. The anchor of a chain from genesis is
  written as a literal.
\<close>

definition genesis_anchor_line :: string where
  "genesis_anchor_line = ''{'' @ quoted ''anchor'' @ '':true}''"

definition anchor_to_value :: "u64 \<Rightarrow> bytes \<Rightarrow> json" where
  "anchor_to_value slot hash =
     jobj [(''anchor'', JBool True), (''slot'', jnum slot), (''block_hash'', JString (encode_hex hash))]"

definition write_anchor :: "(json \<Rightarrow> string) \<Rightarrow> point \<Rightarrow> string list \<Rightarrow> string list" where
  "write_anchor render anchor file = (case anchor of
     Origin \<Rightarrow> [genesis_anchor_line]
   | Specific slot hash \<Rightarrow> [render (anchor_to_value slot hash)])"

definition append_entry :: "(json \<Rightarrow> string) \<Rightarrow> fixture_entry \<Rightarrow> string list \<Rightarrow> string list" where
  "append_entry render e file = file @ [render (JObject (entry_fields e))]"

section \<open>The cursor\<close>

text \<open>Position \<open>-1\<close> is before the anchor, 0 the anchor, \<open>k\<close> the entry \<open>k - 1\<close>.\<close>

record cursor =
  cu_chain :: fixture_chain
  cu_pos :: int

definition cursor_new :: "fixture_chain \<Rightarrow> cursor" where
  "cursor_new c = \<lparr>cu_chain = c, cu_pos = -1\<rparr>"

definition cursor_tip :: "cursor \<Rightarrow> tip res" where
  "cursor_tip cu = chain_tip (cu_chain cu)"

text \<open>The search of \<open>point_to_pos\<close> through the entries, from index \<open>i\<close> on.\<close>

fun find_entry_pos :: "u64 \<Rightarrow> bytes \<Rightarrow> usize \<Rightarrow> fixture_entry list \<Rightarrow> int option res" where
  "find_entry_pos slot hash i [] = Ok None"
| "find_entry_pos slot hash i (e # es) =
     (if slot = fe_slot e then
        try_res (decode_hex_or_default (fe_block_hash e)) (\<lambda>h.
          if hash = h then Ok (Some (int i + 1)) else find_entry_pos slot hash (Suc i) es)
      else find_entry_pos slot hash (Suc i) es)"

definition point_to_pos :: "cursor \<Rightarrow> point \<Rightarrow> int option res" where
  "point_to_pos cu p =
     (case p of
        Origin \<Rightarrow> Ok (case fc_anchor (cu_chain cu) of Origin \<Rightarrow> Some 0 | _ \<Rightarrow> None)
      | Specific slot hash \<Rightarrow>
          (case fc_anchor (cu_chain cu) of
             Specific a_slot a_hash \<Rightarrow>
               if slot = a_slot \<and> hash = a_hash then Ok (Some 0)
               else find_entry_pos slot hash 0 (fc_entries (cu_chain cu))
           | Origin \<Rightarrow> find_entry_pos slot hash 0 (fc_entries (cu_chain cu))))"

fun find_intersect :: "cursor \<Rightarrow> point list \<Rightarrow> int option res" where
  "find_intersect cu [] = Ok None"
| "find_intersect cu (p # ps) =
     try_res (point_to_pos cu p) (\<lambda>r.
       case r of Some i \<Rightarrow> Ok (Some i) | None \<Rightarrow> find_intersect cu ps)"

definition set_pos :: "int \<Rightarrow> cursor \<Rightarrow> cursor" where
  "set_pos p cu = cu\<lparr>cu_pos := p\<rparr>"

definition current_point :: "cursor \<Rightarrow> point res" where
  "current_point cu =
     (if cu_pos cu \<le> 0 then Ok (fc_anchor (cu_chain cu))
      else let i = nat (cu_pos cu - 1); es = fc_entries (cu_chain cu) in
        if i < length es then
          try_res (decode_hex_or_default (fe_block_hash (es ! i))) (\<lambda>h.
            Ok (Specific (fe_slot (es ! i)) h))
        else Panic)"

text \<open>\<open>next as usize > len\<close>: a negative position would wrap to a huge index.\<close>

definition advance :: "cursor \<Rightarrow> fixture_entry option \<times> cursor" where
  "advance cu =
     (let nxt = cu_pos cu + 1; es = fc_entries (cu_chain cu) in
      if nxt < 0 \<or> int (length es) < nxt then (None, cu)
      else if nxt = 0 then (None, cu\<lparr>cu_pos := nxt\<rparr>)
      else (Some (es ! nat (nxt - 1)), cu\<lparr>cu_pos := nxt\<rparr>))"

definition remaining :: "cursor \<Rightarrow> usize" where
  "remaining cu = length (fc_entries (cu_chain cu)) - nat (max (cu_pos cu + 1) 0)"

section \<open>Lemmas\<close>

definition cursor_ok :: "cursor \<Rightarrow> bool" where
  "cursor_ok cu \<longleftrightarrow> -1 \<le> cu_pos cu \<and> cu_pos cu \<le> int (length (fc_entries (cu_chain cu)))"

lemma cursor_ok_new: "cursor_ok (cursor_new c)"
  by (simp add: cursor_ok_def cursor_new_def)

lemma cursor_ok_advance: "cursor_ok cu \<Longrightarrow> cursor_ok (snd (advance cu))"
  by (auto simp: cursor_ok_def advance_def Let_def)

lemma advance_chain [simp]: "cu_chain (snd (advance cu)) = cu_chain cu"
  by (auto simp: advance_def Let_def)

lemma set_pos_chain [simp]: "cu_chain (set_pos p cu) = cu_chain cu" "cu_pos (set_pos p cu) = p"
  by (simp_all add: set_pos_def)

lemma find_entry_pos_bounds:
  "find_entry_pos slot hash i es = Ok (Some p) \<Longrightarrow> int i < p \<and> p \<le> int i + int (length es)"
proof (induction es arbitrary: i)
  case Nil
  then show ?case by simp
next
  case (Cons e es)
  show ?case
  proof (cases "slot = fe_slot e \<and> decode_hex_or_default (fe_block_hash e) = Ok hash")
    case True
    with Cons.prems show ?thesis by auto
  next
    case False
    with Cons.prems have "find_entry_pos slot hash (Suc i) es = Ok (Some p)"
      by (auto split: if_splits)
    from Cons.IH [OF this] show ?thesis by auto
  qed
qed

lemma point_to_pos_bounds:
  "point_to_pos cu p = Ok (Some i) \<Longrightarrow> 0 \<le> i \<and> i \<le> int (length (fc_entries (cu_chain cu)))"
  by (auto simp: point_to_pos_def split: point.splits if_splits dest: find_entry_pos_bounds)

lemma find_intersect_bounds:
  "find_intersect cu ps = Ok (Some i) \<Longrightarrow> 0 \<le> i \<and> i \<le> int (length (fc_entries (cu_chain cu)))"
  by (induction ps) (auto split: option.splits dest: point_to_pos_bounds)

lemma find_intersect_cursor_ok:
  "find_intersect cu ps = Ok (Some i) \<Longrightarrow> cursor_ok (set_pos i cu)"
  by (auto simp: cursor_ok_def dest: find_intersect_bounds)

text \<open>The entries that a cursor at \<open>pos \<ge> 0\<close> has still to serve.\<close>

definition unserved :: "cursor \<Rightarrow> fixture_entry list" where
  "unserved cu = drop (nat (cu_pos cu)) (fc_entries (cu_chain cu))"

lemma advance_unserved_Cons:
  "0 \<le> cu_pos cu \<Longrightarrow> unserved cu = e # es \<Longrightarrow>
     \<exists>cu'. advance cu = (Some e, cu') \<and> unserved cu' = es \<and> 0 \<le> cu_pos cu' \<and>
       cu_chain cu' = cu_chain cu"
proof -
  assume pos: "0 \<le> cu_pos cu" and un: "unserved cu = e # es"
  define n where "n = nat (cu_pos cu)"
  from un have n: "n < length (fc_entries (cu_chain cu))"
    unfolding unserved_def n_def by (metis drop_eq_Nil leI list.discI)
  have "drop n (fc_entries (cu_chain cu)) = e # es"
    using un by (simp add: unserved_def n_def)
  then have "fc_entries (cu_chain cu) ! n = e" "drop (Suc n) (fc_entries (cu_chain cu)) = es"
    using n by (simp_all add: Cons_nth_drop_Suc [symmetric])
  moreover have "nat (cu_pos cu + 1) = Suc n" "\<not> cu_pos cu + 1 < 0" "cu_pos cu + 1 \<noteq> 0"
    "\<not> int (length (fc_entries (cu_chain cu))) < cu_pos cu + 1" "nat (cu_pos cu + 1 - 1) = n"
    using pos n by (simp_all add: n_def)
  ultimately show ?thesis
    using pos unfolding advance_def Let_def unserved_def by simp
qed

lemma advance_unserved_Nil:
  "0 \<le> cu_pos cu \<Longrightarrow> unserved cu = [] \<Longrightarrow> advance cu = (None, cu)"
  by (auto simp: advance_def unserved_def Let_def)

lemma ucast_u8_u64: "unat (ucast (v :: u8) :: u64) = unat v" "(ucast (ucast (v :: u8) :: u64) :: u8) = v"
proof -
  have "unat v < 2 ^ 64" using unat_u8_less [of v] by simp
  then show u: "unat (ucast v :: u64) = unat v"
    by (simp add: unsigned_ucast_eq take_bit_nat_eq_self)
  have "unat (ucast (ucast v :: u64) :: u8) = unat v"
    using unat_u8_less [of v] by (simp add: unsigned_ucast_eq unsigned_take_bit_eq take_bit_nat_eq_self)
  then show "(ucast (ucast v :: u64) :: u8) = v" by (simp add: word_unat_eq_iff)
qed

text \<open>
  A record format: its fields as written and the reader of the object they give. The reader of
  the JSON package returns the object with its keys in order, which is \<open>jobj\<close> of the fields.
\<close>

locale record_format =
  fixes fields :: "'e \<Rightarrow> (string \<times> json) list"
    and from_value :: "json \<Rightarrow> 'e res"
  assumes read_fields: "from_value (jobj (fields e)) = Ok e"
begin

lemma read_records_written:
  assumes "\<forall>e \<in> set es. parse (render (JObject (fields e))) = Ok (jobj (fields e)) \<and>
      \<not> is_blank (render (JObject (fields e)))"
  shows "read_records (\<lambda>i line. with_context (msg i) (try_res (parse line) from_value)) idx
     (map (\<lambda>e. render (JObject (fields e))) es) = Ok es"
  using assms by (induction es arbitrary: idx) (auto simp: read_fields)

end

lemma entry_read_fields: "entry_from_value (jobj (entry_fields e)) = Ok e"
  using unat_u8_less [of "fe_variant e"]
  by (simp add: entry_from_value_def entry_fields_def req_u64_def req_str_def
      opt_u8_default_def json_get_jobj jnum_def ucast_u8_u64)

interpretation header_format: record_format entry_fields entry_from_value
  by unfold_locales (rule entry_read_fields)

lemma append_entries:
  "fold (append_entry render) es ls = ls @ map (\<lambda>e. render (JObject (entry_fields e))) es"
  by (induction es arbitrary: ls) (simp_all add: append_entry_def)

lemma anchor_roundtrip:
  assumes "h \<noteq> []"
  shows "anchor_from_value (anchor_to_value s h) = Ok (Specific s h)"
proof -
  from assms have "encode_hex h \<noteq> []" by (cases h) (simp_all add: byte_to_hex_def)
  then show ?thesis
    by (simp add: anchor_from_value_def anchor_to_value_def json_get_jobj jnum_def)
qed

lemma genesis_anchor_roundtrip: "anchor_from_value (jobj [(''anchor'', JBool True)]) = Ok Origin"
  by (simp add: anchor_from_value_def json_get_jobj)

section \<open>Properties\<close>

lemma fixture_load_written:
  assumes "parse genesis_anchor_line = Ok (jobj [(''anchor'', JBool True)])"
    and "\<forall>s h. anchor = Specific s h \<longrightarrow>
      h \<noteq> [] \<and> parse (render (anchor_to_value s h)) = Ok (anchor_to_value s h)"
    and "\<forall>e \<in> set es. parse (render (JObject (entry_fields e))) = Ok (jobj (entry_fields e)) \<and>
      \<not> is_blank (render (JObject (entry_fields e)))"
  shows "fixture_load parse path (Some (fold (append_entry render) es (write_anchor render anchor old))) =
    Ok \<lparr>fc_anchor = anchor, fc_entries = es\<rparr>"
proof -
  have "read_records (load_entry parse) 0 (map (\<lambda>e. render (JObject (entry_fields e))) es) = Ok es"
    unfolding load_entry_def [abs_def] by (rule header_format.read_records_written [OF assms(3)])
  with assms(1,2) show ?thesis
    by (cases anchor) (simp_all add: fixture_load_def append_entries write_anchor_def parse_anchor_def
        genesis_anchor_roundtrip anchor_roundtrip)
qed

text \<open>C32: A header fixture written with \<open>write_anchor\<close> and one \<open>append_entry\<close> per header loads back
  as the same chain, whatever the file held before, provided the JSON package reads back each of
  the lines that were written and a mid-chain anchor has a hash.\<close>

theorem fixture_file_roundtrip:
  assumes "parse genesis_anchor_line = Ok (jobj [(''anchor'', JBool True)])"
    and "\<forall>s h. anchor = Specific s h \<longrightarrow>
      h \<noteq> [] \<and> parse (render (anchor_to_value s h)) = Ok (anchor_to_value s h)"
    and "\<forall>e \<in> set es. parse (render (JObject (entry_fields e))) = Ok (jobj (entry_fields e)) \<and>
      \<not> is_blank (render (JObject (entry_fields e)))"
  shows "fixture_load parse path (Some (fold (append_entry render) es (write_anchor render anchor old))) =
    Ok \<lparr>fc_anchor = anchor, fc_entries = es\<rparr>"
  by (rule fixture_load_written [OF assms])

theorem fixture_file_roundtrip_witness:
  "\<exists>parse render e. fixture_load parse ''f''
      (Some (fold (append_entry render) [e] (write_anchor render (Specific 5 [7]) [''old'']))) =
    Ok \<lparr>fc_anchor = Specific 5 [7], fc_entries = [e]\<rparr>"
proof -
  define e where "e = \<lparr>fe_slot = 9, fe_block_hash = ''aa'', fe_block_number = 1,
    fe_cbor_hex = ''00'', fe_variant = 6\<rparr>"
  define render where "render = (\<lambda>v. if v = anchor_to_value 5 [7] then ''A'' else ''E'')"
  define parse where "parse = (\<lambda>s. if s = ''A'' then Ok (anchor_to_value 5 [7])
     else if s = ''E'' then Ok (jobj (entry_fields e)) else Ok (jobj [(''anchor'', JBool True)]))"
  have ne: "JObject (entry_fields e) \<noteq> anchor_to_value 5 [7]"
    by (simp add: entry_fields_def anchor_to_value_def jobj_def)
  have "fixture_load parse ''f''
      (Some (fold (append_entry render) [e] (write_anchor render (Specific 5 [7]) [''old'']))) =
    Ok \<lparr>fc_anchor = Specific 5 [7], fc_entries = [e]\<rparr>"
    by (rule fixture_file_roundtrip)
      (simp_all add: parse_def render_def ne genesis_anchor_line_def is_blank_def is_whitespace_def)
  then show ?thesis by blast
qed

text \<open>\<open>find_intersect\<close> answers with the position of the first of the client's points that the
  fixture knows: every earlier point is unknown, and the position is one of the chain's.\<close>

theorem find_intersect_first_known:
  "find_intersect cu ps = Ok (Some i) \<longleftrightarrow>
     (\<exists>k < length ps. point_to_pos cu (ps ! k) = Ok (Some i) \<and> 0 \<le> i \<and>
        i \<le> int (length (fc_entries (cu_chain cu))) \<and>
        (\<forall>j < k. point_to_pos cu (ps ! j) = Ok None))"
proof (induction ps)
  case Nil
  then show ?case by simp
next
  case (Cons p ps)
  have split: "(\<exists>k < length (p # ps). Q k) \<longleftrightarrow> Q 0 \<or> (\<exists>k < length ps. Q (Suc k))" for Q
    by (auto simp: less_Suc_eq_0_disj)
  show ?case
    using Cons.IH point_to_pos_bounds [of cu p i]
    unfolding split by (auto simp: All_less_Suc2 split: option.splits)
qed

theorem find_intersect_first_known_witness:
  "find_intersect (cursor_new \<lparr>fc_anchor = Origin, fc_entries = []\<rparr>) [Specific 4 [], Origin] = Ok (Some 0)"
  unfolding find_intersect_first_known
  by (rule exI [of _ 1]) (simp add: point_to_pos_def cursor_new_def)

text \<open>Repeated \<open>advance\<close>, up to a number of calls.\<close>

fun advance_times :: "usize \<Rightarrow> cursor \<Rightarrow> fixture_entry list \<times> cursor" where
  "advance_times 0 cu = ([], cu)"
| "advance_times (Suc n) cu =
     (case advance cu of
        (None, cu') \<Rightarrow> ([], cu')
      | (Some e, cu') \<Rightarrow> (case advance_times n cu' of (es, cu'') \<Rightarrow> (e # es, cu'')))"

lemma advance_times_unserved:
  "0 \<le> cu_pos cu \<Longrightarrow> length (unserved cu) \<le> n \<Longrightarrow>
     fst (advance_times n cu) = unserved cu \<and> advance (snd (advance_times n cu)) = (None, snd (advance_times n cu))"
proof (induction n arbitrary: cu)
  case 0
  then show ?case by (simp add: advance_unserved_Nil)
next
  case (Suc n)
  show ?case
  proof (cases "unserved cu")
    case Nil
    with Suc.prems show ?thesis by (simp add: advance_unserved_Nil)
  next
    case (Cons e es)
    with Suc.prems(1) obtain cu' where "advance cu = (Some e, cu')" "unserved cu' = es" "0 \<le> cu_pos cu'"
      by (blast dest: advance_unserved_Cons)
    with Suc.IH [of cu'] Suc.prems(2) Cons show ?thesis
      by (cases "advance_times n cu'") simp
  qed
qed

text \<open>From an intersection on, repeated \<open>advance\<close> returns the headers after it in chain order,
  each once, and then \<open>None\<close> with the cursor unmoved.\<close>

theorem advance_serves_after_intersect:
  assumes "find_intersect cu ps = Ok (Some i)"
    and "length (fc_entries (cu_chain cu)) \<le> n"
  shows "fst (advance_times n (set_pos i cu)) = drop (nat i) (fc_entries (cu_chain cu)) \<and>
    advance (snd (advance_times n (set_pos i cu))) = (None, snd (advance_times n (set_pos i cu)))"
  using advance_times_unserved [of "set_pos i cu" n] find_intersect_bounds [OF assms(1)] assms(2)
  by (simp add: unserved_def)

theorem advance_serves_after_intersect_witness:
  "\<exists>e cu. fst (advance_times 3 (set_pos 0 cu)) = [e] \<and>
     advance (snd (advance_times 3 (set_pos 0 cu))) = (None, snd (advance_times 3 (set_pos 0 cu)))"
proof -
  define e where "e = \<lparr>fe_slot = 9, fe_block_hash = ''aa'', fe_block_number = 1,
    fe_cbor_hex = ''00'', fe_variant = 6\<rparr>"
  define cu where "cu = cursor_new \<lparr>fc_anchor = Origin, fc_entries = [e]\<rparr>"
  have "find_intersect cu [Origin] = Ok (Some 0)"
    by (simp add: cu_def cursor_new_def point_to_pos_def)
  from advance_serves_after_intersect [OF this, of 3] show ?thesis
    by (intro exI [of _ e] exI [of _ cu]) (simp add: cu_def cursor_new_def)
qed

end
