(* ===== verification/BlockFixture.thy ===== *)
theory BlockFixture
  imports Fixture
begin

text \<open>
  Block-body fixtures (\<open>scenario/block_fixture.rs\<close>): recorded or synthetic block bodies in chain
  order, the range query a Block-Fetch server answers from them, and their JSONL files.
\<close>

section \<open>Data\<close>

record block_fixture_entry =
  be_slot :: u64
  be_block_hash :: string
  be_block_cbor_hex :: string

record block_fixture_chain =
  bc_anchor :: point
  bc_entries :: "block_fixture_entry list"

definition body_bytes :: "block_fixture_entry \<Rightarrow> bytes res" where
  "body_bytes e = decode_hex_skip (be_block_cbor_hex e)"

definition block_point :: "block_fixture_entry \<Rightarrow> point res" where
  "block_point e = try_res (decode_hex_skip (be_block_hash e)) (\<lambda>h. Ok (Specific (be_slot e) h))"

section \<open>Building and querying\<close>

text \<open>A peer's block store: \<open>BTreeMap<(slot, hash), body>\<close>.\<close>

type_synonym block_store = "((u64 \<times> bytes) \<times> bytes) list"

definition entry_of_store :: "(u64 \<times> bytes) \<times> bytes \<Rightarrow> block_fixture_entry" where
  "entry_of_store kv = (case kv of ((slot, hash), body) \<Rightarrow>
     \<lparr>be_slot = slot, be_block_hash = encode_hex hash, be_block_cbor_hex = encode_hex body\<rparr>)"

definition from_block_store :: "block_store \<Rightarrow> block_fixture_chain" where
  "from_block_store store = \<lparr>bc_anchor = Origin, bc_entries = map entry_of_store store\<rparr>"

text \<open>\<open>iter().position(..)\<close> with the closure's decoding, which may panic, from index \<open>i\<close> on.\<close>

fun find_block_pos :: "u64 \<Rightarrow> bytes \<Rightarrow> usize \<Rightarrow> block_fixture_entry list \<Rightarrow> usize option res" where
  "find_block_pos slot hash i [] = Ok None"
| "find_block_pos slot hash i (e # es) =
     (if be_slot e = slot then
        try_res (decode_hex_skip (be_block_hash e)) (\<lambda>h.
          if h = hash then Ok (Some i) else find_block_pos slot hash (Suc i) es)
      else find_block_pos slot hash (Suc i) es)"

definition find_entry_idx :: "block_fixture_chain \<Rightarrow> point \<Rightarrow> usize option res" where
  "find_entry_idx c p = (case p of
     Origin \<Rightarrow> Ok None
   | Specific slot hash \<Rightarrow> find_block_pos slot hash 0 (bc_entries c))"

definition find_range :: "block_fixture_chain \<Rightarrow> point \<Rightarrow> point \<Rightarrow> block_fixture_entry list option res" where
  "find_range c from to =
     try_res (find_entry_idx c from) (\<lambda>f. case f of None \<Rightarrow> Ok None | Some from_idx \<Rightarrow>
     try_res (find_entry_idx c to) (\<lambda>t. case t of None \<Rightarrow> Ok None | Some to_idx \<Rightarrow>
       if to_idx < from_idx then Ok None
       else Ok (Some (take (Suc to_idx - from_idx) (drop from_idx (bc_entries c))))))"

section \<open>Files\<close>

definition block_entry_from_value :: "json \<Rightarrow> block_fixture_entry res" where
  "block_entry_from_value v =
     try_res (req_u64 ''slot'' v) (\<lambda>slot.
     try_res (req_str ''block_hash'' v) (\<lambda>block_hash.
     try_res (req_str ''block_cbor_hex'' v) (\<lambda>block_cbor_hex.
       Ok \<lparr>be_slot = slot, be_block_hash = block_hash, be_block_cbor_hex = block_cbor_hex\<rparr>)))"

definition block_entry_fields :: "block_fixture_entry \<Rightarrow> (string \<times> json) list" where
  "block_entry_fields e = [(''slot'', jnum (be_slot e)),
     (''block_hash'', JString (be_block_hash e)), (''block_cbor_hex'', JString (be_block_cbor_hex e))]"

definition block_parse_anchor :: "(string \<Rightarrow> json res) \<Rightarrow> string \<Rightarrow> point res" where
  "block_parse_anchor parse line =
     try_res (parse line) (\<lambda>v.
       if Option.bind (json_get ''anchor'' v) as_bool = Some True then Ok Origin
       else anyhow ''first block-fixture line must have anchor: true'')"

definition load_block_entry :: "(string \<Rightarrow> json res) \<Rightarrow> usize \<Rightarrow> string \<Rightarrow> block_fixture_entry res" where
  "load_block_entry parse idx line =
     with_context (''parsing line '' @ nat_to_string (idx + 2) @ '' of block fixture'')
       (try_res (parse line) block_entry_from_value)"

definition block_fixture_load ::
    "(string \<Rightarrow> json res) \<Rightarrow> string \<Rightarrow> string list option \<Rightarrow> block_fixture_chain res" where
  "block_fixture_load parse path file =
     (case file of
        None \<Rightarrow> anyhow (''opening block fixture '' @ path)
      | Some [] \<Rightarrow> anyhow (''block fixture is empty: '' @ path)
      | Some (anchor_line # lines) \<Rightarrow>
          try_res (with_context (''parsing anchor in '' @ path) (block_parse_anchor parse anchor_line)) (\<lambda>anchor.
          try_res (read_records (load_block_entry parse) 0 lines) (\<lambda>entries.
            Ok \<lparr>bc_anchor = anchor, bc_entries = entries\<rparr>)))"

definition block_write_anchor :: "string list \<Rightarrow> string list" where
  "block_write_anchor file = [genesis_anchor_line]"

definition block_append_entry :: "(json \<Rightarrow> string) \<Rightarrow> block_fixture_entry \<Rightarrow> string list \<Rightarrow> string list" where
  "block_append_entry render e file = file @ [render (JObject (block_entry_fields e))]"

section \<open>Lemmas\<close>

lemma block_entry_read_fields: "block_entry_from_value (jobj (block_entry_fields e)) = Ok e"
  by (simp add: block_entry_from_value_def block_entry_fields_def req_u64_def req_str_def
      json_get_jobj jnum_def)

interpretation block_format: record_format block_entry_fields block_entry_from_value
  by unfold_locales (rule block_entry_read_fields)

lemma block_append_entries:
  "fold (block_append_entry render) es ls = ls @ map (\<lambda>e. render (JObject (block_entry_fields e))) es"
  by (induction es arbitrary: ls) (simp_all add: block_append_entry_def)

lemma entry_of_store_simps [simp]:
  "be_slot (entry_of_store ((s, h), b)) = s"
  "decode_hex_skip (be_block_hash (entry_of_store ((s, h), b))) = Ok h"
  "body_bytes (entry_of_store ((s, h), b)) = Ok b"
  "block_point (entry_of_store ((s, h), b)) = Ok (Specific s h)"
  by (simp_all add: entry_of_store_def body_bytes_def block_point_def)

lemma find_block_pos_store:
  "find_block_pos s h i (map entry_of_store store) =
     Ok (map_option (\<lambda>k. i + k) (position (\<lambda>kv. fst kv = (s, h)) store))"
proof (induction store arbitrary: i)
  case Nil
  then show ?case by simp
next
  case (Cons kv store)
  obtain s' h' b where kv: "kv = ((s', h'), b)" by (cases kv) auto
  show ?case
    by (auto simp: kv Cons.IH option.map_comp comp_def)
qed

text \<open>Between two positions of an ordered list are the elements between the two values.\<close>

lemma filter_sorted_range:
  fixes f :: "'a \<Rightarrow> 'b :: linorder"
  assumes sorted: "sorted_wrt (<) (map f xs)" and ij: "i \<le> j" "j < length xs"
  shows "filter (\<lambda>x. f (xs ! i) \<le> f x \<and> f x \<le> f (xs ! j)) xs = take (Suc j - i) (drop i xs)"
proof -
  let ?P = "\<lambda>x. f (xs ! i) \<le> f x \<and> f x \<le> f (xs ! j)"
  have less: "f (xs ! a) < f (xs ! b)" if "a < b" "b < length xs" for a b
    using sorted_wrt_nth_less [OF sorted that(1)] that by simp
  have le: "f (xs ! a) \<le> f (xs ! b)" if "a \<le> b" "b < length xs" for a b
    using less [of a b] that by (cases "a = b") auto
  have "xs = take i xs @ take (Suc j - i) (drop i xs) @ drop (Suc j - i) (drop i xs)"
    by (simp only: append_take_drop_id)
  moreover have "drop (Suc j - i) (drop i xs) = drop (Suc j) xs"
    using ij by simp
  ultimately have "filter ?P xs = filter ?P (take i xs) @ filter ?P (take (Suc j - i) (drop i xs))
      @ filter ?P (drop (Suc j) xs)"
    by (metis filter_append)
  moreover have "filter ?P (take i xs) = []"
  proof -
    have "f (xs ! k) < f (xs ! i)" if "k < i" for k
      by (rule less) (use that ij in auto)
    then show ?thesis by (auto simp: filter_empty_conv in_set_conv_nth not_le)
  qed
  moreover have "filter ?P (drop (Suc j) xs) = []"
  proof -
    have "f (xs ! j) < f (xs ! (Suc j + k))" if "k < length xs - Suc j" for k
      by (rule less) (use that in auto)
    then show ?thesis by (auto simp: filter_empty_conv in_set_conv_nth not_le)
  qed
  moreover have "filter ?P (take (Suc j - i) (drop i xs)) = take (Suc j - i) (drop i xs)"
  proof -
    have "f (xs ! i) \<le> f (xs ! (i + k))" "f (xs ! (i + k)) \<le> f (xs ! j)" if "k < Suc j - i" for k
      by (rule le; use that ij in linarith)+
    then show ?thesis using ij by (auto simp: filter_id_conv in_set_conv_nth)
  qed
  ultimately show ?thesis by simp
qed

lemma position_key:
  assumes "bt_ok m" "position (\<lambda>kv. fst kv = k) m = Some i"
  shows "i < length m" "fst (m ! i) = k"
  using position_SomeD [OF assms(2)] by simp_all

lemma bt_ok_index_le:
  assumes "bt_ok m" "i < length m" "j < length m"
  shows "fst (m ! i) \<le> fst (m ! j) \<longleftrightarrow> i \<le> j"
proof -
  have "fst (m ! a) < fst (m ! b)" if "a < b" "b < length m" for a b
    using sorted_wrt_nth_less [OF assms(1) [unfolded bt_ok_def] that(1)] that by simp
  with assms(2,3) show ?thesis
    by (metis le_neq_implies_less leD leI order_less_imp_le order_refl)
qed

lemma find_range_of_store_eq:
  assumes "bt_ok store"
  shows "find_range (from_block_store store) (Specific s1 h1) (Specific s2 h2) =
    Ok (if (s1, h1) \<in> fst ` set store \<and> (s2, h2) \<in> fst ` set store \<and> (s1, h1) \<le> (s2, h2)
        then Some (map entry_of_store
               (filter (\<lambda>kv. (s1, h1) \<le> fst kv \<and> fst kv \<le> (s2, h2)) store))
        else None)"
proof -
  let ?pos = "\<lambda>k. position (\<lambda>kv. fst kv = k) store"
  have idx: "find_entry_idx (from_block_store store) (Specific s h) = Ok (?pos (s, h))" for s h
    by (simp add: find_entry_idx_def from_block_store_def find_block_pos_store option.map_ident)
  have entries: "bc_entries (from_block_store store) = map entry_of_store store"
    by (simp add: from_block_store_def)
  have dom: "k \<in> fst ` set store \<longleftrightarrow> ?pos k \<noteq> None" for k
    using position_None_iff [of "\<lambda>kv. fst kv = k" store] by (auto simp: image_iff)
  show ?thesis
  proof (cases "?pos (s1, h1)")
    case None
    then show ?thesis using dom by (simp add: find_range_def idx)
  next
    case i: (Some i)
    show ?thesis
    proof (cases "?pos (s2, h2)")
      case None
      then show ?thesis using dom i by (simp add: find_range_def idx)
    next
      case j: (Some j)
      note pos = position_key [OF assms i] position_key [OF assms j]
      from bt_ok_index_le [OF assms pos(1) pos(3)] pos
      have "(s1, h1) \<le> (s2, h2) \<longleftrightarrow> i \<le> j" by simp
      moreover have "filter (\<lambda>kv. (s1, h1) \<le> fst kv \<and> fst kv \<le> (s2, h2)) store =
          take (Suc j - i) (drop i store)" if "i \<le> j"
        using filter_sorted_range [OF assms [unfolded bt_ok_def] that pos(3)] pos by simp
      ultimately show ?thesis
        using i j dom [of "(s1, h1)"] dom [of "(s2, h2)"]
        by (simp add: find_range_def idx entries drop_map take_map)
    qed
  qed
qed

section \<open>Properties\<close>

lemma block_fixture_load_written:
  assumes "parse genesis_anchor_line = Ok (jobj [(''anchor'', JBool True)])"
    and "\<forall>e \<in> set es. parse (render (JObject (block_entry_fields e))) = Ok (jobj (block_entry_fields e)) \<and>
      \<not> is_blank (render (JObject (block_entry_fields e)))"
  shows "block_fixture_load parse path
      (Some (fold (block_append_entry render) es (block_write_anchor old))) =
    Ok \<lparr>bc_anchor = Origin, bc_entries = es\<rparr>"
proof -
  have "read_records (load_block_entry parse) 0 (map (\<lambda>e. render (JObject (block_entry_fields e))) es) = Ok es"
    unfolding load_block_entry_def [abs_def] by (rule block_format.read_records_written [OF assms(2)])
  with assms(1) show ?thesis
    by (simp add: block_fixture_load_def block_append_entries block_write_anchor_def
        block_parse_anchor_def json_get_jobj)
qed

text \<open>Over a peer's block store a range query answers with exactly the stored blocks whose
  (slot, hash) keys lie between the two endpoints, in chain order; it answers \<open>None\<close> if an endpoint
  is not stored or the endpoints are reversed.\<close>

theorem find_range_of_store:
  assumes "bt_ok store"
  shows "find_range (from_block_store store) (Specific s1 h1) (Specific s2 h2) =
    Ok (if (s1, h1) \<in> fst ` set store \<and> (s2, h2) \<in> fst ` set store \<and> (s1, h1) \<le> (s2, h2)
        then Some (map entry_of_store
               (filter (\<lambda>kv. (s1, h1) \<le> fst kv \<and> fst kv \<le> (s2, h2)) store))
        else None)"
  by (rule find_range_of_store_eq [OF assms])

theorem find_range_of_store_witness:
  "find_range (from_block_store [((1, [1]), [10]), ((2, [2]), [20]), ((3, [3]), [30])])
     (Specific 1 [1]) (Specific 2 [2]) =
   Ok (Some (map entry_of_store [((1, [1]), [10]), ((2, [2]), [20])]))"
  by (subst find_range_of_store) (simp_all add: bt_ok_def)

text \<open>A block-body fixture written entry by entry loads back as the same blocks, anchored at
  the genesis, provided the JSON package reads back the lines that were written.\<close>

theorem block_fixture_file_roundtrip:
  assumes "parse genesis_anchor_line = Ok (jobj [(''anchor'', JBool True)])"
    and "\<forall>e \<in> set es. parse (render (JObject (block_entry_fields e))) = Ok (jobj (block_entry_fields e)) \<and>
      \<not> is_blank (render (JObject (block_entry_fields e)))"
  shows "block_fixture_load parse path
      (Some (fold (block_append_entry render) es (block_write_anchor old))) =
    Ok \<lparr>bc_anchor = Origin, bc_entries = es\<rparr>"
  by (rule block_fixture_load_written [OF assms])

theorem block_fixture_file_roundtrip_witness:
  "\<exists>parse render e. block_fixture_load parse ''f''
      (Some (fold (block_append_entry render) [e] (block_write_anchor []))) =
    Ok \<lparr>bc_anchor = Origin, bc_entries = [e]\<rparr>"
proof -
  define e where "e = \<lparr>be_slot = 9, be_block_hash = ''aa'', be_block_cbor_hex = ''00''\<rparr>"
  define parse where "parse = (\<lambda>s. if s = ''E'' then Ok (jobj (block_entry_fields e))
     else Ok (jobj [(''anchor'', JBool True)]))"
  have "block_fixture_load parse ''f''
      (Some (fold (block_append_entry (\<lambda>v. ''E'')) [e] (block_write_anchor []))) =
    Ok \<lparr>bc_anchor = Origin, bc_entries = [e]\<rparr>"
    by (rule block_fixture_file_roundtrip)
      (simp_all add: parse_def genesis_anchor_line_def is_blank_def is_whitespace_def)
  then show ?thesis by blast
qed

end
