(* ===== verification/Production.thy ===== *)
theory Production
  imports Rust_Std
begin

text \<open>
  Block-production rules (\<open>ProductionRule\<close> in \<open>scenario/mod.rs\<close>): when a peer of the imaginary
  network produces a block as the slot counter moves. The arithmetic is that of \<open>u64\<close> in a
  release build, which wraps; \<open>saturating_add\<close> does not. The loop of \<open>every_n_slots_range\<close>
  has no bound of its own, so it is a partial function: \<open>None\<close> means that it does not return.
\<close>

section \<open>Rules\<close>

datatype production_rule =
    PRNone
  | EveryNSlots u64 u64 \<comment> \<open>first_slot, interval\<close>
  | AtSlots "u64 list"
  | ForkedFromSlot u64 u64 u64 string \<comment> \<open>first_slot, interval, fork_slot, fork_marker\<close>
  | SkipsSlots u64 u64 "usize list" \<comment> \<open>first_slot, interval, skip_indices\<close>
  | BrokenPrevHash u64 u64 u64 string \<comment> \<open>first_slot, interval, break_at_slot, wrong_hash\<close>

fun production_kind_str :: "production_rule \<Rightarrow> string" where
  "production_kind_str PRNone = ''none''"
| "production_kind_str (EveryNSlots _ _) = ''every_n_slots''"
| "production_kind_str (AtSlots _) = ''at_slots''"
| "production_kind_str (ForkedFromSlot _ _ _ _) = ''forked_from_slot''"
| "production_kind_str (SkipsSlots _ _ _) = ''skips_slots''"
| "production_kind_str (BrokenPrevHash _ _ _ _) = ''broken_prev_hash''"

section \<open>Firing slots\<close>

definition saturating_add :: "u64 \<Rightarrow> u64 \<Rightarrow> u64" where
  "saturating_add a b = (if unat a + unat b < 2 ^ 64 then a + b else - 1)"

text \<open>\<open>while s <= to { slots.push(s); s = s.saturating_add(interval) }\<close>\<close>

partial_function (option) push_slots :: "u64 \<Rightarrow> u64 \<Rightarrow> u64 \<Rightarrow> u64 list \<Rightarrow> u64 list option" where
  "push_slots interval to s slots =
     (if s \<le> to then push_slots interval to (saturating_add s interval) (slots @ [s])
      else Some slots)"

definition every_n_slots_range :: "u64 \<Rightarrow> u64 \<Rightarrow> u64 \<Rightarrow> u64 \<Rightarrow> u64 list option" where
  "every_n_slots_range first_slot interval from to =
     (if interval = 0 \<or> from > to then Some []
      else let start = (if first_slot \<ge> from then first_slot
                        else let steps = (from - first_slot + interval - 1) div interval
                             in first_slot + steps * interval)
           in push_slots interval to start [])"

definition slots_in_range :: "production_rule \<Rightarrow> u64 \<Rightarrow> u64 \<Rightarrow> u64 list option" where
  "slots_in_range rule from to =
     (if from > to then Some []
      else case rule of
        PRNone \<Rightarrow> Some []
      | EveryNSlots first_slot interval \<Rightarrow> every_n_slots_range first_slot interval from to
      | AtSlots slots \<Rightarrow> Some (filter (\<lambda>s. s \<ge> from \<and> s \<le> to) slots)
      | ForkedFromSlot first_slot interval _ _ \<Rightarrow> every_n_slots_range first_slot interval from to
      | BrokenPrevHash first_slot interval _ _ \<Rightarrow> every_n_slots_range first_slot interval from to
      | SkipsSlots first_slot interval skip_indices \<Rightarrow>
          (case every_n_slots_range first_slot interval from to of
             None \<Rightarrow> None
           | Some ss \<Rightarrow> Some (filter (\<lambda>s. unat ((s - first_slot) div interval) \<notin> set skip_indices) ss)))"

section \<open>What a rule promises\<close>

text \<open>
  The specification: a rule is a set of slots, and a range query lists its elements in order. It
  is stated on natural numbers, where nothing wraps.
\<close>

definition on_grid :: "u64 \<Rightarrow> u64 \<Rightarrow> nat \<Rightarrow> bool" where
  "on_grid first_slot interval n \<longleftrightarrow>
     interval \<noteq> 0 \<and> unat first_slot \<le> n \<and> (n - unat first_slot) mod unat interval = 0"

fun fires :: "production_rule \<Rightarrow> nat \<Rightarrow> bool" where
  "fires PRNone n = False"
| "fires (EveryNSlots f i) n = on_grid f i n"
| "fires (AtSlots ss) n = (n \<in> unat ` set ss)"
| "fires (ForkedFromSlot f i _ _) n = on_grid f i n"
| "fires (SkipsSlots f i ks) n = (on_grid f i n \<and> (n - unat f) div unat i \<notin> set ks)"
| "fires (BrokenPrevHash f i _ _) n = on_grid f i n"

definition firing_slots :: "production_rule \<Rightarrow> u64 \<Rightarrow> u64 \<Rightarrow> u64 list" where
  "firing_slots rule from to = map of_nat (filter (fires rule) [unat from..<Suc (unat to)])"

text \<open>Rules and ranges on which the arithmetic stays in 64 bits: listed slots increase, the range
  ends below the greatest slot, and the range's start leaves room for one interval.\<close>

fun rule_interval :: "production_rule \<Rightarrow> nat" where
  "rule_interval PRNone = 0"
| "rule_interval (EveryNSlots _ i) = unat i"
| "rule_interval (AtSlots _) = 0"
| "rule_interval (ForkedFromSlot _ i _ _) = unat i"
| "rule_interval (SkipsSlots _ i _) = unat i"
| "rule_interval (BrokenPrevHash _ i _ _) = unat i"

fun slots_increase :: "production_rule \<Rightarrow> bool" where
  "slots_increase (AtSlots ss) = sorted_wrt (<) ss"
| "slots_increase _ = True"

definition range_ok :: "production_rule \<Rightarrow> u64 \<Rightarrow> u64 \<Rightarrow> bool" where
  "range_ok rule from to \<longleftrightarrow>
     slots_increase rule \<and> unat to < 2 ^ 64 - 1 \<and> unat from + rule_interval rule < 2 ^ 64"

section \<open>Lemmas\<close>

lemma unat_lt64 [simp]: "unat (w :: u64) < 2 ^ 64"
  using unsigned_less [of w, where 'a = nat] by simp

lemma unat_max_u64: "unat (- 1 :: u64) = 2 ^ 64 - 1"
  by (simp add: unsigned_minus_1_eq_mask mask_eq_exp_minus_1)

lemma unat_of_nat_u64: "n < 2 ^ 64 \<Longrightarrow> unat (of_nat n :: u64) = n"
  by (simp add: unsigned_of_nat take_bit_nat_eq_self)

lemma unat_saturating_add: "unat (saturating_add a b) = min (unat a + unat b) (2 ^ 64 - 1)"
proof (cases "unat a + unat b < 2 ^ 64")
  case True
  then have "unat (a + b) = unat a + unat b"
    by (simp add: unat_word_ariths)
  with True show ?thesis by (simp add: saturating_add_def min_def)
next
  case False
  then show ?thesis by (simp add: saturating_add_def unat_max_u64 min_def)
qed

text \<open>Multiples of the interval from the first one on.\<close>

lemma upt_split: "i \<le> j \<Longrightarrow> j \<le> k \<Longrightarrow> [i..<k] = [i..<j] @ [j..<k]"
  using upt_add_eq_append [of i j "k - j"] by simp

lemma filter_grid_step:
  fixes s i t :: nat
  assumes "0 < i" "s < t"
  shows "filter (\<lambda>n. (n - s) mod i = 0) [s..<t] =
    s # filter (\<lambda>n. (n - (s + i)) mod i = 0) [s + i..<t]"
proof -
  have gap: "filter (\<lambda>n. (n - s) mod i = 0) [Suc s..<min (s + i) t] = []"
    using assms by (auto simp: filter_empty_conv)
  have tail: "filter (\<lambda>n. (n - s) mod i = 0) [min (s + i) t..<t] =
      filter (\<lambda>n. (n - (s + i)) mod i = 0) [s + i..<t]"
  proof (cases "s + i \<le> t")
    case True
    have "(n - s) mod i = (n - (s + i)) mod i" if "n \<in> set [s + i..<t]" for n
    proof -
      from that have "n - s = (n - (s + i)) + i" by simp
      then show ?thesis by simp
    qed
    then have "filter (\<lambda>n. (n - s) mod i = 0) [s + i..<t] =
        filter (\<lambda>n. (n - (s + i)) mod i = 0) [s + i..<t]"
      by (intro filter_cong refl) simp
    with True show ?thesis by simp
  next
    case False
    then show ?thesis by simp
  qed
  have "[s..<t] = s # [Suc s..<min (s + i) t] @ [min (s + i) t..<t]"
    using assms upt_split [of "Suc s" "min (s + i) t" t] by (simp add: upt_conv_Cons)
  with gap tail show ?thesis by simp
qed

lemma push_slots_eq:
  assumes "interval \<noteq> 0" "unat to < 2 ^ 64 - 1"
  shows "push_slots interval to s acc =
    Some (acc @ map of_nat (filter (\<lambda>n. (n - unat s) mod unat interval = 0) [unat s..<Suc (unat to)]))"
proof (induction "Suc (unat to) - unat s" arbitrary: s acc rule: less_induct)
  case less
  have i: "0 < unat interval" using assms(1) by (simp add: unat_gt_0)
  show ?case
  proof (cases "s \<le> to")
    case False
    then have "unat to < unat s" by (simp add: word_le_nat_alt)
    with False show ?thesis by (simp add: push_slots.simps [of interval to s])
  next
    case True
    then have le: "unat s \<le> unat to" by (simp add: word_le_nat_alt)
    let ?s = "saturating_add s interval"
    have u: "unat ?s = min (unat s + unat interval) (2 ^ 64 - 1)" by (rule unat_saturating_add)
    then have "Suc (unat to) - unat ?s < Suc (unat to) - unat s"
      using le i assms(2) by (simp add: min_def split: if_splits)
    from less [OF this, of "acc @ [s]"]
    have "push_slots interval to s acc = Some ((acc @ [s]) @ map of_nat
        (filter (\<lambda>n. (n - unat ?s) mod unat interval = 0) [unat ?s..<Suc (unat to)]))"
      using True by (simp add: push_slots.simps [of interval to s])
    moreover have "filter (\<lambda>n. (n - unat ?s) mod unat interval = 0) [unat ?s..<Suc (unat to)] =
        filter (\<lambda>n. (n - (unat s + unat interval)) mod unat interval = 0)
          [unat s + unat interval..<Suc (unat to)]"
    proof (cases "unat s + unat interval \<le> 2 ^ 64 - 1")
      case True
      with u show ?thesis by simp
    next
      case False
      with u assms(2) show ?thesis by simp
    qed
    ultimately show ?thesis
      using filter_grid_step [OF i, of "unat s" "Suc (unat to)"] le by simp
  qed
qed

text \<open>Up to the greatest slot the loop never ends: the sum saturates there.\<close>

lemma push_slots_diverges: "push_slots interval (- 1) s acc = None"
proof -
  have "to \<noteq> - 1" if "push_slots interval to s acc = Some ys" for to ys
    by (rule push_slots.raw_induct [of "\<lambda>i to s acc ys. to \<noteq> - 1", OF _ that])
      (auto split: if_splits)
  then show ?thesis by (cases "push_slots interval (- 1) s acc") auto
qed

text \<open>Where \<open>every_n_slots_range\<close> starts: the least grid point of the range.\<close>

lemma grid_start:
  fixes d i :: nat
  assumes "0 < i"
  shows "d \<le> (d + i - 1) div i * i" "(d + i - 1) div i * i < d + i"
proof -
  have "(d + i - 1) div i * i + (d + i - 1) mod i = d + i - 1" by simp
  moreover have "(d + i - 1) mod i < i" using assms by simp
  ultimately show "d \<le> (d + i - 1) div i * i" "(d + i - 1) div i * i < d + i" by linarith+
qed

lemma unat_add_small: "unat (a :: u64) + unat b < 2 ^ 64 \<Longrightarrow> unat (a + b) = unat a + unat b"
  by (simp add: unat_word_ariths)

lemma unat_sub_le: "b \<le> a \<Longrightarrow> unat (a - b :: u64) = unat a - unat b"
  by (simp add: unat_sub_if_size word_le_nat_alt)

lemma unat_mult_small: "unat (a :: u64) * unat b < 2 ^ 64 \<Longrightarrow> unat (a * b) = unat a * unat b"
  by (simp add: unat_word_ariths)

lemma unat_grid_start:
  fixes f i lo :: u64
  assumes i: "i \<noteq> 0" and lt: "f < lo" and room: "unat lo + unat i < 2 ^ 64"
  defines "steps \<equiv> (lo - f + i - 1) div i"
  shows "unat (f + steps * i) = unat f + (unat lo - unat f + unat i - 1) div unat i * unat i"
proof -
  have i0: "0 < unat i" using i by (simp add: unat_gt_0)
  from lt have lt': "unat f < unat lo" by (simp add: word_less_nat_alt)
  let ?d = "unat lo - unat f"
  have "unat (lo - f) = ?d" using lt by (simp add: unat_sub_le)
  then have a: "unat (lo - f + i) = ?d + unat i"
    using room lt' i0
    by (subst unat_add_small) auto
  have "1 \<le> lo - f + i" using a i0 by (simp add: word_le_nat_alt)
  then have "unat (lo - f + i - 1) = ?d + unat i - 1" using a by (simp add: unat_sub_le)
  then have steps: "unat steps = (?d + unat i - 1) div unat i"
    by (simp add: steps_def unat_div)
  note g = grid_start [OF i0, of ?d]
  have m: "unat (steps * i) = unat steps * unat i"
    using g room lt' by (subst unat_mult_small) (auto simp: steps)
  have "unat (f + steps * i) = unat f + unat (steps * i)"
    using g room lt' by (subst unat_add_small) (auto simp: steps m)
  then show ?thesis by (simp add: m steps)
qed

lemma filter_grid_from:
  fixes f i a b :: nat
  assumes "0 < i" "f \<le> a"
  shows "filter (\<lambda>n. f \<le> n \<and> (n - f) mod i = 0) [a..<b] =
    filter (\<lambda>n. (n - (f + (a - f + i - 1) div i * i)) mod i = 0)
      [f + (a - f + i - 1) div i * i..<b]"
proof -
  let ?k = "(a - f + i - 1) div i"
  let ?s = "f + ?k * i"
  note g = grid_start [OF assms(1), of "a - f"]
  have eq: "(n - f) mod i = (n - ?s) mod i" if "?s \<le> n" for n
  proof -
    from that have "n - f = (n - ?s) + ?k * i" by simp
    then show ?thesis by simp
  qed
  have none: "(n - f) mod i \<noteq> 0" if "a \<le> n" "n < ?s" for n
  proof
    assume "(n - f) mod i = 0"
    then obtain q where q: "n - f = i * q" by (auto simp: mod_eq_0_iff_dvd dvd_def)
    with that(2) assms(2) that(1) have "i * q < ?k * i" by linarith
    then have "q < ?k" by (simp add: mult.commute)
    then have "q * i \<le> (?k - 1) * i" by (intro mult_right_mono) auto
    also have "\<dots> = ?k * i - i" by (simp add: diff_mult_distrib)
    finally have "i * q \<le> ?k * i - i" by (simp add: mult.commute)
    moreover have "i \<le> ?k * i" using \<open>q < ?k\<close> by (cases ?k) auto
    ultimately have "n - f < a - f" using g(2) q by linarith
    with that(1) show False by linarith
  qed
  show ?thesis
  proof (cases "?s \<le> b")
    case True
    have "[a..<b] = [a..<?s] @ [?s..<b]"
      by (rule upt_split) (use g assms True in linarith)+
    moreover have "filter (\<lambda>n. f \<le> n \<and> (n - f) mod i = 0) [a..<?s] = []"
      using none by (auto simp: filter_empty_conv)
    moreover have "filter (\<lambda>n. f \<le> n \<and> (n - f) mod i = 0) [?s..<b] =
        filter (\<lambda>n. (n - ?s) mod i = 0) [?s..<b]"
      using eq by (intro filter_cong refl) auto
    ultimately show ?thesis by simp
  next
    case False
    then have "filter (\<lambda>n. f \<le> n \<and> (n - f) mod i = 0) [a..<b] = []"
      using none by (auto simp: filter_empty_conv)
    with False show ?thesis by simp
  qed
qed

lemma filter_grid_below:
  fixes f i a b :: nat
  assumes "0 < i" "a \<le> f"
  shows "filter (\<lambda>n. f \<le> n \<and> (n - f) mod i = 0) [a..<b] = filter (\<lambda>n. (n - f) mod i = 0) [f..<b]"
proof (cases "f \<le> b")
  case True
  have "[a..<b] = [a..<f] @ [f..<b]" by (rule upt_split) (use assms True in auto)
  moreover have "filter (\<lambda>n. f \<le> n \<and> (n - f) mod i = 0) [f..<b] = filter (\<lambda>n. (n - f) mod i = 0) [f..<b]"
    by (intro filter_cong refl) auto
  ultimately show ?thesis by (simp add: filter_empty_conv)
next
  case False
  then show ?thesis by (simp add: filter_empty_conv)
qed

lemma every_n_slots_range_eq:
  assumes "unat to < 2 ^ 64 - 1" "unat from + unat interval < 2 ^ 64"
  shows "every_n_slots_range first_slot interval from to =
    Some (map of_nat (filter (on_grid first_slot interval) [unat from..<Suc (unat to)]))"
proof (cases "interval = 0 \<or> from > to")
  case True
  then show ?thesis
    by (auto simp: every_n_slots_range_def on_grid_def word_less_nat_alt)
next
  case False
  then have i: "interval \<noteq> 0" "0 < unat interval" by (simp_all add: unat_gt_0)
  show ?thesis
  proof (cases "first_slot \<ge> from")
    case True
    then have "unat from \<le> unat first_slot" by (simp add: word_le_nat_alt)
    from filter_grid_below [OF i(2) this, of "Suc (unat to)"] False True show ?thesis
      by (simp add: every_n_slots_range_def push_slots_eq [OF i(1) assms(1)] on_grid_def [abs_def])
  next
    case below: False
    then have lt: "first_slot < from" by simp
    then have "unat first_slot \<le> unat from" by (simp add: word_less_nat_alt)
    from filter_grid_from [OF i(2) this, of "Suc (unat to)"] False below show ?thesis
      by (simp add: every_n_slots_range_def Let_def push_slots_eq [OF i(1) assms(1)]
          unat_grid_start [OF i(1) lt assms(2)] on_grid_def [abs_def] del: upt_Suc)
  qed
qed

lemma grid_index:
  assumes "on_grid f i n" "n < 2 ^ 64"
  shows "unat ((of_nat n - f) div i) = (n - unat f) div unat i"
proof -
  have u: "unat (of_nat n :: u64) = n" using assms(2) by (rule unat_of_nat_u64)
  with assms(1) have "f \<le> of_nat n" by (simp add: on_grid_def word_le_nat_alt)
  then show ?thesis by (simp add: unat_div unat_sub_le u)
qed

lemma sorted_slots: "sorted_wrt (<) (map of_nat (filter P [a..<Suc (unat (hi :: u64))]) :: u64 list)"
proof -
  have "sorted_wrt (<) (filter P [a..<Suc (unat hi)])"
    by (rule sorted_wrt_filter) (rule sorted_wrt_upt)
  moreover have "(of_nat x :: u64) < of_nat y"
    if "x < y" "y \<in> set (filter P [a..<Suc (unat hi)])" for x y
  proof -
    have "y < 2 ^ 64" using that(2) unat_lt64 [of hi] by (simp del: upt_Suc unat_lt64)
    with that(1) show ?thesis by (simp add: word_less_nat_alt unat_of_nat_u64)
  qed
  ultimately show ?thesis
    unfolding sorted_wrt_map by (rule sorted_wrt_mono_rel [rotated]) simp
qed

lemma filter_sorted_slots:
  assumes "sorted_wrt (<) (ss :: u64 list)"
  shows "filter (\<lambda>s. lo \<le> s \<and> s \<le> hi) ss =
    map of_nat (filter (\<lambda>n. n \<in> unat ` set ss) [unat lo..<Suc (unat hi)])"
proof (rule strict_sorted_equal)
  show "sorted_wrt (<) (filter (\<lambda>s. lo \<le> s \<and> s \<le> hi) ss)"
    using assms by (rule sorted_wrt_filter)
  show "set (filter (\<lambda>s. lo \<le> s \<and> s \<le> hi) ss) =
      set (map of_nat (filter (\<lambda>n. n \<in> unat ` set ss) [unat lo..<Suc (unat hi)]))"
    by (auto simp: word_le_nat_alt image_iff less_Suc_eq_le simp del: upt_Suc intro!: exI)
qed (rule sorted_slots)

lemma fires_fun:
  "fires (EveryNSlots f i) = on_grid f i" "fires (ForkedFromSlot f i fs m) = on_grid f i"
  "fires (BrokenPrevHash f i b h) = on_grid f i" "fires (AtSlots ss) = (\<lambda>n. n \<in> unat ` set ss)"
  by (simp_all add: fun_eq_iff)

lemma slots_in_range_firing:
  assumes "range_ok rule lo hi"
  shows "slots_in_range rule lo hi = Some (firing_slots rule lo hi)"
proof -
  from assms have hi: "unat hi < 2 ^ 64 - 1" and room: "unat lo + rule_interval rule < 2 ^ 64"
    and inc: "slots_increase rule" by (simp_all add: range_ok_def)
  show ?thesis
  proof (cases "lo > hi")
    case True
    then show ?thesis by (simp add: slots_in_range_def firing_slots_def word_less_nat_alt)
  next
    case False
    note every = every_n_slots_range_eq [OF hi]
    show ?thesis
    proof (cases rule)
      case (SkipsSlots f i ks)
      have "filter (\<lambda>s. unat ((s - f) div i) \<notin> set ks)
          (map of_nat (filter (on_grid f i) [unat lo..<Suc (unat hi)])) =
          map of_nat (filter (fires rule) [unat lo..<Suc (unat hi)])"
        unfolding filter_map filter_filter SkipsSlots
        by (rule arg_cong [where f = "map of_nat"], rule filter_cong)
          (use unat_lt64 [of hi] in \<open>auto simp: grid_index simp del: upt_Suc\<close>)
      with SkipsSlots False room show ?thesis
        by (simp add: slots_in_range_def firing_slots_def every)
    qed (use False room inc every in \<open>simp_all add: slots_in_range_def firing_slots_def
        filter_sorted_slots fires_fun del: upt_Suc\<close>)
  qed
qed

lemma firing_slots_append:
  assumes "lo \<le> mid + 1" "mid \<le> hi" "unat mid < 2 ^ 64 - 1"
  shows "firing_slots rule lo hi = firing_slots rule lo mid @ firing_slots rule (mid + 1) hi"
proof -
  have u: "unat (mid + 1) = Suc (unat mid)"
    using assms(3) by (subst unat_add_small) auto
  have "[unat lo..<Suc (unat hi)] = [unat lo..<Suc (unat mid)] @ [Suc (unat mid)..<Suc (unat hi)]"
    by (rule upt_split) (use assms u in \<open>simp_all add: word_le_nat_alt del: upt_Suc\<close>)
  then show ?thesis by (simp add: firing_slots_def u del: upt_Suc)
qed

lemma firing_slots_sorted: "sorted_wrt (<) (firing_slots rule lo hi)"
  unfolding firing_slots_def by (rule sorted_slots)

lemma firing_slots_set:
  "set (firing_slots rule lo hi) = {s. lo \<le> s \<and> s \<le> hi \<and> fires rule (unat s)}"
proof -
  have "s \<in> of_nat ` {n. unat lo \<le> n \<and> n \<le> unat hi \<and> fires rule n}
      \<longleftrightarrow> unat lo \<le> unat s \<and> unat s \<le> unat hi \<and> fires rule (unat s)" for s :: u64
  proof
    assume "s \<in> of_nat ` {n. unat lo \<le> n \<and> n \<le> unat hi \<and> fires rule n}"
    then obtain n where "s = of_nat n" "unat lo \<le> n" "n \<le> unat hi" "fires rule n" by auto
    moreover from this have "unat s = n"
      using unat_lt64 [of hi] by (simp add: unat_of_nat_u64 del: unat_lt64)
    ultimately show "unat lo \<le> unat s \<and> unat s \<le> unat hi \<and> fires rule (unat s)" by simp
  next
    assume "unat lo \<le> unat s \<and> unat s \<le> unat hi \<and> fires rule (unat s)"
    then show "s \<in> of_nat ` {n. unat lo \<le> n \<and> n \<le> unat hi \<and> fires rule n}"
      by (intro image_eqI [of _ _ "unat s"]) simp_all
  qed
  then have "of_nat ` {n. unat lo \<le> n \<and> n \<le> unat hi \<and> fires rule n} =
      {s :: u64. lo \<le> s \<and> s \<le> hi \<and> fires rule (unat s)}"
    unfolding word_le_nat_alt by blast
  moreover have "set (filter (fires rule) [unat lo..<Suc (unat hi)]) =
      {n. unat lo \<le> n \<and> n \<le> unat hi \<and> fires rule n}"
    by (auto simp: less_Suc_eq_le simp del: upt_Suc)
  ultimately show ?thesis by (simp add: firing_slots_def del: upt_Suc set_filter)
qed

section \<open>Properties\<close>

text \<open>C13: \<open>slots_in_range\<close> lists, in increasing order and each once, exactly the slots of the closed
  range at which the rule fires: the multiples of the interval from the first slot on (without the
  skipped positions), or the listed slots. It returns whenever the range ends below the greatest
  slot and its arithmetic fits 64 bits.\<close>

theorem slots_in_range_meets_spec:
  assumes "range_ok rule lo hi"
  shows "\<exists>ss. slots_in_range rule lo hi = Some ss \<and> sorted_wrt (<) ss \<and>
    set ss = {s. lo \<le> s \<and> s \<le> hi \<and> fires rule (unat s)}"
  using slots_in_range_firing [OF assms] firing_slots_sorted [of rule lo hi]
    firing_slots_set [of rule lo hi] by blast

theorem slots_in_range_meets_spec_witness:
  "\<exists>ss. slots_in_range (SkipsSlots 3 5 [1]) 4 20 = Some ss \<and> sorted_wrt (<) ss \<and>
    set ss = {s. 4 \<le> s \<and> s \<le> 20 \<and> fires (SkipsSlots 3 5 [1]) (unat s)}"
  by (rule slots_in_range_meets_spec) (simp add: range_ok_def)

text \<open>A range that ends at the greatest 64-bit slot is never answered: the loop's saturating
  step stays at that slot for ever.\<close>

theorem every_n_slots_never_returns_at_max:
  assumes "interval \<noteq> 0"
  shows "slots_in_range (EveryNSlots first_slot interval) lo (- 1) = None"
proof -
  have "\<not> (- 1 :: u64) < lo" using word_order.extremum [of lo] by (simp add: not_less)
  with assms show ?thesis
    by (simp add: slots_in_range_def every_n_slots_range_def Let_def push_slots_diverges)
qed

theorem every_n_slots_never_returns_at_max_witness:
  "slots_in_range (EveryNSlots 0 1) 5 (- 1) = None"
  by (rule every_n_slots_never_returns_at_max) simp

end
