(* ===== verification/PeerState.thy ===== *)
theory PeerState
  imports BlockFixture Production
begin

text \<open>
  The runtime state of the peers of the imaginary network (\<open>scenario/peer_state.rs\<close>): their
  chains and block stores, and the production of blocks as the slot counter moves. Blake2b is
  code of another package and is the argument \<open>blake2b\<close>. A \<open>HashMap\<close> of peers is the list of
  its entries in the order this run iterates them.
\<close>

section \<open>Chains\<close>

record chain_entry =
  ce_slot :: u64
  ce_block_hash :: bytes
  ce_block_number :: u64
  ce_header_cbor :: bytes
  ce_variant :: u8

definition from_fixture_entry :: "fixture_entry \<Rightarrow> chain_entry res" where
  "from_fixture_entry e =
     try_res (decode_hex_skip (fe_block_hash e)) (\<lambda>hash.
     try_res (decode_hex_skip (fe_cbor_hex e)) (\<lambda>cbor.
       Ok \<lparr>ce_slot = fe_slot e, ce_block_hash = hash, ce_block_number = fe_block_number e,
           ce_header_cbor = cbor, ce_variant = fe_variant e\<rparr>))"

record peer_state =
  ps_chain_entries :: "chain_entry list"
  ps_block_store :: block_store
  ps_production_rule :: "production_rule option"

definition peer_state_new :: peer_state where
  "peer_state_new = \<lparr>ps_chain_entries = [], ps_block_store = [], ps_production_rule = None\<rparr>"

definition chain_tip_slot :: "peer_state \<Rightarrow> u64 option" where
  "chain_tip_slot ps = (if ps_chain_entries ps = [] then None else Some (ce_slot (last (ps_chain_entries ps))))"

definition to_fixture_entry :: "chain_entry \<Rightarrow> fixture_entry" where
  "to_fixture_entry e = \<lparr>fe_slot = ce_slot e, fe_block_hash = encode_hex (ce_block_hash e),
     fe_block_number = ce_block_number e, fe_cbor_hex = encode_hex (ce_header_cbor e),
     fe_variant = ce_variant e\<rparr>"

definition filtered_fixture_chain :: "peer_state \<Rightarrow> u64 option \<Rightarrow> fixture_chain" where
  "filtered_fixture_chain ps current_slot =
     \<lparr>fc_anchor = Origin,
      fc_entries = map to_fixture_entry
        (filter (\<lambda>e. case current_slot of None \<Rightarrow> True | Some s \<Rightarrow> ce_slot e \<le> s) (ps_chain_entries ps))\<rparr>"

definition to_block_fixture_chain :: "peer_state \<Rightarrow> block_fixture_chain" where
  "to_block_fixture_chain ps = from_block_store (ps_block_store ps)"

definition from_fixture_chain :: "fixture_chain \<Rightarrow> peer_state res" where
  "from_fixture_chain c =
     try_res (mapM_res from_fixture_entry (fc_entries c)) (\<lambda>es.
       Ok \<lparr>ps_chain_entries = es, ps_block_store = [], ps_production_rule = None\<rparr>)"

fun store_blocks :: "block_fixture_entry list \<Rightarrow> block_store \<Rightarrow> block_store res" where
  "store_blocks [] store = Ok store"
| "store_blocks (e # es) store =
     try_res (decode_hex_skip (be_block_hash e)) (\<lambda>hash.
     try_res (body_bytes e) (\<lambda>body.
       store_blocks es (bt_insert (be_slot e, hash) body store)))"

definition extend_from_block_fixture_chain :: "block_fixture_chain \<Rightarrow> peer_state \<Rightarrow> peer_state res" where
  "extend_from_block_fixture_chain c ps =
     try_res (store_blocks (bc_entries c) (ps_block_store ps)) (\<lambda>store. Ok (ps\<lparr>ps_block_store := store\<rparr>))"

section \<open>Synthetic content\<close>

definition str_bytes :: "string \<Rightarrow> bytes" where
  "str_bytes s = map (\<lambda>c. of_nat (of_char c)) s"

definition to_be_bytes :: "u64 \<Rightarrow> bytes" where
  "to_be_bytes w = map (\<lambda>k. ucast (drop_bit (8 * k) w)) [7, 6, 5, 4, 3, 2, 1, 0]"

definition hash_input :: "string \<Rightarrow> u64 \<Rightarrow> bytes \<Rightarrow> bytes" where
  "hash_input peer_id slot prev_hash = str_bytes peer_id @ to_be_bytes slot @ prev_hash"

definition synthetic_hash :: "(bytes \<Rightarrow> bytes) \<Rightarrow> string \<Rightarrow> u64 \<Rightarrow> bytes \<Rightarrow> bytes" where
  "synthetic_hash blake2b peer_id slot prev_hash = blake2b (hash_input peer_id slot prev_hash)"

definition cbor_uint :: "u64 \<Rightarrow> bytes" where
  "cbor_uint v =
     (let b = (\<lambda>k. ucast (and (drop_bit k v) 0xFF)) in
      if v \<le> 23 then [ucast v]
      else if v \<le> 0xFF then [0x18, ucast v]
      else if v \<le> 0xFFFF then [0x19, ucast (drop_bit 8 v), b 0]
      else if v \<le> 0xFFFFFFFF then [0x1a, ucast (drop_bit 24 v), b 16, b 8, b 0]
      else [0x1b, ucast (drop_bit 56 v), b 48, b 40, b 32, b 24, b 16, b 8, b 0])"

definition synthetic_header_cbor :: "u64 \<Rightarrow> u64 \<Rightarrow> bytes" where
  "synthetic_header_cbor block_number slot =
     [0x82, 0x82] @ cbor_uint block_number @ cbor_uint slot @ [0xf6]"

section \<open>Automatic production\<close>

record production_event =
  pe_peer_id :: string
  pe_slot :: u64
  pe_rule_kind :: string
  pe_skipped :: bool
  pe_block_number :: u64
  pe_block_hash_hex :: string
  pe_defect_kind :: "string option"

datatype rule_context =
    Honest
  | Forked u64 string string \<comment> \<open>fork_slot, fork_marker, canonical_root\<close>
  | Broken u64 bytes \<comment> \<open>break_at_slot, wrong_hash_bytes\<close>
  | Sparse

definition canonical_root :: "u64 \<Rightarrow> u64 \<Rightarrow> u64 \<Rightarrow> string" where
  "canonical_root first_slot interval fork_slot =
     u64_to_string first_slot @ '':'' @ u64_to_string interval @ '':'' @ u64_to_string fork_slot"

fun rule_context_of :: "production_rule \<Rightarrow> rule_context res" where
  "rule_context_of (ForkedFromSlot first_slot interval fork_slot fork_marker) =
     Ok (Forked fork_slot fork_marker (canonical_root first_slot interval fork_slot))"
| "rule_context_of (BrokenPrevHash _ _ break_at_slot wrong_hash) =
     (case decode_hex_at wrong_hash of
        Ok bs \<Rightarrow> Ok (Broken break_at_slot bs)
      | Err _ \<Rightarrow> Ok (Broken break_at_slot (replicate 32 0))
      | Panic \<Rightarrow> Panic)"
| "rule_context_of (SkipsSlots _ _ _) = Ok Sparse"
| "rule_context_of _ = Ok Honest"

text \<open>The label and the previous hash that enter the hash of a new block, and its defect.\<close>

fun hash_arguments :: "rule_context \<Rightarrow> string \<Rightarrow> u64 \<Rightarrow> bytes \<Rightarrow> string \<times> bytes \<times> string option" where
  "hash_arguments (Forked fork_slot fork_marker root) peer_id slot actual_prev =
     (if slot < fork_slot then (root, actual_prev, None)
      else (CHR 0x00 # fork_marker, actual_prev, Some ''fork_divergence''))"
| "hash_arguments (Broken break_at_slot wrong_hash_bytes) peer_id slot actual_prev =
     (if slot \<ge> break_at_slot then (peer_id, wrong_hash_bytes, Some ''broken_prev_hash'')
      else (peer_id, actual_prev, None))"
| "hash_arguments Sparse peer_id slot actual_prev = (peer_id, actual_prev, Some ''sparse_chain'')"
| "hash_arguments Honest peer_id slot actual_prev = (peer_id, actual_prev, None)"

text \<open>The body of the inner loop: one slot of one peer.\<close>

definition covered :: "peer_state \<Rightarrow> u64 \<Rightarrow> bool" where
  "covered ps slot = (case chain_tip_slot ps of None \<Rightarrow> False | Some tip \<Rightarrow> tip \<ge> slot)"

definition new_block :: "(bytes \<Rightarrow> bytes) \<Rightarrow> string \<Rightarrow> rule_context \<Rightarrow> u64 \<Rightarrow> peer_state \<Rightarrow> chain_entry \<times> string option" where
  "new_block blake2b peer_id ctx slot ps =
     (let es = ps_chain_entries ps;
          actual_prev = (if es = [] then replicate 32 0 else ce_block_hash (last es));
          bn = (if es = [] then 0 else ce_block_number (last es) + 1);
          (hash_peer_id, hash_prev, defect) = hash_arguments ctx peer_id slot actual_prev
      in (\<lparr>ce_slot = slot, ce_block_hash = synthetic_hash blake2b hash_peer_id slot hash_prev,
           ce_block_number = bn, ce_header_cbor = synthetic_header_cbor bn slot,
           ce_variant = default_header_variant\<rparr>, defect))"

definition produce_slot ::
    "(bytes \<Rightarrow> bytes) \<Rightarrow> string \<Rightarrow> string \<Rightarrow> rule_context \<Rightarrow> u64 \<Rightarrow> peer_state \<Rightarrow> production_event \<times> peer_state" where
  "produce_slot blake2b peer_id rule_kind ctx slot ps =
     (if covered ps slot then
        (\<lparr>pe_peer_id = peer_id, pe_slot = slot, pe_rule_kind = rule_kind, pe_skipped = True,
          pe_block_number = 0, pe_block_hash_hex = [], pe_defect_kind = None\<rparr>, ps)
      else
        (let (e, defect) = new_block blake2b peer_id ctx slot ps
         in (\<lparr>pe_peer_id = peer_id, pe_slot = slot, pe_rule_kind = rule_kind, pe_skipped = False,
               pe_block_number = ce_block_number e, pe_block_hash_hex = encode_hex (ce_block_hash e),
               pe_defect_kind = defect\<rparr>,
             ps\<lparr>ps_chain_entries := ps_chain_entries ps @ [e],
                ps_block_store := bt_insert (slot, ce_block_hash e) [0xa0] (ps_block_store ps)\<rparr>)))"

fun produce_slots ::
    "(bytes \<Rightarrow> bytes) \<Rightarrow> string \<Rightarrow> string \<Rightarrow> rule_context \<Rightarrow> u64 list \<Rightarrow> peer_state \<Rightarrow> production_event list \<times> peer_state" where
  "produce_slots blake2b peer_id rule_kind ctx [] ps = ([], ps)"
| "produce_slots blake2b peer_id rule_kind ctx (slot # slots) ps =
     (let (ev, ps1) = produce_slot blake2b peer_id rule_kind ctx slot ps;
          (evs, ps2) = produce_slots blake2b peer_id rule_kind ctx slots ps1
      in (ev # evs, ps2))"

text \<open>
  Phase 1 collects the peers that fire; phase 2 runs them. The outer option is the divergence of
  the slot query.
\<close>

type_synonym peers = "(string \<times> peer_state) list"
type_synonym task = "string \<times> string \<times> u64 list \<times> rule_context"

definition try_div :: "'a res option \<Rightarrow> ('a \<Rightarrow> 'b res option) \<Rightarrow> 'b res option" where
  "try_div m k = (case m of None \<Rightarrow> None | Some (Ok x) \<Rightarrow> k x | Some (Err e) \<Rightarrow> Some (Err e)
     | Some Panic \<Rightarrow> Some Panic)"

definition production_task :: "u64 \<Rightarrow> u64 \<Rightarrow> string \<times> peer_state \<Rightarrow> task option res option" where
  "production_task old_slot new_slot p =
     (case ps_production_rule (snd p) of
        None \<Rightarrow> Some (Ok None)
      | Some rule \<Rightarrow>
          if rule = PRNone then Some (Ok None)
          else (case slots_in_range rule (old_slot + 1) new_slot of
            None \<Rightarrow> None
          | Some slots \<Rightarrow>
              if slots = [] then Some (Ok None)
              else Some (try_res (rule_context_of rule) (\<lambda>ctx.
                     Ok (Some (fst p, production_kind_str rule, slots, ctx))))))"

fun collect_tasks :: "u64 \<Rightarrow> u64 \<Rightarrow> peers \<Rightarrow> task list res option" where
  "collect_tasks old_slot new_slot [] = Some (Ok [])"
| "collect_tasks old_slot new_slot (p # ps) =
     try_div (production_task old_slot new_slot p) (\<lambda>t.
     try_div (collect_tasks old_slot new_slot ps) (\<lambda>ts.
       Some (Ok (case t of None \<Rightarrow> ts | Some x \<Rightarrow> x # ts))))"

fun run_tasks :: "(bytes \<Rightarrow> bytes) \<Rightarrow> task list \<Rightarrow> peers \<Rightarrow> (production_event list \<times> peers) res" where
  "run_tasks blake2b [] peers = Ok ([], peers)"
| "run_tasks blake2b ((peer_id, rule_kind, slots, ctx) # ts) peers =
     (case map_of peers peer_id of
        None \<Rightarrow> Panic
      | Some ps \<Rightarrow>
          (let (evs, ps') = produce_slots blake2b peer_id rule_kind ctx slots ps
           in try_res (run_tasks blake2b ts (AList.update peer_id ps' peers)) (\<lambda>(evs', peers').
                Ok (evs @ evs', peers'))))"

definition apply_production_rules ::
    "(bytes \<Rightarrow> bytes) \<Rightarrow> peers \<Rightarrow> u64 \<Rightarrow> u64 \<Rightarrow> (production_event list \<times> peers) res option" where
  "apply_production_rules blake2b peers old_slot new_slot =
     try_div (collect_tasks old_slot new_slot peers) (\<lambda>ts. Some (run_tasks blake2b ts peers))"

section \<open>One peer\<close>

lemma produce_slots_append:
  "produce_slots h pid kind ctx (xs @ ys) ps =
     (let (e1, p1) = produce_slots h pid kind ctx xs ps;
          (e2, p2) = produce_slots h pid kind ctx ys p1 in (e1 @ e2, p2))"
  by (induction xs arbitrary: ps) (simp_all add: split_beta Let_def)

lemma produce_slot_rule [simp]:
  "ps_production_rule (snd (produce_slot h pid kind ctx s ps)) = ps_production_rule ps"
  by (simp add: produce_slot_def split_beta)

lemma produce_slots_rule [simp]:
  "ps_production_rule (snd (produce_slots h pid kind ctx ss ps)) = ps_production_rule ps"
  by (induction ss arbitrary: ps) (simp_all add: split_beta)

text \<open>How a new block relates to the tip it is put on.\<close>

definition links :: "(bytes \<Rightarrow> bytes) \<Rightarrow> string \<Rightarrow> rule_context \<Rightarrow> chain_entry \<Rightarrow> chain_entry \<Rightarrow> bool" where
  "links h pid ctx a b \<longleftrightarrow>
     ce_slot a < ce_slot b \<and> ce_block_number b = ce_block_number a + 1 \<and>
     (case hash_arguments ctx pid (ce_slot b) (ce_block_hash a) of
        (label, prev, _) \<Rightarrow> ce_block_hash b = synthetic_hash h label (ce_slot b) prev)"

definition chain_sorted :: "peer_state \<Rightarrow> bool" where
  "chain_sorted ps \<longleftrightarrow> sorted_wrt (\<lambda>a b. ce_slot a < ce_slot b) (ps_chain_entries ps)"

definition peer_ok :: "peer_state \<Rightarrow> bool" where
  "peer_ok ps \<longleftrightarrow> chain_sorted ps \<and> bt_ok (ps_block_store ps)"

text \<open>What an extension keeps: the old chain is a prefix and the invariant holds.\<close>

definition extends_peer :: "peer_state \<Rightarrow> peer_state \<Rightarrow> bool" where
  "extends_peer p q \<longleftrightarrow>
     (\<exists>new. ps_chain_entries q = ps_chain_entries p @ new \<and>
        (\<forall>e \<in> set new. ((ce_slot e, ce_block_hash e)) \<in> fst ` set (ps_block_store q))) \<and>
     fst ` set (ps_block_store p) \<subseteq> fst ` set (ps_block_store q) \<and>
     ps_production_rule q = ps_production_rule p \<and> (peer_ok p \<longrightarrow> peer_ok q)"

lemma extends_peer_refl: "extends_peer p p"
  by (simp add: extends_peer_def)

lemma extends_peer_trans: "extends_peer p q \<Longrightarrow> extends_peer q r \<Longrightarrow> extends_peer p r"
  unfolding extends_peer_def by (auto 4 3)

lemma chain_sorted_snoc:
  assumes "chain_sorted ps" "\<not> covered ps s" "ce_slot e = s"
  shows "sorted_wrt (\<lambda>a b. ce_slot a < ce_slot b) (ps_chain_entries ps @ [e])"
proof (cases "ps_chain_entries ps = []")
  case True
  then show ?thesis by simp
next
  case False
  then obtain es l where es: "ps_chain_entries ps = es @ [l]" by (metis append_butlast_last_id)
  with assms(2,3) have "ce_slot l < ce_slot e" by (simp add: covered_def chain_tip_slot_def)
  with assms(1) es show ?thesis
    by (auto simp: chain_sorted_def sorted_wrt_append intro: order.strict_trans)
qed

lemma new_block_slot: "ce_slot (fst (new_block h pid ctx s ps)) = s"
  by (simp add: new_block_def Let_def split_beta)

lemma produce_slot_extends: "extends_peer ps (snd (produce_slot h pid kind ctx s ps))"
proof (cases "covered ps s")
  case True
  then show ?thesis by (simp add: produce_slot_def extends_peer_refl)
next
  case False
  then show ?thesis
    using chain_sorted_snoc [of ps s "fst (new_block h pid ctx s ps)"]
    by (auto simp: produce_slot_def extends_peer_def split_beta new_block_slot bt_insert_keys
        peer_ok_def chain_sorted_def bt_ok_insert)
qed

lemma produce_slots_extends: "extends_peer ps (snd (produce_slots h pid kind ctx ss ps))"
proof (induction ss arbitrary: ps)
  case Nil
  then show ?case by (simp add: extends_peer_refl)
next
  case (Cons s ss)
  show ?case
    using extends_peer_trans [OF produce_slot_extends [of ps h pid kind ctx s] Cons.IH]
    by (simp add: split_beta)
qed

text \<open>Which blocks a run adds: the announced ones, each linked to the one before.\<close>

fun linked_from :: "(bytes \<Rightarrow> bytes) \<Rightarrow> string \<Rightarrow> rule_context \<Rightarrow> chain_entry list \<Rightarrow> chain_entry list \<Rightarrow> bool" where
  "linked_from h pid ctx es [] = True"
| "linked_from h pid ctx es (e # new) =
     ((es = [] \<or> links h pid ctx (last es) e) \<and> linked_from h pid ctx (es @ [e]) new)"

definition announce :: "chain_entry \<Rightarrow> u64 \<times> u64 \<times> string" where
  "announce e = (ce_slot e, ce_block_number e, encode_hex (ce_block_hash e))"

definition announced :: "production_event \<Rightarrow> u64 \<times> u64 \<times> string" where
  "announced ev = (pe_slot ev, pe_block_number ev, pe_block_hash_hex ev)"

lemma new_block_links:
  "\<not> covered ps s \<Longrightarrow> ps_chain_entries ps \<noteq> [] \<Longrightarrow>
     links h pid ctx (last (ps_chain_entries ps)) (fst (new_block h pid ctx s ps))"
  by (simp add: links_def new_block_def Let_def split_beta covered_def chain_tip_slot_def)

lemma produce_slot_cases:
  "pe_skipped (fst (produce_slot h pid kind ctx s ps)) = covered ps s"
  "covered ps s \<Longrightarrow> snd (produce_slot h pid kind ctx s ps) = ps"
  "\<not> covered ps s \<Longrightarrow> announced (fst (produce_slot h pid kind ctx s ps)) = announce (fst (new_block h pid ctx s ps))"
  "\<not> covered ps s \<Longrightarrow> ps_chain_entries (snd (produce_slot h pid kind ctx s ps)) =
     ps_chain_entries ps @ [fst (new_block h pid ctx s ps)]"
  by (simp_all add: produce_slot_def split_beta announce_def announced_def new_block_slot)

lemma produce_slots_new:
  "\<exists>new. ps_chain_entries (snd (produce_slots h pid kind ctx ss ps)) = ps_chain_entries ps @ new \<and>
     linked_from h pid ctx (ps_chain_entries ps) new \<and>
     map announce new = map announced (filter (\<lambda>ev. \<not> pe_skipped ev) (fst (produce_slots h pid kind ctx ss ps)))"
proof (induction ss arbitrary: ps)
  case Nil
  then show ?case by simp
next
  case (Cons s ss)
  let ?q = "snd (produce_slot h pid kind ctx s ps)"
  from Cons.IH [of ?q] obtain new where new:
    "ps_chain_entries (snd (produce_slots h pid kind ctx ss ?q)) = ps_chain_entries ?q @ new"
    "linked_from h pid ctx (ps_chain_entries ?q) new"
    "map announce new = map announced (filter (\<lambda>ev. \<not> pe_skipped ev) (fst (produce_slots h pid kind ctx ss ?q)))"
    by blast
  show ?case
  proof (cases "covered ps s")
    case True
    with new show ?thesis
      by (intro exI [of _ new]) (simp add: split_beta produce_slot_cases)
  next
    case False
    let ?e = "fst (new_block h pid ctx s ps)"
    from new new_block_links [OF False, of h pid ctx] show ?thesis
      by (intro exI [of _ "?e # new"]) (auto simp: split_beta produce_slot_cases False)
  qed
qed

lemma produce_slots_events:
  "map pe_slot (fst (produce_slots h pid kind ctx ss ps)) = ss"
  "ev \<in> set (fst (produce_slots h pid kind ctx ss ps)) \<Longrightarrow> pe_peer_id ev = pid \<and> pe_rule_kind ev = kind"
  by (induction ss arbitrary: ps) (auto simp: split_beta produce_slot_def split: if_splits)

section \<open>All peers\<close>

text \<open>
  The specification of a clock advance: every peer on its own runs the slots at which its rule
  fires. It holds where the slot arithmetic fits and no wrong hash is off a character boundary.
\<close>

definition context_of :: "production_rule \<Rightarrow> rule_context" where
  "context_of rule = (case rule_context_of rule of Ok c \<Rightarrow> c | _ \<Rightarrow> Honest)"

definition advance_peer ::
    "(bytes \<Rightarrow> bytes) \<Rightarrow> u64 \<Rightarrow> u64 \<Rightarrow> string \<times> peer_state \<Rightarrow> production_event list \<times> peer_state" where
  "advance_peer h old new p =
     (case ps_production_rule (snd p) of
        None \<Rightarrow> ([], snd p)
      | Some rule \<Rightarrow> produce_slots h (fst p) (production_kind_str rule) (context_of rule)
          (firing_slots rule (old + 1) new) (snd p))"

definition peer_ready :: "u64 \<Rightarrow> u64 \<Rightarrow> peer_state \<Rightarrow> bool" where
  "peer_ready old new ps =
     (case ps_production_rule ps of
        None \<Rightarrow> True
      | Some rule \<Rightarrow> range_ok rule (old + 1) new \<and> rule_context_of rule \<noteq> Panic)"

definition tasks_of :: "u64 \<Rightarrow> u64 \<Rightarrow> string \<times> peer_state \<Rightarrow> task list" where
  "tasks_of old new p =
     (case ps_production_rule (snd p) of
        None \<Rightarrow> []
      | Some rule \<Rightarrow>
          if rule = PRNone \<or> firing_slots rule (old + 1) new = [] then []
          else [(fst p, production_kind_str rule, firing_slots rule (old + 1) new, context_of rule)])"

lemma firing_slots_none [simp]: "firing_slots PRNone lo hi = []"
  using firing_slots_set [of PRNone lo hi] by simp

lemma rule_context_not_Err [simp]: "rule_context_of rule \<noteq> Err e"
  by (cases rule) (auto split: res.split)

lemma production_task_eq:
  assumes "peer_ready old new (snd p)"
  shows "production_task old new p = Some (Ok (case tasks_of old new p of [] \<Rightarrow> None | t # _ \<Rightarrow> Some t))"
proof (cases "ps_production_rule (snd p)")
  case None
  then show ?thesis by (simp add: production_task_def tasks_of_def)
next
  case (Some rule)
  with assms have "slots_in_range rule (old + 1) new = Some (firing_slots rule (old + 1) new)"
    by (simp add: peer_ready_def slots_in_range_firing)
  moreover from assms Some obtain c where "rule_context_of rule = Ok c"
    by (cases "rule_context_of rule") (auto simp: peer_ready_def)
  ultimately show ?thesis
    using Some by (simp add: production_task_def tasks_of_def context_of_def)
qed

lemma collect_tasks_eq:
  "(\<forall>p \<in> set ps. peer_ready old new (snd p)) \<Longrightarrow>
     collect_tasks old new ps = Some (Ok (concat (map (tasks_of old new) ps)))"
proof (induction ps)
  case Nil
  then show ?case by simp
next
  case (Cons p ps)
  then show ?case
    by (cases "tasks_of old new p")
      (auto simp: production_task_eq try_div_def tasks_of_def split: option.splits if_splits)
qed

lemma update_suffix:
  "k \<notin> fst ` set pre \<Longrightarrow> AList.update k v (pre @ (k, w) # rest) = pre @ (k, v) # rest"
  by (induction pre) auto

lemma map_of_suffix: "k \<notin> fst ` set pre \<Longrightarrow> map_of (pre @ (k, w) # rest) k = Some w"
  by (induction pre) auto

lemma run_tasks_eq:
  "distinct (map fst (pre @ ps)) \<Longrightarrow>
     run_tasks h (concat (map (tasks_of old new) ps)) (pre @ ps) =
       Ok (concat (map (\<lambda>p. fst (advance_peer h old new p)) ps),
           pre @ map (\<lambda>p. (fst p, snd (advance_peer h old new p))) ps)"
proof (induction ps arbitrary: pre)
  case Nil
  then show ?case by simp
next
  case (Cons p ps)
  obtain pid st where p: "p = (pid, st)" by (cases p)
  let ?st = "snd (advance_peer h old new p)"
  from Cons.prems p have fresh: "pid \<notin> fst ` set pre" by auto
  have IH: "run_tasks h (concat (map (tasks_of old new) ps)) (pre @ (pid, ?st) # ps) =
      Ok (concat (map (\<lambda>p. fst (advance_peer h old new p)) ps),
          pre @ (pid, ?st) # map (\<lambda>p. (fst p, snd (advance_peer h old new p))) ps)"
    using Cons.IH [of "pre @ [(pid, ?st)]"] Cons.prems p by simp
  show ?case
  proof (cases "tasks_of old new p")
    case Nil
    then have "advance_peer h old new p = ([], st)"
      by (auto simp: tasks_of_def advance_peer_def p split: option.splits if_splits)
    with Nil IH p show ?thesis by simp
  next
    case (Cons t ts)
    then obtain rule where rule: "ps_production_rule st = Some rule"
      "tasks_of old new p = [(pid, production_kind_str rule, firing_slots rule (old + 1) new, context_of rule)]"
      by (auto simp: tasks_of_def p split: option.splits if_splits)
    then have adv: "produce_slots h pid (production_kind_str rule) (context_of rule)
        (firing_slots rule (old + 1) new) st = advance_peer h old new p"
      by (simp add: advance_peer_def p)
    with IH p rule(2) show ?thesis
      by (simp add: map_of_suffix [OF fresh, simplified] update_suffix [OF fresh] split_beta)
  qed
qed

lemma apply_production_rules_eq:
  assumes "distinct (map fst peers)" "\<forall>p \<in> set peers. peer_ready old new (snd p)"
  shows "apply_production_rules h peers old new =
    Some (Ok (concat (map (\<lambda>p. fst (advance_peer h old new p)) peers),
              map (\<lambda>p. (fst p, snd (advance_peer h old new p))) peers))"
  using run_tasks_eq [of "[]" peers h old new] assms
  by (simp add: apply_production_rules_def collect_tasks_eq try_div_def)

lemma advance_peer_extends: "extends_peer (snd p) (snd (advance_peer h old new p))"
  by (simp add: advance_peer_def extends_peer_refl produce_slots_extends split: option.split)

lemma advance_peer_rule [simp]:
  "ps_production_rule (snd (advance_peer h old new p)) = ps_production_rule (snd p)"
  by (simp add: advance_peer_def split: option.split)

lemma advance_peer_split:
  assumes "old + 1 \<le> mid + 1" "mid \<le> new" "unat mid < 2 ^ 64 - 1"
  shows "snd (advance_peer h mid new (fst p, snd (advance_peer h old mid p))) = snd (advance_peer h old new p)"
  using firing_slots_append [OF assms]
  by (simp add: advance_peer_def produce_slots_append split_beta split: option.split)

text \<open>A run of any tasks keeps the peers and extends each of them, also off the specification.\<close>

lemma run_tasks_extends:
  "run_tasks h ts peers = Ok (evs, peers') \<Longrightarrow>
     map fst peers' = map fst peers \<and>
     (\<forall>k p. map_of peers k = Some p \<longrightarrow> (\<exists>q. map_of peers' k = Some q \<and> extends_peer p q))"
proof (induction ts arbitrary: peers evs peers')
  case Nil
  then show ?case by (auto simp: extends_peer_refl)
next
  case (Cons t ts)
  obtain pid kind slots ctx where t: "t = (pid, kind, slots, ctx)" by (cases t)
  from Cons.prems t obtain st where st: "map_of peers pid = Some st" by (auto split: option.splits)
  let ?st = "snd (produce_slots h pid kind ctx slots st)"
  from Cons.prems t st obtain evs' where
    run: "run_tasks h ts (AList.update pid ?st peers) = Ok (evs', peers')"
    by (auto simp: split_beta)
  have keys: "map fst (AList.update pid ?st peers) = map fst peers"
    using map_of_SomeD [OF st] by (force simp: update_keys)
  have step: "\<exists>q. map_of (AList.update pid ?st peers) k = Some q \<and> extends_peer p q"
    if "map_of peers k = Some p" for k p
    using that st produce_slots_extends [of st h pid kind ctx slots] extends_peer_refl
    by (auto simp: update_conv)
  from Cons.IH [OF run] keys step extends_peer_trans show ?case by metis
qed

end
