(* ===== verification/ResponseRules.thy ===== *)
theory ResponseRules
  imports BlockFixture
begin

text \<open>
  Response rules (\<open>scenario/response_rules.rs\<close>): the rules as a scenario writes them, the rules a
  server runs, the conversion between them, and the scripts generated from a fixture.
\<close>

section \<open>Rules as written\<close>

datatype on = OnRequestNext | OnFindIntersect | OnRequestRange | OnDone | OnAny

record tip_spec =
  ts_point :: string
  ts_block_number :: u64

datatype send_def =
    SDRollForward "usize option" "string option" "u8 option" "tip_spec option"
      \<comment> \<open>header_from_fixture, header_cbor, variant, tip\<close>
  | SDRollBackward string "tip_spec option"
  | SDIntersectFound string "tip_spec option"
  | SDIntersectNotFound "tip_spec option"
  | SDAwaitReply u64
  | SDStartBatch
  | SDBlock "usize option" "string option" \<comment> \<open>block_from_fixture, block_cbor\<close>
  | SDBatchDone
  | SDNoBlocks
  | SDStreamBatch "usize list option" "bool option" \<comment> \<open>block_indices, block_count_from_request\<close>
  | SDWait u64
  | SDDisconnect
  | SDRawBytes string
  | SDSendSequence "send_def list"

record response_rule_def =
  rd_on :: on
  rd_send :: send_def

section \<open>Rules as run\<close>

datatype header_source = HFixtureEntry fixture_entry | HLiteral bytes u8

datatype block_source = BFixtureEntry block_fixture_entry | BLiteral bytes

datatype stream_batch_sources = Explicit "block_source list" | FromRequest

datatype script_send =
    RollForwardSend header_source "tip_spec option"
  | RollBackwardSend string "tip_spec option"
  | IntersectFoundSend string "tip_spec option"
  | IntersectNotFoundSend "tip_spec option"
  | AwaitReplySend u64
  | StartBatchSend
  | BlockSend block_source
  | BatchDoneSend
  | NoBlocksSend
  | StreamBatchSend stream_batch_sources
  | WaitSend u64
  | DisconnectSend
  | RawBytesSend bytes
  | SendSequence "script_send list"
  | CursorFindIntersect
  | CursorAdvance
  | CursorRange

fun send_kind_str :: "script_send \<Rightarrow> string" where
  "send_kind_str (RollForwardSend _ _) = ''roll_forward''"
| "send_kind_str (RollBackwardSend _ _) = ''roll_backward''"
| "send_kind_str (IntersectFoundSend _ _) = ''intersect_found''"
| "send_kind_str (IntersectNotFoundSend _) = ''intersect_not_found''"
| "send_kind_str (AwaitReplySend _) = ''await_reply''"
| "send_kind_str StartBatchSend = ''start_batch''"
| "send_kind_str (BlockSend _) = ''block''"
| "send_kind_str BatchDoneSend = ''batch_done''"
| "send_kind_str NoBlocksSend = ''no_blocks''"
| "send_kind_str (StreamBatchSend _) = ''stream_batch''"
| "send_kind_str (WaitSend _) = ''wait''"
| "send_kind_str DisconnectSend = ''disconnect''"
| "send_kind_str (RawBytesSend _) = ''raw_bytes''"
| "send_kind_str (SendSequence _) = ''send_sequence''"
| "send_kind_str CursorFindIntersect = ''cursor_find_intersect''"
| "send_kind_str CursorAdvance = ''cursor_advance''"
| "send_kind_str CursorRange = ''cursor_range''"

record script_rule =
  sr_on :: on
  sr_send :: script_send
  sr_repeatable :: bool

definition on_str :: "script_rule \<Rightarrow> string" where
  "on_str r = (case sr_on r of
     OnRequestNext \<Rightarrow> ''request_next''
   | OnFindIntersect \<Rightarrow> ''find_intersect''
   | OnRequestRange \<Rightarrow> ''request_range''
   | OnDone \<Rightarrow> ''done''
   | OnAny \<Rightarrow> ''any'')"

section \<open>Conversion\<close>

text \<open>\<open>.map_err(|e| anyhow!("{prefix}{e}"))\<close>\<close>

fun map_err :: "string \<Rightarrow> 'a res \<Rightarrow> 'a res" where
  "map_err prefix (Ok x) = Ok x"
| "map_err prefix (Err e) = anyhow (prefix @ err_to_string e)"
| "map_err prefix Panic = Panic"

lemma map_err_Ok_iff [simp]: "map_err p r = Ok x \<longleftrightarrow> r = Ok x"
  by (cases r) auto

definition nth_opt :: "usize \<Rightarrow> 'a list \<Rightarrow> 'a option" where
  "nth_opt i xs = (if i < length xs then Some (xs ! i) else None)"

definition convert_header_source ::
    "usize option \<Rightarrow> string option \<Rightarrow> u8 option \<Rightarrow> fixture_chain option \<Rightarrow> header_source res" where
  "convert_header_source header_from_fixture header_cbor variant cs_fixture =
     (case (header_from_fixture, header_cbor) of
        (Some idx, None) \<Rightarrow>
          try_res (ok_or ''header_from_fixture requires fixture_path to be set'' cs_fixture) (\<lambda>chain.
          try_res (ok_or (''header_from_fixture index '' @ nat_to_string idx @ '' out of range (fixture has ''
                          @ nat_to_string (length (fc_entries chain)) @ '' entries)'')
                    (nth_opt idx (fc_entries chain))) (\<lambda>entry.
            Ok (HFixtureEntry entry)))
      | (None, Some hex) \<Rightarrow>
          try_res (map_err ''header_cbor: invalid hex: '' (decode_hex hex)) (\<lambda>cbor.
            Ok (HLiteral cbor (case variant of None \<Rightarrow> default_header_variant | Some v \<Rightarrow> v)))
      | (Some _, Some _) \<Rightarrow>
          anyhow ''roll_forward: header_from_fixture and header_cbor are mutually exclusive''
      | (None, None) \<Rightarrow>
          anyhow ''roll_forward: one of header_from_fixture or header_cbor is required'')"

definition convert_block_source ::
    "usize option \<Rightarrow> string option \<Rightarrow> block_fixture_chain option \<Rightarrow> block_source res" where
  "convert_block_source block_from_fixture block_cbor bf_fixture =
     (case (block_from_fixture, block_cbor) of
        (Some idx, None) \<Rightarrow>
          try_res (ok_or ''block_from_fixture requires block_fetch_fixture_path'' bf_fixture) (\<lambda>chain.
          try_res (ok_or (''block_from_fixture index '' @ nat_to_string idx @ '' out of range (fixture has ''
                          @ nat_to_string (length (bc_entries chain)) @ '' entries)'')
                    (nth_opt idx (bc_entries chain))) (\<lambda>entry.
            Ok (BFixtureEntry entry)))
      | (None, Some hex) \<Rightarrow>
          try_res (map_err ''block_cbor: invalid hex: '' (decode_hex hex)) (\<lambda>bs. Ok (BLiteral bs))
      | (Some _, Some _) \<Rightarrow>
          anyhow ''block: block_from_fixture and block_cbor are mutually exclusive''
      | (None, None) \<Rightarrow>
          anyhow ''block: one of block_from_fixture or block_cbor is required'')"

fun resolve_indices :: "block_fixture_chain \<Rightarrow> usize \<Rightarrow> usize list \<Rightarrow> block_source list res" where
  "resolve_indices chain n [] = Ok []"
| "resolve_indices chain n (idx # rest) =
     try_res (ok_or (''stream_batch block_indices['' @ nat_to_string n @ '']='' @ nat_to_string idx
                     @ '' out of range'') (nth_opt idx (bc_entries chain))) (\<lambda>e.
     try_res (resolve_indices chain (Suc n) rest) (\<lambda>es. Ok (BFixtureEntry e # es)))"

definition convert_stream_sources ::
    "usize list option \<Rightarrow> bool option \<Rightarrow> block_fixture_chain option \<Rightarrow> stream_batch_sources res" where
  "convert_stream_sources block_indices block_count_from_request bf_fixture =
     (case (block_indices, block_count_from_request) of
        (Some indices, _) \<Rightarrow>
          try_res (ok_or ''stream_batch with block_indices requires block_fetch_fixture_path'' bf_fixture) (\<lambda>chain.
          try_res (resolve_indices chain 0 indices) (\<lambda>resolved. Ok (Explicit resolved)))
      | (None, Some True) \<Rightarrow> Ok FromRequest
      | (None, _) \<Rightarrow> anyhow ''stream_batch: set block_indices or block_count_from_request: true'')"

fun convert_send_def ::
    "fixture_chain option \<Rightarrow> block_fixture_chain option \<Rightarrow> send_def \<Rightarrow> script_send res" where
  "convert_send_def cs bf (SDRollForward header_from_fixture header_cbor variant tip) =
     try_res (convert_header_source header_from_fixture header_cbor variant cs) (\<lambda>source.
       Ok (RollForwardSend source tip))"
| "convert_send_def cs bf (SDRollBackward point tip) = Ok (RollBackwardSend point tip)"
| "convert_send_def cs bf (SDIntersectFound point tip) = Ok (IntersectFoundSend point tip)"
| "convert_send_def cs bf (SDIntersectNotFound tip) = Ok (IntersectNotFoundSend tip)"
| "convert_send_def cs bf (SDAwaitReply hold_secs) = Ok (AwaitReplySend hold_secs)"
| "convert_send_def cs bf SDStartBatch = Ok StartBatchSend"
| "convert_send_def cs bf SDBatchDone = Ok BatchDoneSend"
| "convert_send_def cs bf SDNoBlocks = Ok NoBlocksSend"
| "convert_send_def cs bf (SDBlock block_from_fixture block_cbor) =
     try_res (convert_block_source block_from_fixture block_cbor bf) (\<lambda>source. Ok (BlockSend source))"
| "convert_send_def cs bf (SDStreamBatch block_indices block_count_from_request) =
     try_res (convert_stream_sources block_indices block_count_from_request bf) (\<lambda>sources.
       Ok (StreamBatchSend sources))"
| "convert_send_def cs bf (SDWait duration_secs) = Ok (WaitSend duration_secs)"
| "convert_send_def cs bf SDDisconnect = Ok DisconnectSend"
| "convert_send_def cs bf (SDRawBytes hex) =
     try_res (map_err ''raw_bytes: invalid hex: '' (decode_hex hex)) (\<lambda>bs. Ok (RawBytesSend bs))"
| "convert_send_def cs bf (SDSendSequence sends) =
     anyhow (''convert_send_def called on SendSequence '' @ [CHR 0xE2, CHR 0x80, CHR 0x94]
       @ '' use rule_def_to_script'')"

definition is_send_sequence :: "send_def \<Rightarrow> bool" where
  "is_send_sequence d = (case d of SDSendSequence _ \<Rightarrow> True | _ \<Rightarrow> False)"

text \<open>The loop over the sub-sends of a sequence, from index \<open>i\<close> on.\<close>

fun convert_sequence ::
    "fixture_chain option \<Rightarrow> block_fixture_chain option \<Rightarrow> usize \<Rightarrow> send_def list \<Rightarrow> script_send list res" where
  "convert_sequence cs bf i [] = Ok []"
| "convert_sequence cs bf i (sub # subs) =
     (if is_send_sequence sub then
        anyhow (''send_sequence: sends['' @ nat_to_string i @ ''] is itself a send_sequence ''
          @ [CHR 0xE2, CHR 0x80, CHR 0x94]
          @ '' nesting is not allowed; flatten the sub-sends into the outer sequence'')
      else try_res (convert_send_def cs bf sub) (\<lambda>s.
           try_res (convert_sequence cs bf (Suc i) subs) (\<lambda>ss. Ok (s # ss))))"

definition rule_def_to_script ::
    "response_rule_def \<Rightarrow> fixture_chain option \<Rightarrow> block_fixture_chain option \<Rightarrow> script_rule res" where
  "rule_def_to_script d cs bf =
     try_res (case rd_send d of
                SDSendSequence sends \<Rightarrow>
                  try_res (convert_sequence cs bf 0 sends) (\<lambda>converted. Ok (SendSequence converted))
              | s \<Rightarrow> convert_send_def cs bf s) (\<lambda>send.
       Ok \<lparr>sr_on = rd_on d, sr_send = send, sr_repeatable = False\<rparr>)"

section \<open>Generated scripts\<close>

definition one_shot :: "on \<Rightarrow> script_send \<Rightarrow> script_rule" where
  "one_shot k s = \<lparr>sr_on = k, sr_send = s, sr_repeatable = False\<rparr>"

definition generate_from_fixture :: "fixture_chain \<Rightarrow> u64 \<Rightarrow> script_rule list" where
  "generate_from_fixture chain await_at_tip_secs =
     [one_shot OnFindIntersect CursorFindIntersect]
     @ map (\<lambda>_. one_shot OnRequestNext CursorAdvance) (fc_entries chain)
     @ [one_shot OnRequestNext (AwaitReplySend await_at_tip_secs), one_shot OnAny DisconnectSend]"

definition generate_for_block_fetch :: "bool \<Rightarrow> script_rule list" where
  "generate_for_block_fetch no_blocks_default =
     (let range_send = (if no_blocks_default then NoBlocksSend else CursorRange)
      in [\<lparr>sr_on = OnRequestRange, sr_send = range_send, sr_repeatable = True\<rparr>,
          one_shot OnAny DisconnectSend])"

section \<open>Choosing a rule\<close>

text \<open>
  The search that both script servers run for a request: the first matching rule at or after
  \<open>rule_idx\<close>, and the index the next search starts from.
\<close>

definition next_rule :: "(on \<Rightarrow> bool) \<Rightarrow> script_rule list \<Rightarrow> usize \<Rightarrow> (usize \<times> script_rule \<times> usize) option" where
  "next_rule matches_on rules rule_idx =
     (case position (\<lambda>r. matches_on (sr_on r)) (drop rule_idx rules) of
        None \<Rightarrow> None
      | Some p \<Rightarrow> let pos = p + rule_idx; rule = rules ! pos
                  in Some (pos, rule, if sr_repeatable rule then rule_idx else Suc pos))"

lemma next_rule_SomeD:
  assumes "next_rule m rules idx = Some (pos, rule, idx')"
  shows "idx \<le> pos" "pos < length rules" "rule = rules ! pos" "m (sr_on rule)"
    "\<And>j. idx \<le> j \<Longrightarrow> j < pos \<Longrightarrow> \<not> m (sr_on (rules ! j))"
    "idx' = (if sr_repeatable rule then idx else Suc pos)"
proof -
  from assms obtain p where p: "position (\<lambda>r. m (sr_on r)) (drop idx rules) = Some p"
    and eq: "pos = p + idx" "rule = rules ! pos" "idx' = (if sr_repeatable rule then idx else Suc pos)"
    by (auto simp: next_rule_def Let_def split: option.splits)
  note d = position_SomeD [OF p]
  from d(1) eq(1) show "idx \<le> pos" "pos < length rules" by auto
  with eq d(1,2) show "rule = rules ! pos" "m (sr_on rule)"
    by (simp_all add: add.commute)
  show "\<not> m (sr_on (rules ! j))" if "idx \<le> j" "j < pos" for j
    using d(3) [of "j - idx"] that eq(1) d(1) by simp
  show "idx' = (if sr_repeatable rule then idx else Suc pos)" by (rule eq(3))
qed

lemma next_rule_None_iff:
  "next_rule m rules idx = None \<longleftrightarrow> (\<forall>j. idx \<le> j \<and> j < length rules \<longrightarrow> \<not> m (sr_on (rules ! j)))"
proof -
  have "next_rule m rules idx = None \<longleftrightarrow> (\<forall>r \<in> set (drop idx rules). \<not> m (sr_on r))"
    using position_None_iff [of "\<lambda>r. m (sr_on r)" "drop idx rules"]
    by (auto simp: next_rule_def Let_def split: option.split)
  also have "\<dots> \<longleftrightarrow> (\<forall>j. idx \<le> j \<and> j < length rules \<longrightarrow> \<not> m (sr_on (rules ! j)))"
  proof
    assume *: "\<forall>r \<in> set (drop idx rules). \<not> m (sr_on r)"
    show "\<forall>j. idx \<le> j \<and> j < length rules \<longrightarrow> \<not> m (sr_on (rules ! j))"
    proof (intro allI impI)
      fix j assume "idx \<le> j \<and> j < length rules"
      then have "rules ! j \<in> set (drop idx rules)"
        by (auto simp: in_set_conv_nth intro!: exI [of _ "j - idx"])
      with * show "\<not> m (sr_on (rules ! j))" by blast
    qed
  qed (auto simp: in_set_conv_nth)
  finally show ?thesis .
qed

lemma next_rule_here:
  "idx < length rules \<Longrightarrow> m (sr_on (rules ! idx)) \<Longrightarrow>
     next_rule m rules idx = Some (idx, rules ! idx, if sr_repeatable (rules ! idx) then idx else Suc idx)"
  by (simp add: next_rule_def Let_def Cons_nth_drop_Suc [symmetric])

section \<open>Properties\<close>

text \<open>What a scenario can ask for: no cursor sends, and sequences that are flat.\<close>

fun plain_send :: "script_send \<Rightarrow> bool" where
  "plain_send (SendSequence _) = False"
| "plain_send CursorFindIntersect = False"
| "plain_send CursorAdvance = False"
| "plain_send CursorRange = False"
| "plain_send _ = True"

fun user_send :: "script_send \<Rightarrow> bool" where
  "user_send (SendSequence ss) = list_all plain_send ss"
| "user_send s = plain_send s"

text \<open>When a send converts: exactly one source, an index within the fixture, text that decodes.\<close>

definition source_ok :: "usize option \<Rightarrow> string option \<Rightarrow> 'e list option \<Rightarrow> bool" where
  "source_ok index hex entries =
     (case (index, hex) of
        (Some i, None) \<Rightarrow> (\<exists>es. entries = Some es \<and> i < length es)
      | (None, Some h) \<Rightarrow> is_ok (decode_hex h)
      | _ \<Rightarrow> False)"

fun send_ok :: "fixture_chain option \<Rightarrow> block_fixture_chain option \<Rightarrow> send_def \<Rightarrow> bool" where
  "send_ok cs bf (SDRollForward i h v t) = source_ok i h (map_option fc_entries cs)"
| "send_ok cs bf (SDBlock i h) = source_ok i h (map_option bc_entries bf)"
| "send_ok cs bf (SDStreamBatch ks fr) =
     (case ks of
        Some is \<Rightarrow> (\<exists>c. bf = Some c \<and> (\<forall>i \<in> set is. i < length (bc_entries c)))
      | None \<Rightarrow> fr = Some True)"
| "send_ok cs bf (SDRawBytes h) = is_ok (decode_hex h)"
| "send_ok cs bf (SDSendSequence _) = False"
| "send_ok cs bf _ = True"

lemma nth_opt_simps [simp]: "nth_opt i xs = Some x \<longleftrightarrow> i < length xs \<and> x = xs ! i"
  by (auto simp: nth_opt_def)

lemma is_ok_try_Ok [simp]: "is_ok (try_res r (\<lambda>x. Ok (f x))) = is_ok r"
  by (cases r) auto

lemma is_ok_map_err [simp]: "is_ok (map_err m r) = is_ok r"
  by (cases r) auto

lemma is_ok_ok_or [simp]: "is_ok (ok_or m v) = (v \<noteq> None)"
  by (cases v) auto

lemma is_ok_try_ok_or [simp]: "is_ok (try_res (ok_or m v) k) = (\<exists>x. v = Some x \<and> is_ok (k x))"
  by (cases v) auto

lemma is_ok_resolve: "is_ok (resolve_indices c n is) = (\<forall>i \<in> set is. i < length (bc_entries c))"
  by (induction "is" arbitrary: n) (auto simp: nth_opt_def)

lemma is_ok_convert: "is_ok (convert_send_def cs bf d) = send_ok cs bf d"
proof (cases d)
  case (SDRollForward i h v t)
  then show ?thesis
    by (cases i; cases h) (auto simp: convert_header_source_def source_ok_def nth_opt_def)
next
  case (SDBlock i h)
  then show ?thesis
    by (cases i; cases h) (auto simp: convert_block_source_def source_ok_def nth_opt_def)
next
  case (SDStreamBatch ks fr)
  then show ?thesis
    by (auto simp: convert_stream_sources_def is_ok_resolve split: option.splits bool.splits)
qed simp_all

lemma is_ok_convert_sequence:
  "is_ok (convert_sequence cs bf i ds) = list_all (send_ok cs bf) ds"
proof (induction ds arbitrary: i)
  case Nil
  then show ?case by simp
next
  case (Cons d ds)
  show ?case
  proof (cases "convert_send_def cs bf d")
    case (Ok s)
    then have "send_ok cs bf d" using is_ok_convert [of cs bf d] by simp
    moreover from this have "\<not> is_send_sequence d" by (cases d) (simp_all add: is_send_sequence_def)
    ultimately show ?thesis using Ok Cons.IH by simp
  next
    case (Err e)
    then show ?thesis using is_ok_convert [of cs bf d] by auto
  next
    case Panic
    then show ?thesis using is_ok_convert [of cs bf d] by auto
  qed
qed

lemma convert_plain: "convert_send_def cs bf d = Ok s \<Longrightarrow> plain_send s"
  by (cases d) auto

lemma convert_sequence_plain: "convert_sequence cs bf i ds = Ok ss \<Longrightarrow> list_all plain_send ss"
  by (induction ds arbitrary: i ss) (auto split: if_splits dest: convert_plain)


text \<open>A converted rule keeps its trigger, fires at most once, never carries a cursor send (those
  are for generated scripts only), and its sequence, if it is one, is flat.\<close>

theorem converted_rule_shape:
  assumes "rule_def_to_script d cs bf = Ok r"
  shows "sr_on r = rd_on d \<and> \<not> sr_repeatable r \<and> user_send (sr_send r)"
proof -
  from assms obtain s where s: "r = \<lparr>sr_on = rd_on d, sr_send = s, sr_repeatable = False\<rparr>"
    and conv: "(case rd_send d of
                SDSendSequence sends \<Rightarrow>
                  try_res (convert_sequence cs bf 0 sends) (\<lambda>converted. Ok (SendSequence converted))
              | s \<Rightarrow> convert_send_def cs bf s) = Ok s"
    by (auto simp: rule_def_to_script_def)
  have "user_send s"
  proof (cases "\<exists>ds. rd_send d = SDSendSequence ds")
    case True
    with conv convert_sequence_plain show ?thesis by auto
  next
    case False
    with conv have "convert_send_def cs bf (rd_send d) = Ok s" by (cases "rd_send d") auto
    then have "plain_send s" by (rule convert_plain)
    then show ?thesis by (cases s) auto
  qed
  with s show ?thesis by simp
qed

theorem converted_rule_shape_witness:
  "\<exists>r. rule_def_to_script \<lparr>rd_on = OnAny, rd_send = SDSendSequence [SDStartBatch, SDDisconnect]\<rparr> None None = Ok r \<and>
     sr_on r = OnAny \<and> \<not> sr_repeatable r \<and> user_send (sr_send r)"
proof -
  obtain r where r: "rule_def_to_script \<lparr>rd_on = OnAny, rd_send = SDSendSequence [SDStartBatch, SDDisconnect]\<rparr> None None = Ok r"
    by (simp add: rule_def_to_script_def is_send_sequence_def)
  from converted_rule_shape [OF r] r show ?thesis by auto
qed

end
