(* ===== verification/Vars.thy ===== *)
theory Vars
  imports Wire
begin

text \<open>
  Variable references in scenario parameters (\<open>scenario/vars.rs\<close>): resolving \<open>$name\<close>,
  \<open>$name.field\<close> and \<open>$name[i]\<close>, interpolating \<open>${name}\<close> into strings, and substituting
  through a JSON value.
\<close>

type_synonym var_store = "string \<rightharpoonup> json"

section \<open>Definitions\<close>

definition unknown_variable :: "string \<Rightarrow> string" where
  "unknown_variable name = ''unknown variable: '' @ quoted name"

definition resolve_ref :: "string \<Rightarrow> var_store \<Rightarrow> json res" where
  "resolve_ref expr vars =
     (if \<not> starts_with expr ''$'' then anyhow (''not a variable reference: '' @ quoted expr)
      else let rest = drop 1 expr in
        case split_once (CHR ''.'') rest of
          Some (name, field) \<Rightarrow>
            try_res (ok_or (unknown_variable name) (vars name)) (\<lambda>base.
            ok_or (quoted name @ '' has no field '' @ quoted field) (json_get field base))
        | None \<Rightarrow>
            (case str_find ''['' rest of
               Some bracket \<Rightarrow>
                 let name = take bracket rest;
                     idx_str = trim_end_matches (CHR '']'') (drop (bracket + 1) rest) in
                 try_res (with_context (''invalid array index in '' @ quoted expr)
                           (case parse_usize idx_str of Inl e \<Rightarrow> anyhow e | Inr i \<Rightarrow> Ok i)) (\<lambda>idx.
                 try_res (ok_or (unknown_variable name) (vars name)) (\<lambda>base.
                 ok_or (''index '' @ nat_to_string idx @ '' out of bounds in '' @ quoted name)
                   (json_get_idx idx base)))
             | None \<Rightarrow> ok_or (unknown_variable rest) (vars rest)))"

fun json_type_name :: "json \<Rightarrow> string" where
  "json_type_name JNull = ''null''"
| "json_type_name (JBool _) = ''bool''"
| "json_type_name (JNumber _) = ''number''"
| "json_type_name (JString _) = ''string''"
| "json_type_name (JArray _) = ''array''"
| "json_type_name (JObject _) = ''object''"

text \<open>\<open>{template:?}\<close> on printable text: quotes and backslashes are escaped.\<close>

definition str_debug :: "string \<Rightarrow> string" where
  "str_debug s = quoted (concat (map (\<lambda>c.
     if c = CHR 0x22 \<or> c = CHR 0x5C then [CHR 0x5C, c]
     else if c = CHR 0x0A then [CHR 0x5C, CHR ''n'']
     else if c = CHR 0x0D then [CHR 0x5C, CHR ''r'']
     else if c = CHR 0x09 then [CHR 0x5C, CHR ''t''] else [c]) s))"

text \<open>How a variable's value is rendered inside a string.\<close>

definition render_var :: "string \<Rightarrow> var_store \<Rightarrow> string res" where
  "render_var name vars =
     try_res (ok_or (''unknown variable '' @ quoted name @ '' in template string'') (vars name)) (\<lambda>v.
       case v of
         JNumber n \<Rightarrow> Ok (number_to_string n)
       | JString s \<Rightarrow> Ok s
       | other \<Rightarrow> anyhow (''variable '' @ quoted name @ '' of type '' @ json_type_name other
                   @ '' cannot be interpolated into a string''))"

text \<open>The loop of \<open>expand_template\<close>: what is left of the template, and the two accumulators.\<close>

function expand_loop :: "string \<Rightarrow> var_store \<Rightarrow> string \<Rightarrow> string \<Rightarrow> string list
    \<Rightarrow> (string \<times> string list) res" where
  "expand_loop template vars remaining result expanded =
     (case str_find ''${'' remaining of
        None \<Rightarrow> Ok (result @ remaining, expanded)
      | Some open_pos \<Rightarrow>
          let after = drop (open_pos + 2) remaining in
          (case str_find ''}'' after of
             None \<Rightarrow> anyhow (''unclosed '${' in template string: '' @ str_debug template)
           | Some close_pos \<Rightarrow>
               let name = take close_pos after in
               try_res (render_var name vars) (\<lambda>rendered.
                 expand_loop template vars (drop (close_pos + 1) after)
                   (result @ take open_pos remaining @ rendered) (expanded @ [name]))))"
  by pat_completeness auto

termination
  by (relation "measure (\<lambda>(template, vars, remaining, result, expanded). length remaining)")
    (auto dest!: str_find_SomeD)

declare expand_loop.simps [simp del]

definition expand_template :: "string \<Rightarrow> var_store \<Rightarrow> (string \<times> string list) res" where
  "expand_template template vars = expand_loop template vars template [] []"

type_synonym refs = "(string \<times> string) list"

definition substitute_string :: "var_store \<Rightarrow> string \<Rightarrow> (json \<times> refs) res" where
  "substitute_string vars s =
     (if str_contains ''${'' s then
        try_res (expand_template s vars) (\<lambda>(new_s, expanded).
          Ok (JString new_s, map (\<lambda>name. (''${'' @ name @ ''}'', ''string'')) expanded))
      else if starts_with s ''$'' then
        try_res (with_context (''resolving reference '' @ quoted s) (resolve_ref s vars)) (\<lambda>resolved.
          Ok (resolved, [(s, json_type_name resolved)]))
      else Ok (JString s, []))"

fun substitute_inner :: "var_store \<Rightarrow> json \<Rightarrow> (json \<times> refs) res"
  and substitute_items :: "var_store \<Rightarrow> json list \<Rightarrow> (json list \<times> refs) res"
  and substitute_fields :: "var_store \<Rightarrow> (string \<times> json) list \<Rightarrow> ((string \<times> json) list \<times> refs) res"
where
  "substitute_inner vars (JString s) = substitute_string vars s"
| "substitute_inner vars (JArray xs) =
     try_res (substitute_items vars xs) (\<lambda>(xs', out). Ok (JArray xs', out))"
| "substitute_inner vars (JObject m) =
     try_res (substitute_fields vars m) (\<lambda>(m', out). Ok (JObject m', out))"
| "substitute_inner vars v = Ok (v, [])"
| "substitute_items vars [] = Ok ([], [])"
| "substitute_items vars (x # xs) =
     try_res (substitute_inner vars x) (\<lambda>(x', out1).
     try_res (substitute_items vars xs) (\<lambda>(xs', out2). Ok (x' # xs', out1 @ out2)))"
| "substitute_fields vars [] = Ok ([], [])"
| "substitute_fields vars ((k, x) # m) =
     try_res (substitute_inner vars x) (\<lambda>(x', out1).
     try_res (substitute_fields vars m) (\<lambda>(m', out2). Ok ((k, x') # m', out1 @ out2)))"

definition substitute_in_value :: "json \<Rightarrow> var_store \<Rightarrow> (json \<times> refs) res" where
  "substitute_in_value v vars = substitute_inner vars v"

section \<open>Templates as literal text and holes\<close>

text \<open>
  The reference reading of a template: pairs of literal text and a hole's name, then a tail.
\<close>

definition holes_text :: "(string \<times> string) list \<Rightarrow> string" where
  "holes_text ps = concat (map (\<lambda>(lit, name). lit @ ''${'' @ name @ ''}'') ps)"

definition plain :: "string \<Rightarrow> bool" where
  "plain s \<longleftrightarrow> \<not> str_contains ''${'' s"

lemma starts_with_open: "starts_with (s @ ''${'' @ t) ''${'' \<longleftrightarrow> s = [] \<or> starts_with s ''${''"
  by (cases s; cases "tl s") (auto simp: starts_with_iff numeral_2_eq_2)

lemma str_find_open: "plain s \<Longrightarrow> str_find ''${'' (s @ ''${'' @ t) = Some (length s)"
proof (induction s)
  case Nil
  then show ?case by (simp add: str_find.simps starts_with_iff)
next
  case (Cons c s)
  then have p: "plain s" "\<not> starts_with (c # s) ''${''"
    by (auto simp: plain_def str_contains_def str_find.simps [of _ "c # s"] split: if_splits)
  then have "\<not> starts_with (c # s @ ''${'' @ t) ''${''"
    using starts_with_open [of "c # s" t] by simp
  with Cons.IH [OF p(1)] show ?case by (simp add: str_find.simps [of _ "c # _"])
qed

lemma expand_loop_hole:
  assumes "plain lit" "CHR ''}'' \<notin> set name"
  shows "expand_loop template vars (lit @ ''${'' @ name @ ''}'' @ rest) result expanded =
    try_res (render_var name vars) (\<lambda>rendered.
      expand_loop template vars rest (result @ lit @ rendered) (expanded @ [name]))"
proof -
  have "str_find ''}'' (name @ ''}'' @ rest) = Some (length name)"
    using str_find_char_append [OF assms(2), of rest] by simp
  moreover have "str_find ''${'' (lit @ ''${'' @ name @ ''}'' @ rest) = Some (length lit)"
    using str_find_open [OF assms(1)] by simp
  ultimately show ?thesis
    by (subst expand_loop.simps) (simp add: Let_def)
qed

lemma expand_loop_plain: "plain s \<Longrightarrow> expand_loop template vars s result expanded = Ok (result @ s, expanded)"
  by (subst expand_loop.simps) (simp add: plain_def str_contains_def)

text \<open>What the holes of a template expand to, left to right.\<close>

fun render_holes :: "var_store \<Rightarrow> (string \<times> string) list \<Rightarrow> string res" where
  "render_holes vars [] = Ok []"
| "render_holes vars ((lit, name) # ps) =
     try_res (render_var name vars) (\<lambda>r.
     try_res (render_holes vars ps) (\<lambda>rs. Ok (lit @ r @ rs)))"

lemma expand_loop_holes:
  assumes "\<forall>(lit, name) \<in> set ps. plain lit \<and> CHR ''}'' \<notin> set name" "plain tail"
  shows "expand_loop template vars (holes_text ps @ tail) result expanded =
    try_res (render_holes vars ps) (\<lambda>s. Ok (result @ s @ tail, expanded @ map snd ps))"
  using assms(1)
proof (induction ps arbitrary: result expanded)
  case Nil
  with assms(2) show ?case by (simp add: holes_text_def expand_loop_plain)
next
  case (Cons p ps)
  obtain lit name where p: "p = (lit, name)" by (cases p)
  with Cons.prems have ok: "plain lit" "CHR ''}'' \<notin> set name" by auto
  have unfolded: "holes_text (p # ps) @ tail = lit @ ''${'' @ name @ ''}'' @ (holes_text ps @ tail)"
    by (simp add: holes_text_def p)
  show ?case
    unfolding unfolded expand_loop_hole [OF ok]
    using Cons.IH Cons.prems by (cases "render_var name vars"; cases "render_holes vars ps") (auto simp: p)
qed

section \<open>Substitution works leaf by leaf\<close>

text \<open>The strings of a value, in the order the substitution visits them.\<close>

fun strings_of :: "json \<Rightarrow> string list" where
  "strings_of (JString s) = [s]"
| "strings_of (JArray xs) = concat (map strings_of xs)"
| "strings_of (JObject m) = concat (map (\<lambda>(k, v). strings_of v) m)"
| "strings_of v = []"

lemma substitute_ok_leaves:
  "is_ok (substitute_inner vars v) \<longleftrightarrow> (\<forall>s \<in> set (strings_of v). is_ok (substitute_string vars s))"
  "is_ok (substitute_items vars xs) \<longleftrightarrow>
     (\<forall>x \<in> set xs. \<forall>s \<in> set (strings_of x). is_ok (substitute_string vars s))"
  "is_ok (substitute_fields vars m) \<longleftrightarrow>
     (\<forall>kv \<in> set m. \<forall>s \<in> set (strings_of (snd kv)). is_ok (substitute_string vars s))"
proof (induction vars v and vars xs and vars m
    rule: substitute_inner_substitute_items_substitute_fields.induct)
  case (6 vars x xs)
  then show ?case
    by (cases "substitute_inner vars x"; cases "substitute_items vars xs") (auto split: prod.splits)
next
  case (8 vars k x m)
  then show ?case
    by (cases "substitute_inner vars x"; cases "substitute_fields vars m") (auto split: prod.splits)
next
  case (2 vars xs)
  then show ?case by (cases "substitute_items vars xs") (auto split: prod.splits)
next
  case (3 vars m)
  then show ?case
    by (cases "substitute_fields vars m") (auto split: prod.splits simp: split_beta)
qed auto

definition leaf_refs :: "var_store \<Rightarrow> string \<Rightarrow> refs" where
  "leaf_refs vars s = (case substitute_string vars s of Ok (v, out) \<Rightarrow> out | _ \<Rightarrow> [])"

lemma substitute_refs_leaves:
  "substitute_inner vars v = Ok (v', out) \<Longrightarrow> out = concat (map (leaf_refs vars) (strings_of v))"
  "substitute_items vars xs = Ok (xs', out) \<Longrightarrow>
     out = concat (map (leaf_refs vars) (concat (map strings_of xs)))"
  "substitute_fields vars m = Ok (m', out) \<Longrightarrow>
     out = concat (map (leaf_refs vars) (concat (map (\<lambda>(k, v). strings_of v) m)))"
proof (induction vars v and vars xs and vars m
    arbitrary: v' out and xs' out and m' out
    rule: substitute_inner_substitute_items_substitute_fields.induct)
qed (auto simp: leaf_refs_def)

definition no_dollar :: "string \<Rightarrow> bool" where
  "no_dollar s \<longleftrightarrow> CHR ''$'' \<notin> set s"

lemma substitute_string_no_dollar: "no_dollar s \<Longrightarrow> substitute_string vars s = Ok (JString s, [])"
proof -
  assume "no_dollar s"
  then have nd: "CHR ''$'' \<notin> set s" by (simp add: no_dollar_def)
  have "str_find ''${'' s = None"
  proof (cases "str_find ''${'' s")
    case (Some i)
    then have "CHR ''$'' \<in> set s"
      by (subst str_find_Some_decomp [OF Some]) simp
    with nd show ?thesis by simp
  qed
  moreover have "\<not> starts_with s ''$''" using nd by (cases s) auto
  ultimately show ?thesis by (simp add: substitute_string_def str_contains_def)
qed

lemma substitute_no_refs:
  "\<forall>s \<in> set (strings_of v). no_dollar s \<Longrightarrow> substitute_inner vars v = Ok (v, [])"
  "\<forall>x \<in> set xs. \<forall>s \<in> set (strings_of x). no_dollar s \<Longrightarrow> substitute_items vars xs = Ok (xs, [])"
  "\<forall>kv \<in> set m. \<forall>s \<in> set (strings_of (snd kv)). no_dollar s \<Longrightarrow>
     substitute_fields vars m = Ok (m, [])"
proof (induction vars v and vars xs and vars m
    rule: substitute_inner_substitute_items_substitute_fields.induct)
qed (auto simp: substitute_string_no_dollar split_beta)

text \<open>The substituted value: every string leaf is replaced by what it stands for.\<close>

fun map_strings :: "(string \<Rightarrow> json) \<Rightarrow> json \<Rightarrow> json" where
  "map_strings f (JString s) = f s"
| "map_strings f (JArray xs) = JArray (map (map_strings f) xs)"
| "map_strings f (JObject m) = JObject (map (\<lambda>(k, v). (k, map_strings f v)) m)"
| "map_strings f v = v"

definition leaf_value :: "var_store \<Rightarrow> string \<Rightarrow> json" where
  "leaf_value vars s = (case substitute_string vars s of Ok (v, out) \<Rightarrow> v | _ \<Rightarrow> JString s)"

lemma substitute_value_leaves:
  "substitute_inner vars v = Ok (v', out) \<Longrightarrow> v' = map_strings (leaf_value vars) v"
  "substitute_items vars xs = Ok (xs', out) \<Longrightarrow> xs' = map (map_strings (leaf_value vars)) xs"
  "substitute_fields vars m = Ok (m', out) \<Longrightarrow>
     m' = map (\<lambda>(k, v). (k, map_strings (leaf_value vars) v)) m"
proof (induction vars v and vars xs and vars m
    arbitrary: v' out and xs' out and m' out
    rule: substitute_inner_substitute_items_substitute_fields.induct)
qed (auto simp: leaf_value_def)

section \<open>Properties\<close>

text \<open>C31: Template expansion reads a string as literal text and holes: whatever the literals (without
  an opening) and the names (without a closing brace) are, the result is the literals with each
  hole replaced by its variable's rendering, in order, and the first hole that cannot be rendered
  is the error.\<close>

theorem template_renders_holes:
  assumes "\<forall>(lit, name) \<in> set ps. plain lit \<and> CHR ''}'' \<notin> set name" "plain tail"
  shows "expand_template (holes_text ps @ tail) vars =
    try_res (render_holes vars ps) (\<lambda>s. Ok (s @ tail, map snd ps))"
  using expand_loop_holes [OF assms, of "holes_text ps @ tail" vars "[]" "[]"]
  by (simp add: expand_template_def)

theorem template_renders_holes_witness:
  "expand_template ''at ${s}:ab'' [''s'' \<mapsto> JNumber (PosInt 7)] = Ok (''at 7:ab'', [''s''])"
proof -
  have "char_of (of_char (CHR ''7'') :: nat) = CHR ''7''" by (rule char_of_char)
  then have "nat_to_string 7 = ''7''" by (simp add: nat_to_string.simps [of 7] digit_char_def)
  then show ?thesis
    using template_renders_holes [of "[(''at '', ''s'')]" "'':ab''" "[''s'' \<mapsto> JNumber (PosInt 7)]"]
    by (simp add: holes_text_def plain_def str_contains_def str_find.simps render_var_def u64_to_string_def)
qed

text \<open>C30: Substitution works leaf by leaf: it succeeds exactly when every string of the value can be
  substituted, it then replaces each string by what that string alone stands for and leaves the
  shape of the value and everything that is not a string alone, and it reports the references of
  the strings in order.\<close>

theorem substitution_is_leafwise:
  "case substitute_in_value v vars of
     Ok (v', out) \<Rightarrow> (\<forall>s \<in> set (strings_of v). is_ok (substitute_string vars s)) \<and>
       v' = map_strings (leaf_value vars) v \<and> out = concat (map (leaf_refs vars) (strings_of v))
   | _ \<Rightarrow> \<exists>s \<in> set (strings_of v). \<not> is_ok (substitute_string vars s)"
proof (cases "substitute_inner vars v")
  case (Ok x)
  obtain v' out where x: "x = (v', out)" by (cases x)
  with Ok substitute_ok_leaves(1) [of vars v] substitute_value_leaves(1) [of vars v v' out]
    substitute_refs_leaves(1) [of vars v v' out] show ?thesis
    by (simp add: substitute_in_value_def)
qed (use substitute_ok_leaves(1) [of vars v] in \<open>simp_all add: substitute_in_value_def\<close>)

theorem substitution_is_leafwise_witness:
  "\<not> is_ok (substitute_string Map.empty ''$x'')"
proof -
  have "substitute_in_value (JArray [JString ''$x'']) Map.empty \<noteq> Ok r" for r
    by (simp add: substitute_in_value_def substitute_string_def str_contains_def str_find.simps resolve_ref_def
      split_once_def)
  then show ?thesis
    using substitution_is_leafwise [of "JArray [JString ''$x'']" Map.empty] by (auto split: res.splits)
qed

text \<open>A point that a step stores in a variable as text comes back as the same point: the text
  substitutes for its reference unchanged and parses to the point, for every slot and hash.\<close>

theorem point_variable_roundtrip:
  "substitute_in_value (JString ''$p'') [''p'' \<mapsto> JString (point_to_str pt)] =
     Ok (JString (point_to_str pt), [(''$p'', ''string'')]) \<and>
   parse_point (point_to_str pt) = Ok pt"
  by (simp add: parse_point_to_str substitute_in_value_def substitute_string_def str_contains_def str_find.simps
      resolve_ref_def split_once_def)

end
