(* ===== verification/Scenario.thy ===== *)
theory Scenario
  imports PeerState ResponseRules Vars
begin

text \<open>
  Scenarios (\<open>scenario/mod.rs\<close>): peers and networks, steps with their raw parameters, the custom
  reader of a step, and the assertions a step may carry. The texts of \<open>serde_json\<close>'s own
  errors are abbreviated.
\<close>

section \<open>The network\<close>

record peer =
  peer_id :: string
  chain_sync_fixture :: "string option"
  block_fetch_fixture :: "string option"
  peer_description :: "string option"
  production_rule :: "production_rule option"

record network =
  net_peers :: "peer list"
  start_slot :: "u64 option"
  slot_length_ms :: "u64 option"

section \<open>Step kinds\<close>

datatype step_kind =
    Connect | Handshake | ChainSync | BlockFetch | QueryTip | Repeat | Disconnect | Sleep
  | Listen | AcceptHandshake | ServeChainSync | ServeBlockFetch | CloseListener | Parallel
  | EmitPeerEvent | AdvanceToSlot | TickSlots | PeerExtendsChain
  | LeiosNotify | LeiosFetch | ServeLeiosNotify | ServeLeiosFetch

primrec step_kind_str :: "step_kind \<Rightarrow> string" where
  "step_kind_str Connect = ''connect''"
| "step_kind_str Handshake = ''handshake''"
| "step_kind_str ChainSync = ''chain_sync''"
| "step_kind_str BlockFetch = ''block_fetch''"
| "step_kind_str QueryTip = ''query_tip''"
| "step_kind_str Repeat = ''repeat''"
| "step_kind_str Disconnect = ''disconnect''"
| "step_kind_str Sleep = ''sleep''"
| "step_kind_str Listen = ''listen''"
| "step_kind_str AcceptHandshake = ''accept_handshake''"
| "step_kind_str ServeChainSync = ''serve_chain_sync''"
| "step_kind_str ServeBlockFetch = ''serve_block_fetch''"
| "step_kind_str CloseListener = ''close_listener''"
| "step_kind_str Parallel = ''parallel''"
| "step_kind_str EmitPeerEvent = ''emit_peer_event''"
| "step_kind_str AdvanceToSlot = ''advance_to_slot''"
| "step_kind_str TickSlots = ''tick_slots''"
| "step_kind_str PeerExtendsChain = ''peer_extends_chain''"
| "step_kind_str LeiosNotify = ''leios_notify''"
| "step_kind_str LeiosFetch = ''leios_fetch''"
| "step_kind_str ServeLeiosNotify = ''serve_leios_notify''"
| "step_kind_str ServeLeiosFetch = ''serve_leios_fetch''"

definition all_step_kinds :: "step_kind list" where
  "all_step_kinds = [Connect, Handshake, ChainSync, BlockFetch, QueryTip, Repeat, Disconnect, Sleep,
     Listen, AcceptHandshake, ServeChainSync, ServeBlockFetch, CloseListener, Parallel,
     EmitPeerEvent, AdvanceToSlot, TickSlots, PeerExtendsChain,
     LeiosNotify, LeiosFetch, ServeLeiosNotify, ServeLeiosFetch]"

definition is_client_side :: "step_kind \<Rightarrow> bool" where
  "is_client_side k \<longleftrightarrow> k \<in> {Connect, Handshake, ChainSync, BlockFetch, QueryTip, Disconnect,
     LeiosNotify, LeiosFetch}"

definition is_server_side :: "step_kind \<Rightarrow> bool" where
  "is_server_side k \<longleftrightarrow> k \<in> {Listen, AcceptHandshake, ServeChainSync, ServeBlockFetch,
     ServeLeiosNotify, ServeLeiosFetch, CloseListener}"

section \<open>Steps\<close>

record assertions =
  min_events :: "usize option"
  must_contain_kind :: "string list option"
  must_not_contain_kind :: "string list option"

record step_def =
  sd_kind :: step_kind
  sd_raw_params :: json
  sd_output :: "string option"
  sd_as_name :: "string option"
  sd_on_name :: "string option"
  sd_expect :: "assertions option"

text \<open>The derived readers: a unit variant, an optional string, an optional count, an optional list of
  strings, and the assertions record (whose fields may be absent).\<close>

definition step_kind_of_name :: "string \<Rightarrow> step_kind res" where
  "step_kind_of_name s =
     ok_or (''unknown variant `'' @ s @ ''`'') (find (\<lambda>k. step_kind_str k = s) all_step_kinds)"

definition step_kind_from_value :: "json \<Rightarrow> step_kind res" where
  "step_kind_from_value v = (case v of
     JString s \<Rightarrow> step_kind_of_name s
   | JObject [(s, JNull)] \<Rightarrow> step_kind_of_name s
   | _ \<Rightarrow> anyhow ''invalid type: expected enum StepKind'')"

definition opt_string_from_value :: "json \<Rightarrow> string option res" where
  "opt_string_from_value v = (case v of
     JNull \<Rightarrow> Ok None
   | JString s \<Rightarrow> Ok (Some s)
   | _ \<Rightarrow> anyhow ''invalid type: expected a string'')"

definition opt_usize_from_value :: "json \<Rightarrow> usize option res" where
  "opt_usize_from_value v = (if v = JNull then Ok None
     else try_res (ok_or ''invalid type: expected usize'' (as_u64 v)) (\<lambda>n. Ok (Some (unat n))))"

definition opt_strings_from_value :: "json \<Rightarrow> string list option res" where
  "opt_strings_from_value v = (case v of
     JNull \<Rightarrow> Ok None
   | JArray xs \<Rightarrow> try_res (mapM_res (\<lambda>x. ok_or ''invalid type: expected a string'' (as_str x)) xs) (\<lambda>ss. Ok (Some ss))
   | _ \<Rightarrow> anyhow ''invalid type: expected a sequence'')"

definition field_or_null :: "string \<Rightarrow> json \<Rightarrow> json" where
  "field_or_null k v = (case json_get k v of None \<Rightarrow> JNull | Some x \<Rightarrow> x)"

definition assertions_from_fields :: "json \<Rightarrow> json \<Rightarrow> json \<Rightarrow> assertions res" where
  "assertions_from_fields a b c =
     try_res (opt_usize_from_value a) (\<lambda>mn.
     try_res (opt_strings_from_value b) (\<lambda>mc.
     try_res (opt_strings_from_value c) (\<lambda>mx.
       Ok \<lparr>min_events = mn, must_contain_kind = mc, must_not_contain_kind = mx\<rparr>)))"

definition opt_assertions_from_value :: "json \<Rightarrow> assertions option res" where
  "opt_assertions_from_value v = (case v of
     JNull \<Rightarrow> Ok None
   | JObject m \<Rightarrow> try_res (assertions_from_fields (field_or_null ''min_events'' v)
       (field_or_null ''must_contain_kind'' v) (field_or_null ''must_not_contain_kind'' v)) (\<lambda>a. Ok (Some a))
   | JArray [a, b, c] \<Rightarrow> try_res (assertions_from_fields a b c) (\<lambda>x. Ok (Some x))
   | _ \<Rightarrow> anyhow ''invalid type: expected struct Assertions'')"

text \<open>\<open>map.remove(k).map(from_value).transpose()?\<close>: the value, if the key is there.\<close>

definition take_field :: "string \<Rightarrow> (json \<Rightarrow> 'a option res) \<Rightarrow> json \<Rightarrow> 'a option res" where
  "take_field k f m = (case json_get k m of None \<Rightarrow> Ok None | Some v \<Rightarrow> f v)"

definition step_def_from_value :: "json \<Rightarrow> step_def res" where
  "step_def_from_value v = (case v of
     JObject kvs \<Rightarrow>
       try_res (ok_or ''missing field `kind`'' (json_get ''kind'' v)) (\<lambda>k.
       try_res (step_kind_from_value k) (\<lambda>kind.
       let m1 = json_remove ''kind'' v in
       try_res (take_field ''output'' opt_string_from_value m1) (\<lambda>out.
       let m2 = json_remove ''output'' m1 in
       try_res (take_field ''as'' opt_string_from_value m2) (\<lambda>as_name.
       let m3 = json_remove ''as'' m2 in
       try_res (take_field ''on'' opt_string_from_value m3) (\<lambda>on_name.
       let m4 = json_remove ''on'' m3 in
       try_res (take_field ''expect'' opt_assertions_from_value m4) (\<lambda>expect.
       Ok \<lparr>sd_kind = kind, sd_raw_params = json_remove ''expect'' m4, sd_output = out,
           sd_as_name = as_name, sd_on_name = on_name, sd_expect = expect\<rparr>))))))
   | _ \<Rightarrow> anyhow ''invalid type: expected a map'')"

text \<open>\<open>from_value::<Vec<StepDef>>\<close> and \<open>from_value::<Vec<Vec<StepDef>>>\<close>\<close>

definition steps_from_value :: "json \<Rightarrow> step_def list res" where
  "steps_from_value v = (case v of
     JArray xs \<Rightarrow> mapM_res step_def_from_value xs
   | _ \<Rightarrow> anyhow ''invalid type: expected a sequence'')"

definition branches_from_value :: "json \<Rightarrow> step_def list list res" where
  "branches_from_value v = (case v of
     JArray xs \<Rightarrow> mapM_res steps_from_value xs
   | _ \<Rightarrow> anyhow ''invalid type: expected a sequence'')"

record scenario =
  sc_name :: string
  sc_description :: "string option"
  sc_target_address :: "string option"
  sc_network_magic :: u64
  sc_trace_output_path :: string
  sc_expected_outcome :: "string option"
  sc_network :: "network option"
  sc_steps :: "step_def list"
  sc_sut_genesis_time_unix :: "u64 option"
  sc_sut_slot_duration_ms :: "u64 option"

datatype block_fetch_points = FromChainSync | ExplicitPoints "string list"

definition block_fetch_points_from_value :: "json \<Rightarrow> block_fetch_points res" where
  "block_fetch_points_from_value v =
     (if v = JString ''from_chain_sync'' then Ok FromChainSync
      else case v of
        JArray xs \<Rightarrow> try_res (mapM_res (\<lambda>x. ok_or ''invalid type: expected a string'' (as_str x)) xs) (\<lambda>pts.
          Ok (ExplicitPoints pts))
      | _ \<Rightarrow> anyhow (''expected '' @ quoted ''from_chain_sync'' @ '' or an array of ''
               @ quoted ''slot:hex_hash'' @ '' strings''))"

text \<open>A step of a kind with nothing else set.\<close>

definition plain_step :: "step_kind \<Rightarrow> step_def" where
  "plain_step k = \<lparr>sd_kind = k, sd_raw_params = JObject [], sd_output = None, sd_as_name = None,
     sd_on_name = None, sd_expect = None\<rparr>"

section \<open>Lemmas\<close>

lemma step_kind_str_inj: "step_kind_str a = step_kind_str b \<longleftrightarrow> a = b"
  by (cases a; cases b) simp_all

lemma step_kind_roundtrip: "step_kind_of_name (step_kind_str k) = Ok k"
  by (cases k) (simp_all add: step_kind_of_name_def all_step_kinds_def)

text \<open>Reading a step keeps the remaining parameters, which makes nested steps smaller.\<close>

lemma size_json_remove: "size (json_remove k v) \<le> size v"
proof (cases v)
  case (JObject m)
  have "size_list (size_prod (\<lambda>_. 0) size) (filter (\<lambda>(k', v). k' \<noteq> k) m) \<le> size_list (size_prod (\<lambda>_. 0) size) m"
    by (induction m) auto
  with JObject show ?thesis by simp
qed simp_all

end
