(* ===== verification/StepParams.thy ===== *)
theory StepParams
  imports Scenario
begin

text \<open>
  The typed view of a step's parameters (\<open>StepParams\<close> in \<open>scenario/mod.rs\<close>), read from the
  parameters after variable substitution. Every field may be absent or null; unknown keys are
  ignored. The parameters of a step are always an object.
\<close>

record step_params =
  sp_intersection_points :: "string list option"
  sp_count :: "u64 option"
  sp_await_timeout_secs :: "u64 option"
  sp_points :: "block_fetch_points option"
  sp_batch_size :: "usize option"
  sp_duration_secs :: "u64 option"
  sp_times :: "u64 option"
  sp_body :: "step_def list option"
  sp_bind_address :: "string option"
  sp_block_fetch_fixture_path :: "string option"
  sp_no_blocks_default :: "bool option"
  sp_fixture_path :: "string option"
  sp_responses :: "json list option"
  sp_await_at_tip_secs :: "u64 option"
  sp_target_address :: "string option"
  sp_peer_id :: "string option"
  sp_event_kind :: "string option"
  sp_as_peer :: "string option"
  sp_slot :: "u64 option"
  sp_block_number :: "u64 option"
  sp_block_hash :: "string option"
  sp_header_cbor :: "string option"
  sp_variant :: "u8 option"
  sp_block_body_cbor :: "string option"

definition opt_from_value :: "(json \<Rightarrow> 'a res) \<Rightarrow> json \<Rightarrow> 'a option res" where
  "opt_from_value f v = (if v = JNull then Ok None else try_res (f v) (\<lambda>x. Ok (Some x)))"

definition u64_from_value :: "json \<Rightarrow> u64 res" where
  "u64_from_value v = ok_or ''invalid type: expected u64'' (as_u64 v)"

definition u8_from_value :: "json \<Rightarrow> u8 res" where
  "u8_from_value v = (case as_u64 v of
     Some n \<Rightarrow> if n < 256 then Ok (ucast n) else anyhow ''invalid value: expected u8''
   | None \<Rightarrow> anyhow ''invalid type: expected u8'')"

definition bool_from_value :: "json \<Rightarrow> bool res" where
  "bool_from_value v = ok_or ''invalid type: expected a boolean'' (as_bool v)"

definition values_from_value :: "json \<Rightarrow> json list res" where
  "values_from_value v = ok_or ''invalid type: expected a sequence'' (as_array v)"

definition read_param :: "json \<Rightarrow> string \<Rightarrow> (json \<Rightarrow> 'a option res) \<Rightarrow> 'a option res" where
  "read_param v k f = f (field_or_null k v)"

definition step_params_from_value :: "json \<Rightarrow> step_params res" where
  "step_params_from_value v = (case v of
     JObject _ \<Rightarrow>
       try_res (read_param v ''intersection_points'' opt_strings_from_value) (\<lambda>intersection_points.
       try_res (read_param v ''count'' (opt_from_value u64_from_value)) (\<lambda>count.
       try_res (read_param v ''await_timeout_secs'' (opt_from_value u64_from_value)) (\<lambda>await_timeout_secs.
       try_res (read_param v ''points'' (opt_from_value block_fetch_points_from_value)) (\<lambda>points.
       try_res (read_param v ''batch_size'' opt_usize_from_value) (\<lambda>batch_size.
       try_res (read_param v ''duration_secs'' (opt_from_value u64_from_value)) (\<lambda>duration_secs.
       try_res (read_param v ''times'' (opt_from_value u64_from_value)) (\<lambda>times.
       try_res (read_param v ''body'' (opt_from_value steps_from_value)) (\<lambda>body.
       try_res (read_param v ''bind_address'' opt_string_from_value) (\<lambda>bind_address.
       try_res (read_param v ''block_fetch_fixture_path'' opt_string_from_value) (\<lambda>block_fetch_fixture_path.
       try_res (read_param v ''no_blocks_default'' (opt_from_value bool_from_value)) (\<lambda>no_blocks_default.
       try_res (read_param v ''fixture_path'' opt_string_from_value) (\<lambda>fixture_path.
       try_res (read_param v ''responses'' (opt_from_value values_from_value)) (\<lambda>responses.
       try_res (read_param v ''await_at_tip_secs'' (opt_from_value u64_from_value)) (\<lambda>await_at_tip_secs.
       try_res (read_param v ''target_address'' opt_string_from_value) (\<lambda>target_address.
       try_res (read_param v ''peer_id'' opt_string_from_value) (\<lambda>peer_id.
       try_res (read_param v ''event_kind'' opt_string_from_value) (\<lambda>event_kind.
       try_res (read_param v ''as_peer'' opt_string_from_value) (\<lambda>as_peer.
       try_res (read_param v ''slot'' (opt_from_value u64_from_value)) (\<lambda>slot.
       try_res (read_param v ''block_number'' (opt_from_value u64_from_value)) (\<lambda>block_number.
       try_res (read_param v ''block_hash'' opt_string_from_value) (\<lambda>block_hash.
       try_res (read_param v ''header_cbor'' opt_string_from_value) (\<lambda>header_cbor.
       try_res (read_param v ''variant'' (opt_from_value u8_from_value)) (\<lambda>variant.
       try_res (read_param v ''block_body_cbor'' opt_string_from_value) (\<lambda>block_body_cbor.
         Ok \<lparr>sp_intersection_points = intersection_points, sp_count = count,
             sp_await_timeout_secs = await_timeout_secs, sp_points = points,
             sp_batch_size = batch_size, sp_duration_secs = duration_secs, sp_times = times,
             sp_body = body, sp_bind_address = bind_address,
             sp_block_fetch_fixture_path = block_fetch_fixture_path,
             sp_no_blocks_default = no_blocks_default, sp_fixture_path = fixture_path,
             sp_responses = responses, sp_await_at_tip_secs = await_at_tip_secs,
             sp_target_address = target_address, sp_peer_id = peer_id, sp_event_kind = event_kind,
             sp_as_peer = as_peer, sp_slot = slot, sp_block_number = block_number,
             sp_block_hash = block_hash, sp_header_cbor = header_cbor, sp_variant = variant,
             sp_block_body_cbor = block_body_cbor\<rparr>))))))))))))))))))))))))
   | _ \<Rightarrow> anyhow ''invalid type: expected struct StepParams'')"

text \<open>The parameters of a step that sets none.\<close>

definition no_params :: step_params where
  "no_params = \<lparr>sp_intersection_points = None, sp_count = None,
     sp_await_timeout_secs = None, sp_points = None, sp_batch_size = None, sp_duration_secs = None,
     sp_times = None, sp_body = None, sp_bind_address = None, sp_block_fetch_fixture_path = None,
     sp_no_blocks_default = None, sp_fixture_path = None, sp_responses = None,
     sp_await_at_tip_secs = None, sp_target_address = None, sp_peer_id = None, sp_event_kind = None,
     sp_as_peer = None, sp_slot = None, sp_block_number = None, sp_block_hash = None,
     sp_header_cbor = None, sp_variant = None, sp_block_body_cbor = None\<rparr>"

lemma step_params_empty: "step_params_from_value (JObject []) = Ok no_params"
  by (simp add: step_params_from_value_def read_param_def field_or_null_def opt_strings_from_value_def
    opt_from_value_def opt_usize_from_value_def opt_string_from_value_def no_params_def)

end
