(* ===== verification/Event_Kind.thy ===== *)
theory Event_Kind
  imports Prelude
begin

text \<open>
  The kinds of trace events, and the name each one has in the trace file: the
  \<open>snake_case\<close> rendering that \<open>serde(rename_all)\<close> derives.
\<close>

datatype (plugins only: size) event_kind =
    ConnectionOpened
  | ConnectionClosed
  | Error
  | HandshakeStarted
  | HandshakeVersionProposed
  | HandshakeVersionAccepted
  | HandshakeVersionRejected
  | HandshakeCompleted
  | ChainSyncStarted
  | ChainSyncFindIntersect
  | ChainSyncIntersectFound
  | ChainSyncIntersectNotFound
  | ChainSyncRequestNext
  | ChainSyncRollForward
  | ChainSyncRollBackward
  | ChainSyncAwaitReply
  | ChainSyncDone
  | ChainSyncSessionSummary
  | BlockFetchStarted
  | BlockFetchRequestRange
  | BlockFetchNoBlocks
  | BlockFetchStartBatch
  | BlockFetchBlock
  | BlockFetchBatchDone
  | BlockFetchClientDone
  | BlockFetchSessionSummary
  | ProtocolWorkersStarted
  | ScenarioStarted
  | QueryTipStarted
  | QueryTipCompleted
  | RepeatIterationStarted
  | RepeatIterationCompleted
  | VariableSet
  | VariableReferenced
  | ScenarioCompleted
  | StepStarted
  | StepCompleted
  | AssertionPassed
  | AssertionFailed
  | TxSubmissionMessage
  | KeepAliveSent
  | KeepAliveReceived
  | PeerSharingMessage
  | ResponseRuleApplied
  | ServerBlockFetchStarted
  | ServerBlockFetchCompleted
  | ParallelStarted
  | ParallelBranchStarted
  | ParallelBranchCompleted
  | ParallelBranchAborted
  | ParallelBranchFailed
  | ParallelCompleted
  | ServerBearerAccepted
  | ServerListenStarted
  | ServerListenStopped
  | ServerConnectionAccepted
  | ServerHandshakeAccepted
  | ServerChainSyncStarted
  | ServerChainSyncCompleted
  | NetworkDeclared
  | SlotAdvanced
  | PeerStateInitialized
  | PeerChainExtended
  | ProductionRuleFired
  | PeerProducedBlock
  | PeerCastVote
  | PeerForkedChain
  | PeerJoinedNetwork
  | PeerLeftNetwork
  | PeerNetworkEvent
  | ServerLeiosNotifyStarted
  | ServerLeiosNotifyCompleted
  | ServerLeiosFetchStarted
  | ServerLeiosFetchCompleted
  | LeiosNotifyStarted
  | LeiosNotifyBlockAnnouncement
  | LeiosNotifyBlockOffer
  | LeiosNotifyBlockTxsOffer
  | LeiosNotifyVotes
  | LeiosNotifyDone
  | LeiosNotifySessionSummary
  | LeiosFetchStarted
  | LeiosFetchBlockRequest
  | LeiosFetchBlock
  | LeiosFetchDone
  | LeiosFetchSessionSummary

primrec event_kind_str :: "event_kind \<Rightarrow> string" where
    "event_kind_str ConnectionOpened = ''connection_opened''"
  | "event_kind_str ConnectionClosed = ''connection_closed''"
  | "event_kind_str Error = ''error''"
  | "event_kind_str HandshakeStarted = ''handshake_started''"
  | "event_kind_str HandshakeVersionProposed = ''handshake_version_proposed''"
  | "event_kind_str HandshakeVersionAccepted = ''handshake_version_accepted''"
  | "event_kind_str HandshakeVersionRejected = ''handshake_version_rejected''"
  | "event_kind_str HandshakeCompleted = ''handshake_completed''"
  | "event_kind_str ChainSyncStarted = ''chain_sync_started''"
  | "event_kind_str ChainSyncFindIntersect = ''chain_sync_find_intersect''"
  | "event_kind_str ChainSyncIntersectFound = ''chain_sync_intersect_found''"
  | "event_kind_str ChainSyncIntersectNotFound = ''chain_sync_intersect_not_found''"
  | "event_kind_str ChainSyncRequestNext = ''chain_sync_request_next''"
  | "event_kind_str ChainSyncRollForward = ''chain_sync_roll_forward''"
  | "event_kind_str ChainSyncRollBackward = ''chain_sync_roll_backward''"
  | "event_kind_str ChainSyncAwaitReply = ''chain_sync_await_reply''"
  | "event_kind_str ChainSyncDone = ''chain_sync_done''"
  | "event_kind_str ChainSyncSessionSummary = ''chain_sync_session_summary''"
  | "event_kind_str BlockFetchStarted = ''block_fetch_started''"
  | "event_kind_str BlockFetchRequestRange = ''block_fetch_request_range''"
  | "event_kind_str BlockFetchNoBlocks = ''block_fetch_no_blocks''"
  | "event_kind_str BlockFetchStartBatch = ''block_fetch_start_batch''"
  | "event_kind_str BlockFetchBlock = ''block_fetch_block''"
  | "event_kind_str BlockFetchBatchDone = ''block_fetch_batch_done''"
  | "event_kind_str BlockFetchClientDone = ''block_fetch_client_done''"
  | "event_kind_str BlockFetchSessionSummary = ''block_fetch_session_summary''"
  | "event_kind_str ProtocolWorkersStarted = ''protocol_workers_started''"
  | "event_kind_str ScenarioStarted = ''scenario_started''"
  | "event_kind_str QueryTipStarted = ''query_tip_started''"
  | "event_kind_str QueryTipCompleted = ''query_tip_completed''"
  | "event_kind_str RepeatIterationStarted = ''repeat_iteration_started''"
  | "event_kind_str RepeatIterationCompleted = ''repeat_iteration_completed''"
  | "event_kind_str VariableSet = ''variable_set''"
  | "event_kind_str VariableReferenced = ''variable_referenced''"
  | "event_kind_str ScenarioCompleted = ''scenario_completed''"
  | "event_kind_str StepStarted = ''step_started''"
  | "event_kind_str StepCompleted = ''step_completed''"
  | "event_kind_str AssertionPassed = ''assertion_passed''"
  | "event_kind_str AssertionFailed = ''assertion_failed''"
  | "event_kind_str TxSubmissionMessage = ''tx_submission_message''"
  | "event_kind_str KeepAliveSent = ''keep_alive_sent''"
  | "event_kind_str KeepAliveReceived = ''keep_alive_received''"
  | "event_kind_str PeerSharingMessage = ''peer_sharing_message''"
  | "event_kind_str ResponseRuleApplied = ''response_rule_applied''"
  | "event_kind_str ServerBlockFetchStarted = ''server_block_fetch_started''"
  | "event_kind_str ServerBlockFetchCompleted = ''server_block_fetch_completed''"
  | "event_kind_str ParallelStarted = ''parallel_started''"
  | "event_kind_str ParallelBranchStarted = ''parallel_branch_started''"
  | "event_kind_str ParallelBranchCompleted = ''parallel_branch_completed''"
  | "event_kind_str ParallelBranchAborted = ''parallel_branch_aborted''"
  | "event_kind_str ParallelBranchFailed = ''parallel_branch_failed''"
  | "event_kind_str ParallelCompleted = ''parallel_completed''"
  | "event_kind_str ServerBearerAccepted = ''server_bearer_accepted''"
  | "event_kind_str ServerListenStarted = ''server_listen_started''"
  | "event_kind_str ServerListenStopped = ''server_listen_stopped''"
  | "event_kind_str ServerConnectionAccepted = ''server_connection_accepted''"
  | "event_kind_str ServerHandshakeAccepted = ''server_handshake_accepted''"
  | "event_kind_str ServerChainSyncStarted = ''server_chain_sync_started''"
  | "event_kind_str ServerChainSyncCompleted = ''server_chain_sync_completed''"
  | "event_kind_str NetworkDeclared = ''network_declared''"
  | "event_kind_str SlotAdvanced = ''slot_advanced''"
  | "event_kind_str PeerStateInitialized = ''peer_state_initialized''"
  | "event_kind_str PeerChainExtended = ''peer_chain_extended''"
  | "event_kind_str ProductionRuleFired = ''production_rule_fired''"
  | "event_kind_str PeerProducedBlock = ''peer_produced_block''"
  | "event_kind_str PeerCastVote = ''peer_cast_vote''"
  | "event_kind_str PeerForkedChain = ''peer_forked_chain''"
  | "event_kind_str PeerJoinedNetwork = ''peer_joined_network''"
  | "event_kind_str PeerLeftNetwork = ''peer_left_network''"
  | "event_kind_str PeerNetworkEvent = ''peer_network_event''"
  | "event_kind_str ServerLeiosNotifyStarted = ''server_leios_notify_started''"
  | "event_kind_str ServerLeiosNotifyCompleted = ''server_leios_notify_completed''"
  | "event_kind_str ServerLeiosFetchStarted = ''server_leios_fetch_started''"
  | "event_kind_str ServerLeiosFetchCompleted = ''server_leios_fetch_completed''"
  | "event_kind_str LeiosNotifyStarted = ''leios_notify_started''"
  | "event_kind_str LeiosNotifyBlockAnnouncement = ''leios_notify_block_announcement''"
  | "event_kind_str LeiosNotifyBlockOffer = ''leios_notify_block_offer''"
  | "event_kind_str LeiosNotifyBlockTxsOffer = ''leios_notify_block_txs_offer''"
  | "event_kind_str LeiosNotifyVotes = ''leios_notify_votes''"
  | "event_kind_str LeiosNotifyDone = ''leios_notify_done''"
  | "event_kind_str LeiosNotifySessionSummary = ''leios_notify_session_summary''"
  | "event_kind_str LeiosFetchStarted = ''leios_fetch_started''"
  | "event_kind_str LeiosFetchBlockRequest = ''leios_fetch_block_request''"
  | "event_kind_str LeiosFetchBlock = ''leios_fetch_block''"
  | "event_kind_str LeiosFetchDone = ''leios_fetch_done''"
  | "event_kind_str LeiosFetchSessionSummary = ''leios_fetch_session_summary''"

end
