(* ===== verification/Trace.thy ===== *)
theory Trace
  imports Wire Event_Kind
begin

text \<open>
  The trace (\<open>trace.rs\<close>) and the world the harness acts on. A session function is a function
  of the world: the trace file and the in-memory event buffer, the bytes put on the wire, the
  scenario's slot counter, the sleeps, and the environment's answers (whether the n-th write to
  the trace file and the n-th send fail, what the clock reads). Wall-clock time stamps of events
  are left out of the model.
\<close>

section \<open>Events\<close>

datatype direction = Sent | Received | Internal

primrec direction_str :: "direction \<Rightarrow> string" where
  "direction_str Sent = ''sent''"
| "direction_str Received = ''received''"
| "direction_str Internal = ''internal''"

record trace_event =
  te_kind :: event_kind
  te_direction :: direction
  te_connection :: "string option"
  te_peer_id :: "string option"
  te_slot :: "u64 option"
  te_mini_protocol :: "string option"
  te_state_before :: "string option"
  te_state_after :: "string option"
  te_payload :: json

definition new_event :: "event_kind \<Rightarrow> direction \<Rightarrow> json \<Rightarrow> trace_event" where
  "new_event k d p = \<lparr>te_kind = k, te_direction = d, te_connection = None, te_peer_id = None,
     te_slot = None, te_mini_protocol = None, te_state_before = None, te_state_after = None,
     te_payload = p\<rparr>"

definition with_states :: "string \<Rightarrow> string \<Rightarrow> string \<Rightarrow> trace_event \<Rightarrow> trace_event" where
  "with_states mini_protocol before after e =
     e\<lparr>te_mini_protocol := Some mini_protocol, te_state_before := Some before,
       te_state_after := Some after\<rparr>"

definition with_protocol :: "string \<Rightarrow> trace_event \<Rightarrow> trace_event" where
  "with_protocol mini_protocol e = e\<lparr>te_mini_protocol := Some mini_protocol\<rparr>"

definition with_connection :: "string \<Rightarrow> trace_event \<Rightarrow> trace_event" where
  "with_connection c e = e\<lparr>te_connection := Some c\<rparr>"

definition with_peer_id :: "string \<Rightarrow> trace_event \<Rightarrow> trace_event" where
  "with_peer_id p e = e\<lparr>te_peer_id := Some p\<rparr>"

definition with_slot :: "u64 \<Rightarrow> trace_event \<Rightarrow> trace_event" where
  "with_slot s e = e\<lparr>te_slot := Some s\<rparr>"

text \<open>\<open>serde_json::to_value(&event)\<close>: absent options are skipped.\<close>

definition opt_field :: "string \<Rightarrow> ('a \<Rightarrow> json) \<Rightarrow> 'a option \<Rightarrow> (string \<times> json) list" where
  "opt_field k f v = (case v of None \<Rightarrow> [] | Some x \<Rightarrow> [(k, f x)])"

definition trace_event_to_value :: "trace_event \<Rightarrow> json" where
  "trace_event_to_value e = jobj (
     [(''kind'', JString (event_kind_str (te_kind e))),
      (''direction'', JString (direction_str (te_direction e)))]
     @ opt_field ''connection'' JString (te_connection e)
     @ opt_field ''peer_id'' JString (te_peer_id e)
     @ opt_field ''slot'' jnum (te_slot e)
     @ opt_field ''mini_protocol'' JString (te_mini_protocol e)
     @ opt_field ''state_before'' JString (te_state_before e)
     @ opt_field ''state_after'' JString (te_state_after e)
     @ [(''payload'', te_payload e)])"

section \<open>The world\<close>

record world =
  trace_file :: "trace_event list"
  event_buffer :: "json list"
  write_attempts :: nat
  wire_out :: "wire list"
  send_attempts :: nat
  slot_cell :: u64
  slept_secs :: "u64 list"
  clock_reads :: nat
  env_write_err :: "nat \<Rightarrow> string option"
  env_send_err :: "nat \<Rightarrow> string option"
  env_clock :: "nat \<Rightarrow> u64"

type_synonym 'a io = "world \<Rightarrow> 'a res \<times> world"

text \<open>\<open>m?\<close> followed by the rest, \<open>let _ = m;\<close> followed by the rest, and the three ends.\<close>

definition try_io :: "'a io \<Rightarrow> ('a \<Rightarrow> 'b io) \<Rightarrow> 'b io" where
  "try_io m k w = (case m w of
     (Ok x, w') \<Rightarrow> k x w' | (Err e, w') \<Rightarrow> (Err e, w') | (Panic, w') \<Rightarrow> (Panic, w'))"

definition ignore_io :: "'a io \<Rightarrow> 'b io \<Rightarrow> 'b io" where
  "ignore_io m k w = (case m w of
     (Ok _, w') \<Rightarrow> k w' | (Err _, w') \<Rightarrow> k w' | (Panic, w') \<Rightarrow> (Panic, w'))"

definition ret :: "'a \<Rightarrow> 'a io" where
  "ret x w = (Ok x, w)"

definition bail :: "string \<Rightarrow> 'a io" where
  "bail m w = (anyhow m, w)"

definition lift_res :: "'a res \<Rightarrow> 'a io" where
  "lift_res r w = (r, w)"

text \<open>\<open>tokio::time::sleep\<close> and \<open>started_at.elapsed().as_millis()\<close>\<close>

definition sleep_secs :: "u64 \<Rightarrow> unit io" where
  "sleep_secs n w = (Ok (), w\<lparr>slept_secs := slept_secs w @ [n]\<rparr>)"

definition elapsed_ms :: "u64 io" where
  "elapsed_ms w = (Ok (env_clock w (clock_reads w)), w\<lparr>clock_reads := Suc (clock_reads w)\<rparr>)"

text \<open>A send on a codec, with the caller's prefix for the error message.\<close>

definition send_wire :: "string \<Rightarrow> wire \<Rightarrow> unit io" where
  "send_wire prefix m w =
     (case env_send_err w (send_attempts w) of
        None \<Rightarrow> (Ok (), w\<lparr>wire_out := wire_out w @ [m], send_attempts := Suc (send_attempts w)\<rparr>)
      | Some e \<Rightarrow> (anyhow (prefix @ e), w\<lparr>send_attempts := Suc (send_attempts w)\<rparr>))"

section \<open>The tracer\<close>

text \<open>
  Every clone of a \<open>Tracer\<close> shares the file and the buffer, which live in the world; a clone
  carries its own peer label and, when wired to it, a handle to the scenario's slot counter.
\<close>

datatype slot_handle = SlotHandle

record tracer =
  tc_peer_id :: "string option"
  tc_current_slot :: "slot_handle option"

definition tracer_open :: tracer where
  "tracer_open = \<lparr>tc_peer_id = None, tc_current_slot = None\<rparr>"

definition or_else :: "'a option \<Rightarrow> 'a option \<Rightarrow> 'a option" where
  "or_else a b = (case a of Some x \<Rightarrow> Some x | None \<Rightarrow> b)"

definition for_peer_opt :: "tracer \<Rightarrow> string option \<Rightarrow> tracer" where
  "for_peer_opt t p = t\<lparr>tc_peer_id := or_else p (tc_peer_id t)\<rparr>"

definition with_slot_tracker :: "tracer \<Rightarrow> slot_handle option \<Rightarrow> tracer" where
  "with_slot_tracker t s = t\<lparr>tc_current_slot := or_else s (tc_current_slot t)\<rparr>"

text \<open>The stamps \<open>emit\<close> puts on an event that carries none of its own.\<close>

definition stamp :: "tracer \<Rightarrow> u64 \<Rightarrow> trace_event \<Rightarrow> trace_event" where
  "stamp t now e =
     (let e1 = (if te_peer_id e = None then e\<lparr>te_peer_id := tc_peer_id t\<rparr> else e)
      in if te_slot e1 = None then e1\<lparr>te_slot := map_option (\<lambda>_. now) (tc_current_slot t)\<rparr> else e1)"

definition emit :: "tracer \<Rightarrow> trace_event \<Rightarrow> unit io" where
  "emit t ev w =
     (let e = stamp t (slot_cell w) ev;
          w1 = w\<lparr>event_buffer := event_buffer w @ [trace_event_to_value e],
                 write_attempts := Suc (write_attempts w)\<rparr>
      in case env_write_err w (write_attempts w) of
           None \<Rightarrow> (Ok (), w1\<lparr>trace_file := trace_file w @ [e]\<rparr>)
         | Some msg \<Rightarrow> (anyhow msg, w1))"

definition drain_buffer :: "json list io" where
  "drain_buffer w = (Ok (event_buffer w), w\<lparr>event_buffer := []\<rparr>)"

end
