(* ===== verification/Io_Rules.thy ===== *)
theory Io_Rules
  imports Trace
begin

text \<open>
  Reasoning about world-passing code: a locale for relations between the world before and after
  that every combinator preserves, its interpretations (the trace and the wire only grow, the
  environment and the slot counter stay), and the closed forms of the primitives in a reliable
  world, where no write and no send fails.
\<close>

section \<open>Relations that sequencing keeps\<close>

definition keeps :: "(world \<Rightarrow> world \<Rightarrow> bool) \<Rightarrow> 'a io \<Rightarrow> bool" where
  "keeps R m \<longleftrightarrow> (\<forall>w. R w (snd (m w)))"

lemma keepsD: "keeps R m \<Longrightarrow> m w = (r, w') \<Longrightarrow> R w w'"
  by (metis keeps_def snd_conv)

locale world_preorder =
  fixes R :: "world \<Rightarrow> world \<Rightarrow> bool"
  assumes R_refl: "R w w"
    and R_trans: "R u v \<Longrightarrow> R v w \<Longrightarrow> R u w"
begin

lemma keeps_ret: "keeps R (ret x)"
  by (simp add: keeps_def ret_def R_refl)

lemma keeps_bail: "keeps R (bail m)"
  by (simp add: keeps_def bail_def R_refl)

lemma keeps_lift_res: "keeps R (lift_res r)"
  by (simp add: keeps_def lift_res_def R_refl)

lemma keeps_try_io:
  assumes "keeps R m" "\<And>x. keeps R (k x)"
  shows "keeps R (try_io m k)"
  unfolding keeps_def
proof
  fix w
  obtain r w' where m: "m w = (r, w')" by (cases "m w")
  with assms(1) have "R w w'" by (rule keepsD)
  then show "R w (snd (try_io m k w))"
    using m assms(2) by (cases r) (auto simp: try_io_def keeps_def intro: R_trans)
qed

lemma keeps_ignore_io:
  assumes "keeps R m" "keeps R k"
  shows "keeps R (ignore_io m k)"
  unfolding keeps_def
proof
  fix w
  obtain r w' where m: "m w = (r, w')" by (cases "m w")
  with assms(1) have "R w w'" by (rule keepsD)
  then show "R w (snd (ignore_io m k w))"
    using m assms(2) by (cases r) (auto simp: ignore_io_def keeps_def intro: R_trans)
qed

lemma keeps_if: "keeps R m \<Longrightarrow> keeps R n \<Longrightarrow> keeps R (if b then m else n)"
  by simp

lemma keeps_case_option:
  "keeps R m \<Longrightarrow> (\<And>x. keeps R (k x)) \<Longrightarrow> keeps R (case v of None \<Rightarrow> m | Some x \<Rightarrow> k x)"
  by (cases v) auto

lemma keeps_case_prod: "(\<And>a b. keeps R (f a b)) \<Longrightarrow> keeps R (case p of (a, b) \<Rightarrow> f a b)"
  by (cases p) auto

lemmas keeps_rules = keeps_ret keeps_bail keeps_lift_res keeps_try_io keeps_ignore_io keeps_if
  keeps_case_option keeps_case_prod

end

text \<open>The trace file and the wire only grow, and the environment stays.\<close>

definition extends :: "world \<Rightarrow> world \<Rightarrow> bool" where
  "extends w w' \<longleftrightarrow>
     (\<exists>es. trace_file w' = trace_file w @ es) \<and> (\<exists>ms. wire_out w' = wire_out w @ ms) \<and>
     env_write_err w' = env_write_err w \<and> env_send_err w' = env_send_err w \<and>
     env_clock w' = env_clock w"

text \<open>A session of a mini-protocol also leaves the slot counter alone.\<close>

definition session_extends :: "world \<Rightarrow> world \<Rightarrow> bool" where
  "session_extends w w' \<longleftrightarrow> extends w w' \<and> slot_cell w' = slot_cell w \<and>
     (\<exists>vs. event_buffer w' = event_buffer w @ vs)"

lemma extends_refl: "extends w w"
  by (simp add: extends_def)

lemma extends_trans: "extends u v \<Longrightarrow> extends v w \<Longrightarrow> extends u w"
  unfolding extends_def by (metis append.assoc)

interpretation ext: world_preorder extends
  by unfold_locales (rule extends_refl, rule extends_trans)

lemma session_extends_trans: "session_extends u v \<Longrightarrow> session_extends v w \<Longrightarrow> session_extends u w"
  unfolding session_extends_def using extends_trans by (metis append.assoc)

interpretation sess: world_preorder session_extends
  by unfold_locales (simp add: session_extends_def extends_refl, rule session_extends_trans)

lemma sess_emit: "keeps session_extends (emit t e)"
  by (simp add: keeps_def emit_def Let_def session_extends_def extends_def split: option.split)

lemma sess_send_wire: "keeps session_extends (send_wire p m)"
  by (simp add: keeps_def send_wire_def session_extends_def extends_def split: option.split)

lemma sess_sleep: "keeps session_extends (sleep_secs n)"
  by (simp add: keeps_def sleep_secs_def session_extends_def extends_def)

lemma sess_elapsed: "keeps session_extends elapsed_ms"
  by (simp add: keeps_def elapsed_ms_def session_extends_def extends_def)

lemma ext_drain: "keeps extends drain_buffer"
  by (simp add: keeps_def drain_buffer_def extends_def)

lemma session_imp_extends: "keeps session_extends m \<Longrightarrow> keeps extends m"
  by (simp add: keeps_def session_extends_def)

lemmas sess_prims = sess_emit sess_send_wire sess_sleep sess_elapsed
lemmas sess_rules = sess.keeps_rules sess_prims
lemmas ext_rules = ext.keeps_rules ext_drain sess_prims [THEN session_imp_extends]

section \<open>A reliable world\<close>

definition reliable :: "world \<Rightarrow> bool" where
  "reliable w \<longleftrightarrow> (\<forall>n. env_write_err w n = None) \<and> (\<forall>n. env_send_err w n = None)"

definition logged :: "tracer \<Rightarrow> trace_event \<Rightarrow> world \<Rightarrow> world" where
  "logged t ev w =
     (let e = stamp t (slot_cell w) ev
      in w\<lparr>event_buffer := event_buffer w @ [trace_event_to_value e],
           write_attempts := Suc (write_attempts w), trace_file := trace_file w @ [e]\<rparr>)"

definition put_wire :: "wire \<Rightarrow> world \<Rightarrow> world" where
  "put_wire m w = w\<lparr>wire_out := wire_out w @ [m], send_attempts := Suc (send_attempts w)\<rparr>"

definition slept :: "u64 \<Rightarrow> world \<Rightarrow> world" where
  "slept n w = w\<lparr>slept_secs := slept_secs w @ [n]\<rparr>"

definition ticked :: "world \<Rightarrow> world" where
  "ticked w = w\<lparr>clock_reads := Suc (clock_reads w)\<rparr>"

lemma emit_reliable [run_simps]: "reliable w \<Longrightarrow> emit t ev w = (Ok (), logged t ev w)"
  by (simp add: emit_def reliable_def logged_def Let_def)

lemma send_wire_reliable [run_simps]: "reliable w \<Longrightarrow> send_wire p m w = (Ok (), put_wire m w)"
  by (simp add: send_wire_def reliable_def put_wire_def)

lemma sleep_secs_run [run_simps]: "sleep_secs n w = (Ok (), slept n w)"
  by (simp add: sleep_secs_def slept_def)

lemma elapsed_ms_run [run_simps]: "elapsed_ms w = (Ok (env_clock w (clock_reads w)), ticked w)"
  by (simp add: elapsed_ms_def ticked_def)

lemma run_combinators [run_simps]:
  "m w = (Ok x, w') \<Longrightarrow> try_io m k w = k x w'"
  "m w = (Err e, w') \<Longrightarrow> try_io m k w = (Err e, w')"
  "m w = (Panic, w') \<Longrightarrow> try_io m k w = (Panic, w')"
  "m w = (Ok x, w') \<Longrightarrow> ignore_io m j w = j w'"
  "m w = (Err e, w') \<Longrightarrow> ignore_io m j w = j w'"
  "ret x w = (Ok x, w)" "bail msg w = (anyhow msg, w)" "lift_res r w = (r, w)"
  by (simp_all add: try_io_def ignore_io_def ret_def bail_def lift_res_def)

lemma reliable_updates [simp]:
  "reliable (logged t ev w) = reliable w" "reliable (put_wire m w) = reliable w"
  "reliable (slept n w) = reliable w" "reliable (ticked w) = reliable w"
  by (simp_all add: reliable_def logged_def put_wire_def slept_def ticked_def Let_def)

lemma wire_out_updates [simp]:
  "wire_out (logged t ev w) = wire_out w" "wire_out (put_wire m w) = wire_out w @ [m]"
  "wire_out (slept n w) = wire_out w" "wire_out (ticked w) = wire_out w"
  by (simp_all add: logged_def put_wire_def slept_def ticked_def Let_def)

lemma trace_file_updates [simp]:
  "trace_file (logged t ev w) = trace_file w @ [stamp t (slot_cell w) ev]"
  "trace_file (put_wire m w) = trace_file w"
  "trace_file (slept n w) = trace_file w" "trace_file (ticked w) = trace_file w"
  by (simp_all add: logged_def put_wire_def slept_def ticked_def Let_def)

lemma slot_cell_updates [simp]:
  "slot_cell (logged t ev w) = slot_cell w" "slot_cell (put_wire m w) = slot_cell w"
  "slot_cell (slept n w) = slot_cell w" "slot_cell (ticked w) = slot_cell w"
  by (simp_all add: logged_def put_wire_def slept_def ticked_def Let_def)

lemma event_buffer_updates [simp]:
  "event_buffer (logged t ev w) =
     event_buffer w @ [trace_event_to_value (stamp t (slot_cell w) ev)]"
  "event_buffer (put_wire m w) = event_buffer w"
  "event_buffer (slept n w) = event_buffer w" "event_buffer (ticked w) = event_buffer w"
  by (simp_all add: logged_def put_wire_def slept_def ticked_def Let_def)

lemma slept_updates [simp]:
  "slept_secs (logged t ev w) = slept_secs w" "slept_secs (put_wire m w) = slept_secs w"
  "slept_secs (slept n w) = slept_secs w @ [n]" "slept_secs (ticked w) = slept_secs w"
  by (simp_all add: logged_def put_wire_def slept_def ticked_def Let_def)

section \<open>Stamps\<close>

lemma stamp_fields [simp]:
  "te_kind (stamp t n e) = te_kind e" "te_direction (stamp t n e) = te_direction e"
  "te_payload (stamp t n e) = te_payload e" "te_state_before (stamp t n e) = te_state_before e"
  "te_state_after (stamp t n e) = te_state_after e"
  "te_mini_protocol (stamp t n e) = te_mini_protocol e"
  "te_connection (stamp t n e) = te_connection e"
  by (simp_all add: stamp_def Let_def)

lemma event_fields [simp]:
  "te_kind (new_event k d p) = k" "te_direction (new_event k d p) = d"
  "te_payload (new_event k d p) = p" "te_state_before (new_event k d p) = None"
  "te_state_after (new_event k d p) = None" "te_slot (new_event k d p) = None"
  "te_kind (with_states m b a e) = te_kind e" "te_direction (with_states m b a e) = te_direction e"
  "te_payload (with_states m b a e) = te_payload e"
  "te_state_before (with_states m b a e) = Some b" "te_state_after (with_states m b a e) = Some a"
  "te_kind (with_protocol m e) = te_kind e" "te_direction (with_protocol m e) = te_direction e"
  "te_payload (with_protocol m e) = te_payload e"
  "te_state_before (with_protocol m e) = te_state_before e"
  "te_state_after (with_protocol m e) = te_state_after e"
  "te_kind (with_slot s e) = te_kind e" "te_payload (with_slot s e) = te_payload e"
  "te_slot (with_slot s e) = Some s"
  "te_kind (with_connection c e) = te_kind e" "te_payload (with_connection c e) = te_payload e"
  "te_kind (with_peer_id q e) = te_kind e" "te_payload (with_peer_id q e) = te_payload e"
  by (simp_all add: new_event_def with_states_def with_protocol_def with_slot_def
      with_connection_def with_peer_id_def)

lemma json_get_kind:
  "json_get ''kind'' (trace_event_to_value e) = Some (JString (event_kind_str (te_kind e)))"
  by (simp add: trace_event_to_value_def json_get_jobj opt_field_def split: option.split)

end
