(* ===== verification/Script.thy ===== *)
theory Script
  imports ResponseRules Io_Rules
begin

text \<open>
  What the scripted servers share: the receive loop, the trace event that names the rule that was
  applied, and the contract of a loop body that takes its rules from a script. The contract is a
  locale; the servers interpret it on their bodies.
\<close>

section \<open>The receive loop\<close>

text \<open>
  The inbox is what \<open>recv\<close> returns, message by message, an error included; its end is a closed
  connection. The body says whether the session is over.
\<close>

fun serve_loop :: "('r \<Rightarrow> 's \<Rightarrow> ('s \<times> bool) io) \<Rightarrow> 'r res list \<Rightarrow> 's \<Rightarrow> 's io" where
  "serve_loop body [] s = ret s"
| "serve_loop body (Err e # inbox) s = ret s"
| "serve_loop body (Panic # inbox) s = lift_res Panic"
| "serve_loop body (Ok r # inbox) s =
     try_io (body r s) (\<lambda>(s', finished). if finished then ret s' else serve_loop body inbox s')"

definition rule_applied_event :: "usize \<Rightarrow> script_rule \<Rightarrow> trace_event" where
  "rule_applied_event pos rule = new_event ResponseRuleApplied Internal (jobj [
     (''rule_index'', jlen pos), (''on'', JString (on_str rule)),
     (''send'', JString (send_kind_str (sr_send rule)))])"

text \<open>A fresh world in which no write and no send fails.\<close>

definition fresh_world :: world where
  "fresh_world = \<lparr>trace_file = [], event_buffer = [], write_attempts = 0, wire_out = [],
     send_attempts = 0, slot_cell = 0, slept_secs = [], clock_reads = 0,
     env_write_err = (\<lambda>_. None), env_send_err = (\<lambda>_. None), env_clock = (\<lambda>_. 0)\<rparr>"

lemma reliable_fresh_world [simp]: "reliable fresh_world" "wire_out fresh_world = []" "trace_file fresh_world = []"
  by (simp_all add: reliable_def fresh_world_def)

section \<open>Rules in the trace\<close>

text \<open>The positions of the applied rules, read off the trace.\<close>

definition applied_position :: "trace_event \<Rightarrow> nat list" where
  "applied_position e =
     (if te_kind e = ResponseRuleApplied then
        (case Option.bind (json_get ''rule_index'' (te_payload e)) as_u64 of Some n \<Rightarrow> [unat n] | None \<Rightarrow> [])
      else [])"

definition applied_rules :: "trace_event list \<Rightarrow> nat list" where
  "applied_rules es = concat (map applied_position es)"

lemma applied_rules_simps [simp]:
  "applied_rules [] = []" "applied_rules (e # es) = applied_position e @ applied_rules es"
  "applied_rules (es @ es') = applied_rules es @ applied_rules es'"
  by (simp_all add: applied_rules_def)

lemma applied_position_stamp [simp]: "applied_position (stamp t n e) = applied_position e"
  by (simp add: applied_position_def)

lemma applied_position_other: "te_kind e \<noteq> ResponseRuleApplied \<Longrightarrow> applied_position e = []"
  by (simp add: applied_position_def)

lemma applied_position_event:
  "pos < 2 ^ 64 \<Longrightarrow> applied_position (rule_applied_event pos rule) = [pos]"
  by (simp add: applied_position_def rule_applied_event_def json_get_jobj jlen_def
      unsigned_of_nat take_bit_nat_eq_self)

text \<open>Steps that apply no rule.\<close>

definition quiet :: "world \<Rightarrow> world \<Rightarrow> bool" where
  "quiet w w' \<longleftrightarrow> (\<exists>es. trace_file w' = trace_file w @ es \<and> applied_rules es = [])"

lemma quiet_trans: "quiet u v \<Longrightarrow> quiet v w \<Longrightarrow> quiet u w"
  unfolding quiet_def by fastforce

interpretation quiet: world_preorder quiet
  by unfold_locales (simp add: quiet_def, rule quiet_trans)

lemma quiet_emit: "te_kind e \<noteq> ResponseRuleApplied \<Longrightarrow> keeps quiet (emit t e)"
  by (simp add: keeps_def emit_def Let_def quiet_def applied_position_other split: option.split)

lemma quiet_send_wire: "keeps quiet (send_wire p m)"
  by (simp add: keeps_def send_wire_def quiet_def split: option.split)

lemma quiet_sleep: "keeps quiet (sleep_secs n)"
  by (simp add: keeps_def sleep_secs_def quiet_def)

lemma quiet_elapsed: "keeps quiet elapsed_ms"
  by (simp add: keeps_def elapsed_ms_def quiet_def)

lemmas quiet_rules = quiet.keeps_rules quiet_emit quiet_send_wire quiet_sleep quiet_elapsed

lemma quiet_run: "keeps quiet m \<Longrightarrow> m w = (r, w') \<Longrightarrow>
    \<exists>es. trace_file w' = trace_file w @ es \<and> applied_rules es = []"
  using keepsD [of quiet m w r w'] by (simp add: quiet_def)

section \<open>The contract of a scripted body\<close>

text \<open>
  The positions that a body may report for one request from rule index \<open>i\<close>: none, or one at or
  after \<open>i\<close>, after which the index has moved past it unless the rule is repeatable.
\<close>

definition rule_step :: "script_rule list \<Rightarrow> nat \<Rightarrow> nat list \<Rightarrow> nat \<Rightarrow> bool" where
  "rule_step rules i ps j \<longleftrightarrow>
     (ps = [] \<and> j = i) \<or>
     (\<exists>pos. ps = [pos] \<and> i \<le> pos \<and> pos < length rules \<and>
        j = (if sr_repeatable (rules ! pos) then i else Suc pos))"

text \<open>In order, and a rule that is not repeatable never again.\<close>

definition in_script_order :: "script_rule list \<Rightarrow> nat list \<Rightarrow> bool" where
  "in_script_order rules ps \<longleftrightarrow>
     sorted_wrt (\<lambda>a b. sr_repeatable (rules ! a) \<or> a < b) ps \<and> (\<forall>p \<in> set ps. p < length rules)"

locale script_server =
  fixes rule_index :: "'s \<Rightarrow> nat"
    and body :: "'r \<Rightarrow> 's \<Rightarrow> ('s \<times> bool) io"
    and rules :: "script_rule list"
  assumes body_step: "body r s w = (res, w') \<Longrightarrow>
    \<exists>es. trace_file w' = trace_file w @ es \<and>
      (case res of
         Ok (s', _) \<Rightarrow> rule_step rules (rule_index s) (applied_rules es) (rule_index s')
       | _ \<Rightarrow> (\<exists>j. rule_step rules (rule_index s) (applied_rules es) j))"
begin

lemma loop_in_order:
  "serve_loop body inbox s w = (res, w') \<Longrightarrow>
     \<exists>es. trace_file w' = trace_file w @ es \<and> in_script_order rules (applied_rules es) \<and>
       (\<forall>p \<in> set (applied_rules es). rule_index s \<le> p)"
proof (induction inbox arbitrary: s w)
  case Nil
  then show ?case by (auto simp: ret_def in_script_order_def)
next
  case (Cons m inbox)
  show ?case
  proof (cases m)
    case (Ok r)
    obtain res1 w1 where b: "body r s w = (res1, w1)" by (cases "body r s w")
    from body_step [OF b] obtain es1 where es1: "trace_file w1 = trace_file w @ es1"
      and step: "case res1 of
           Ok (s', _) \<Rightarrow> rule_step rules (rule_index s) (applied_rules es1) (rule_index s')
         | _ \<Rightarrow> (\<exists>j. rule_step rules (rule_index s) (applied_rules es1) j)" by blast
    have single: "in_script_order rules ps \<and> (\<forall>p \<in> set ps. i \<le> p)" if "rule_step rules i ps j" for i ps j
      using that by (auto simp: rule_step_def in_script_order_def)
    show ?thesis
    proof (cases "\<exists>s'. res1 = res.Ok (s', False)")
      case True
      then obtain s' where s': "res1 = res.Ok (s', False)" by blast
      with Cons.prems Ok b have "serve_loop body inbox s' w1 = (res, w')" by (simp add: try_io_def)
      from Cons.IH [OF this] obtain es2 where es2: "trace_file w' = trace_file w1 @ es2"
        "in_script_order rules (applied_rules es2)" "\<forall>p \<in> set (applied_rules es2). rule_index s' \<le> p"
        by blast
      from step s' have st: "rule_step rules (rule_index s) (applied_rules es1) (rule_index s')" by simp
      show ?thesis
      proof (intro exI conjI)
        show "trace_file w' = trace_file w @ (es1 @ es2)" using es1 es2 by simp
        show "in_script_order rules (applied_rules (es1 @ es2))"
          "\<forall>p \<in> set (applied_rules (es1 @ es2)). rule_index s \<le> p"
          using st es2 by (auto simp: rule_step_def in_script_order_def sorted_wrt_append split: if_splits)
      qed
    next
      case False
      then have "w' = w1"
        using Cons.prems Ok b by (auto simp: try_io_def ret_def split: res.splits if_splits)
      moreover obtain j where "rule_step rules (rule_index s) (applied_rules es1) j"
        using step by (auto split: res.splits)
      ultimately show ?thesis using es1 single by blast
    qed
  next
    case (Err e)
    with Cons.prems show ?thesis by (auto simp: ret_def in_script_order_def)
  next
    case Panic
    with Cons.prems show ?thesis by (auto simp: lift_res_def in_script_order_def)
  qed
qed

text \<open>A session: a start event, the loop, a closing event.\<close>

lemma session_in_order:
  assumes start: "keeps quiet start" and finish: "\<And>s. keeps quiet (finish s)"
    and run: "try_io start (\<lambda>_. try_io (serve_loop body inbox s) finish) w = (res, w')"
  shows "\<exists>es. trace_file w' = trace_file w @ es \<and> in_script_order rules (applied_rules es)"
proof -
  obtain r1 w1 where e1: "start w = (r1, w1)" by (cases "start w")
  from quiet_run [OF start e1] obtain es1
    where es1: "trace_file w1 = trace_file w @ es1" "applied_rules es1 = []" by blast
  obtain r2 w2 where e2: "serve_loop body inbox s w1 = (r2, w2)" by (cases "serve_loop body inbox s w1")
  from loop_in_order [OF e2] obtain es2
    where es2: "trace_file w2 = trace_file w1 @ es2" "in_script_order rules (applied_rules es2)" by blast
  have stop1: ?thesis if "w' = w1"
    using that es1 by (intro exI [of _ es1]) (simp add: in_script_order_def)
  have stop2: ?thesis if "w' = w2"
    using that es1 es2 by (intro exI [of _ "es1 @ es2"]) simp
  show ?thesis
  proof (cases "\<exists>x. r1 = Ok x")
    case False
    with run e1 show ?thesis by (cases r1) (auto simp: try_io_def intro: stop1)
  next
    case True
    show ?thesis
    proof (cases "\<exists>s'. r2 = Ok s'")
      case False
      with run e1 e2 True show ?thesis by (cases r2) (auto simp: try_io_def intro: stop2)
    next
      case Ok: True
      then obtain s' where "r2 = res.Ok s'" by blast
      with run e1 e2 True have "finish s' w2 = (res, w')" by (auto simp: try_io_def)
      from quiet_run [OF finish this] obtain es3
        where "trace_file w' = trace_file w2 @ es3" "applied_rules es3 = []" by blast
      with es1 es2 show ?thesis by (intro exI [of _ "es1 @ es2 @ es3"]) simp
    qed
  qed
qed

end

section \<open>Proving the contract\<close>

text \<open>What every successful result of an action satisfies.\<close>

definition gives :: "('a \<Rightarrow> bool) \<Rightarrow> 'a io \<Rightarrow> bool" where
  "gives P m \<longleftrightarrow> (\<forall>w x w'. m w = (Ok x, w') \<longrightarrow> P x)"

lemma gives_ret: "P x \<Longrightarrow> gives P (ret x)"
  by (simp add: gives_def ret_def)

lemma gives_bail: "gives P (bail msg)"
  by (simp add: gives_def bail_def)

lemma gives_try_io: "(\<And>x. gives P (k x)) \<Longrightarrow> gives P (try_io m k)"
  by (auto simp: gives_def try_io_def split: prod.splits res.splits)

lemma gives_if: "gives P m \<Longrightarrow> gives P n \<Longrightarrow> gives P (if b then m else n)"
  by simp

lemma gives_case_option:
  "gives P m \<Longrightarrow> (\<And>x. gives P (k x)) \<Longrightarrow> gives P (case v of None \<Rightarrow> m | Some x \<Rightarrow> k x)"
  by (cases v) auto

lemma gives_case_prod: "(\<And>a b. gives P (f a b)) \<Longrightarrow> gives P (case p of (a, b) \<Rightarrow> f a b)"
  by (cases p) auto

lemmas gives_rules = gives_ret gives_bail gives_try_io gives_if gives_case_option gives_case_prod

lemma emit_trace:
  "emit t e w = (r, w') \<Longrightarrow>
     (r = Ok () \<and> trace_file w' = trace_file w @ [stamp t (slot_cell w) e]) \<or>
     ((\<exists>x. r = Err x) \<and> trace_file w' = trace_file w)"
  by (auto simp: emit_def Let_def anyhow_def split: option.splits)

lemma rule_step_Nil [simp]: "rule_step rules i [] j \<longleftrightarrow> j = i"
  by (simp add: rule_step_def)

lemma rule_step_ex [simp]: "Ex (rule_step rules i [])"
  by (rule exI [of _ i]) simp

text \<open>A body of the usual shape keeps the contract when its sends apply no rule themselves.\<close>

lemma scripted_body:
  assumes "te_kind ev \<noteq> ResponseRuleApplied" and len: "length rules < 2 ^ 64"
    and quiet: "\<And>rule idx. keeps quiet (exec rule idx)"
    and index: "\<And>rule idx. gives (\<lambda>x. rule_index (fst x) = idx) (exec rule idx)"
    and "rule_index s_done = i"
    and run: "try_io (emit t ev) (\<lambda>_. if d then ret (s_done, True)
       else case next_rule m rules i of
         None \<Rightarrow> bail msg
       | Some (pos, rule, idx) \<Rightarrow> try_io (emit t (rule_applied_event pos rule)) (\<lambda>_. exec rule idx)) w = (res, w')"
  shows "\<exists>es. trace_file w' = trace_file w @ es \<and>
      (case res of
         Ok (s', _) \<Rightarrow> rule_step rules i (applied_rules es) (rule_index s')
       | _ \<Rightarrow> (\<exists>j. rule_step rules i (applied_rules es) j))"
proof -
  obtain r1 w1 where e1: "emit t ev w = (r1, w1)" by (cases "emit t ev w")
  from emit_trace [OF e1] show ?thesis
  proof (elim disjE conjE exE)
    fix x assume "r1 = Err x" "trace_file w1 = trace_file w"
    with e1 run show ?thesis
      by (intro exI [of _ "[]"]) (auto simp: try_io_def rule_step_def)
  next
    assume ok: "r1 = Ok ()" and t1: "trace_file w1 = trace_file w @ [stamp t (slot_cell w) ev]"
    let ?e1 = "stamp t (slot_cell w) ev"
    have q1: "applied_rules [?e1] = []" using assms(1) by (simp add: applied_position_other)
    show ?thesis
    proof (cases "d \<or> next_rule m rules i = None")
      case True
      with e1 ok run t1 q1 assms(5) show ?thesis
        by (intro exI [of _ "[?e1]"])
          (auto simp: try_io_def rule_step_def ret_def bail_def anyhow_def split: if_splits)
    next
      case False
      then obtain pos rule idx where n: "next_rule m rules i = Some (pos, rule, idx)" and d: "\<not> d"
        by (metis prod_cases3 option.exhaust)
      note N = next_rule_SomeD [OF n]
      let ?e2 = "stamp t (slot_cell w1) (rule_applied_event pos rule)"
      have q2: "applied_rules [?e2] = [pos]" using N(2) len by (simp add: applied_position_event)
      have step: "rule_step rules i [pos] idx"
        using N(1,2,3,6) by (auto simp: rule_step_def)
      obtain r2 w2 where e2: "emit t (rule_applied_event pos rule) w1 = (r2, w2)"
        by (cases "emit t (rule_applied_event pos rule) w1")
      from emit_trace [OF e2] show ?thesis
      proof (elim disjE conjE exE)
        fix x assume "r2 = Err x" "trace_file w2 = trace_file w1"
        with e1 e2 ok run t1 q1 n d show ?thesis
          by (intro exI [of _ "[?e1]"]) (auto simp: try_io_def rule_step_def)
      next
        assume ok2: "r2 = Ok ()" and t2: "trace_file w2 = trace_file w1 @ [?e2]"
        with e1 e2 ok run n d have r: "exec rule idx w2 = (res, w')" by (simp add: try_io_def)
        from quiet_run [OF quiet r] obtain es where es: "trace_file w' = trace_file w2 @ es" "applied_rules es = []"
          by blast
        have "\<And>s' b. res = Ok (s', b) \<Longrightarrow> rule_index s' = idx"
          using index [of idx rule] r by (auto simp: gives_def)
        with es t1 t2 q1 q2 step show ?thesis
          by (intro exI [of _ "?e1 # ?e2 # es"]) (auto split: res.splits)
      qed
    qed
  qed
qed

end
