(* ===== verification/LeiosNotifyServer.thy ===== *)
theory LeiosNotifyServer
  imports Script
begin

text \<open>
  The Leios notification server (\<open>miniprotocols/leios_notify_server.rs\<close>): one scripted action per
  request of the client. The typed runner of \<open>net-core\<close> is behind the inbox and the sends.
\<close>

definition ln_protocol :: string where
  "ln_protocol = ''leios-notify''"

section \<open>Actions\<close>

record vote_spec =
  vs_slot :: u64
  vs_eb_hash :: string
  vs_voter_id :: u16
  vs_signature :: string

record ln_action =
  la_kind :: string
  la_header_bytes :: "string option"
  la_point :: "string option"
  la_eb_size :: "u32 option"
  la_votes :: "vote_spec list option"
  la_duration_secs :: "u64 option"
  la_bytes :: "string option"

definition ln_decode_hex_opt :: "string option \<Rightarrow> string \<Rightarrow> bytes res" where
  "ln_decode_hex_opt opt field =
     try_res (ok_or (''leios_notify_server: missing '' @ field) opt) (\<lambda>s.
       map_err (''leios_notify_server: '' @ field @ '': '') (decode_hex s))"

definition parse_nc_point :: "string \<Rightarrow> nc_point res" where
  "parse_nc_point s =
     (if s = ''origin'' then Ok NcOrigin
      else case split_once (CHR '':'') s of
        None \<Rightarrow> anyhow (''expected '' @ quoted ''origin'' @ '' or '' @ quoted ''slot:hex_hash'')
      | Some (slot_str, hash_str) \<Rightarrow>
          (case parse_u64 slot_str of
             Inl e \<Rightarrow> anyhow (''invalid slot: '' @ e)
           | Inr slot \<Rightarrow>
               try_res (decode_hex hash_str) (\<lambda>hash_vec.
                 if length hash_vec \<noteq> 32 then
                   anyhow (''point hash must be 32 bytes, got '' @ nat_to_string (length hash_vec))
                 else Ok (NcSpecific slot hash_vec))))"

definition ln_parse_point_opt :: "string option \<Rightarrow> string \<Rightarrow> nc_point res" where
  "ln_parse_point_opt opt field =
     try_res (ok_or (''leios_notify_server: missing '' @ field) opt) (\<lambda>s.
       map_err (''leios_notify_server: '' @ field @ '': '') (parse_nc_point s))"

definition build_vote :: "vote_spec \<Rightarrow> vote res" where
  "build_vote s =
     try_res (map_err ''vote eb_hash: '' (decode_hex (vs_eb_hash s))) (\<lambda>eb_hash.
     if length eb_hash \<noteq> 32 then
       anyhow (''vote eb_hash must be 32 bytes, got '' @ nat_to_string (length eb_hash))
     else
       try_res (map_err ''vote signature: '' (decode_hex (vs_signature s))) (\<lambda>sig.
         Ok \<lparr>vote_slot = vs_slot s, vote_eb_hash = eb_hash, vote_voter_id = vs_voter_id s,
             vote_signature = sig\<rparr>))"

definition build_votes :: "vote_spec list \<Rightarrow> vote list res" where
  "build_votes specs = mapM_res build_vote specs"

section \<open>The session\<close>

record ln_session =
  notifications_sent :: u64
  ln_actions :: "ln_action list"

definition ln_send :: "ln_message \<Rightarrow> unit io" where
  "ln_send m = send_wire ''leios_notify_server send: '' (LnWire m)"

definition ln_send_raw :: "bytes \<Rightarrow> unit io" where
  "ln_send_raw bs = send_wire ''leios_notify_server send_raw: '' (RawWire bs)"

definition ln_sent :: "event_kind \<Rightarrow> (string \<times> json) list \<Rightarrow> trace_event" where
  "ln_sent kind payload = with_protocol ln_protocol (new_event kind Sent (jobj payload))"

text \<open>A notification: the message, the count, the event.\<close>

definition ln_notify ::
    "tracer \<Rightarrow> ln_message \<Rightarrow> event_kind \<Rightarrow> (string \<times> json) list \<Rightarrow> ln_session \<Rightarrow> (bool \<times> ln_session) io" where
  "ln_notify t m kind payload s =
     try_io (ln_send m) (\<lambda>_.
     try_io (emit t (ln_sent kind payload)) (\<lambda>_.
     ret (False, s\<lparr>notifications_sent := notifications_sent s + 1\<rparr>)))"

definition ln_execute_action :: "tracer \<Rightarrow> ln_action \<Rightarrow> ln_session \<Rightarrow> (bool \<times> ln_session) io" where
  "ln_execute_action t a s =
     (if la_kind a = ''block_announcement'' then
        try_io (lift_res (ln_decode_hex_opt (la_header_bytes a) ''header_bytes'')) (\<lambda>raw.
        ln_notify t (MsgLeiosBlockAnnouncement raw) LeiosNotifyBlockAnnouncement [] s)
      else if la_kind a = ''block_offer'' then
        try_io (lift_res (ln_parse_point_opt (la_point a) ''point'')) (\<lambda>point.
        let eb_size = (case la_eb_size a of None \<Rightarrow> 0 | Some n \<Rightarrow> n) in
        ln_notify t (MsgLeiosBlockOffer point eb_size) LeiosNotifyBlockOffer [(''eb_size'', jnum (ucast eb_size))] s)
      else if la_kind a = ''block_txs_offer'' then
        try_io (lift_res (ln_parse_point_opt (la_point a) ''point'')) (\<lambda>point.
        ln_notify t (MsgLeiosBlockTxsOffer point) LeiosNotifyBlockTxsOffer [] s)
      else if la_kind a = ''votes'' then
        try_io (lift_res (build_votes (case la_votes a of None \<Rightarrow> [] | Some vs \<Rightarrow> vs))) (\<lambda>votes.
        ln_notify t (MsgLeiosVotes votes) LeiosNotifyVotes [(''count'', jlen (length votes))] s)
      else if la_kind a = ''wait'' then
        let secs = (case la_duration_secs a of None \<Rightarrow> 0 | Some n \<Rightarrow> n) in
        try_io (if secs > 0 then sleep_secs secs else ret ()) (\<lambda>_. ret (False, s))
      else if la_kind a = ''disconnect'' then ret (True, s)
      else if la_kind a = ''raw_bytes'' then
        try_io (lift_res (ln_decode_hex_opt (la_bytes a) ''bytes'')) (\<lambda>raw.
        try_io (ln_send_raw raw) (\<lambda>_.
        try_io (emit t (ln_sent Error [(''phase'', JString ''raw_bytes''), (''kind'', JString ''leios_notify_server'')])) (\<lambda>_.
        ret (False, s))))
      else bail (''leios_notify_server: unknown action kind '' @ quoted (la_kind a)))"

fun ln_recv :: "string + ln_message \<Rightarrow> ln_message res" where
  "ln_recv (Inl e) = anyhow e"
| "ln_recv (Inr m) = Ok m"

definition ln_body :: "tracer \<Rightarrow> ln_message \<Rightarrow> ln_session \<Rightarrow> (ln_session \<times> bool) io" where
  "ln_body t m s = (case m of
     LnMsgDone \<Rightarrow>
       try_io (emit t (with_protocol ln_protocol (new_event LeiosNotifyDone Received (jobj [])))) (\<lambda>_. ret (s, True))
   | MsgLeiosNotificationRequestNext \<Rightarrow>
       (case ln_actions s of
          [] \<Rightarrow> ret (s, True)
        | a # rest \<Rightarrow>
            try_io (ln_execute_action t a (s\<lparr>ln_actions := rest\<rparr>)) (\<lambda>(finished, s'). ret (s', finished)))
   | _ \<Rightarrow> ret (s, False))"

record ln_summary =
  lns_notifications_sent :: u64
  lns_exit_reason :: string
  lns_duration_ms :: u64

definition ln_finish :: "tracer \<Rightarrow> ln_session \<Rightarrow> ln_summary io" where
  "ln_finish t s =
     try_io elapsed_ms (\<lambda>ms.
     let summary = \<lparr>lns_notifications_sent = notifications_sent s, lns_exit_reason = ''completed'',
           lns_duration_ms = ms\<rparr> in
     try_io (emit t (with_protocol ln_protocol (new_event ServerLeiosNotifyCompleted Internal (jobj [
       (''notifications_sent'', jnum (lns_notifications_sent summary)),
       (''exit_reason'', JString (lns_exit_reason summary)),
       (''duration_ms'', jnum (lns_duration_ms summary))])))) (\<lambda>_.
     ret summary))"

definition execute_leios_notify_script ::
    "tracer \<Rightarrow> ln_action list \<Rightarrow> (string + ln_message) list \<Rightarrow> ln_summary io" where
  "execute_leios_notify_script t actions inbox =
     try_io (emit t (with_protocol ln_protocol (new_event ServerLeiosNotifyStarted Internal (jobj [])))) (\<lambda>_.
     try_io (serve_loop (ln_body t) (map ln_recv inbox) \<lparr>notifications_sent = 0, ln_actions = actions\<rparr>) (\<lambda>s.
     ln_finish t s))"

section \<open>Lemmas\<close>

lemma parse_nc_point_wf: "parse_nc_point s = Ok p \<Longrightarrow> wf_nc_point p"
  by (auto simp: parse_nc_point_def split: if_splits option.splits sum.splits prod.splits)

lemma parse_nc_point_str:
  assumes "length hash = 32"
  shows "parse_nc_point (point_to_str (Specific slot hash)) = Ok (NcSpecific slot hash)"
  using assms point_to_str_neq_origin [of slot hash]
  by (simp add: parse_nc_point_def split_once_point parse_u64_to_string del: point_to_str.simps)

lemma build_vote_Ok: "build_vote s = Ok v \<Longrightarrow>
    length (vote_eb_hash v) = 32 \<and> vote_slot v = vs_slot s \<and> vote_voter_id v = vs_voter_id s"
  by (auto simp: build_vote_def split: if_splits)

text \<open>What an action puts on the wire when its fields are well formed; \<open>None\<close> when it is no notification.\<close>

definition action_message :: "ln_action \<Rightarrow> ln_message option" where
  "action_message a =
     (if la_kind a = ''block_announcement'' then
        (case ln_decode_hex_opt (la_header_bytes a) ''header_bytes'' of Ok raw \<Rightarrow> Some (MsgLeiosBlockAnnouncement raw) | _ \<Rightarrow> None)
      else if la_kind a = ''block_offer'' then
        (case ln_parse_point_opt (la_point a) ''point'' of
           Ok p \<Rightarrow> Some (MsgLeiosBlockOffer p (case la_eb_size a of None \<Rightarrow> 0 | Some n \<Rightarrow> n)) | _ \<Rightarrow> None)
      else if la_kind a = ''block_txs_offer'' then
        (case ln_parse_point_opt (la_point a) ''point'' of Ok p \<Rightarrow> Some (MsgLeiosBlockTxsOffer p) | _ \<Rightarrow> None)
      else if la_kind a = ''votes'' then
        (case build_votes (case la_votes a of None \<Rightarrow> [] | Some vs \<Rightarrow> vs) of Ok vs \<Rightarrow> Some (MsgLeiosVotes vs) | _ \<Rightarrow> None)
      else None)"

lemma ln_notify_run:
  "reliable w \<Longrightarrow> \<exists>w'. ln_notify t m kind ps s w =
     (Ok (False, s\<lparr>notifications_sent := notifications_sent s + 1\<rparr>), w') \<and>
     reliable w' \<and> wire_out w' = wire_out w @ [LnWire m]"
  by (simp add: ln_notify_def ln_send_def try_io_def send_wire_reliable emit_reliable ret_def)

lemma ln_action_run:
  assumes "reliable w" "action_message a = Some m"
  shows "\<exists>w'. ln_execute_action t a s w =
     (Ok (False, s\<lparr>notifications_sent := notifications_sent s + 1\<rparr>), w') \<and>
     reliable w' \<and> wire_out w' = wire_out w @ [LnWire m]"
proof -
  have "\<exists>kind ps. ln_execute_action t a s w = ln_notify t m kind ps s w"
    using assms(2) by (auto simp: action_message_def ln_execute_action_def try_io_def lift_res_def Let_def
        split: if_splits res.splits)
  then show ?thesis using ln_notify_run [OF assms(1)] by metis
qed

lemma ln_loop_run:
  assumes "reliable w" "map action_message acts = map Some ms" "ln_actions s = acts @ rest"
  shows "\<exists>s' w'. serve_loop (ln_body t)
      (replicate (length ms) (Ok MsgLeiosNotificationRequestNext) @ inbox) s w =
      serve_loop (ln_body t) inbox s' w' \<and> reliable w' \<and> wire_out w' = wire_out w @ map LnWire ms \<and>
      ln_actions s' = rest \<and> notifications_sent s' = notifications_sent s + of_nat (length ms)"
  using assms
proof (induction ms arbitrary: acts s w)
  case Nil
  then show ?case by auto
next
  case (Cons m ms)
  then obtain a acts' where acts: "acts = a # acts'" "action_message a = Some m"
    "map action_message acts' = map Some ms" by auto
  let ?s1 = "s\<lparr>ln_actions := acts' @ rest\<rparr>"
  let ?s2 = "?s1\<lparr>notifications_sent := notifications_sent ?s1 + 1\<rparr>"
  from ln_action_run [OF Cons.prems(1) acts(2), of t ?s1] obtain w1 where
    w1: "ln_execute_action t a ?s1 w = (Ok (False, ?s2), w1)" "reliable w1" "wire_out w1 = wire_out w @ [LnWire m]"
    by blast
  from Cons.IH [OF w1(2) acts(3), of ?s2] obtain s' w' where rest:
    "serve_loop (ln_body t) (replicate (length ms) (Ok MsgLeiosNotificationRequestNext) @ inbox) ?s2 w1 =
      serve_loop (ln_body t) inbox s' w'"
    "reliable w'" "wire_out w' = wire_out w1 @ map LnWire ms" "ln_actions s' = rest"
    "notifications_sent s' = notifications_sent ?s2 + of_nat (length ms)" by auto
  show ?case
  proof (intro exI [of _ s'] exI [of _ w'] conjI)
    show "serve_loop (ln_body t) (replicate (length (m # ms)) (Ok MsgLeiosNotificationRequestNext) @ inbox) s w =
        serve_loop (ln_body t) inbox s' w'"
      using w1(1) rest(1) Cons.prems(3) acts(1) by (simp add: ln_body_def try_io_def ret_def)
  qed (use rest w1 in \<open>simp_all add: ac_simps\<close>)
qed

section \<open>Properties\<close>

text \<open>C35: To a client that asks once per action the server sends exactly the notifications of its
  well-formed actions, in script order, and ends the session without a reply at the request after
  the last one; the summary counts the notifications.\<close>

theorem leios_notifications_in_order:
  assumes "reliable w" "map action_message actions = map Some ms"
  shows "\<exists>summary w'. execute_leios_notify_script t actions
      (replicate (length ms) (Inr MsgLeiosNotificationRequestNext) @ Inr MsgLeiosNotificationRequestNext # later) w =
      (Ok summary, w') \<and>
    wire_out w' = wire_out w @ map LnWire ms \<and> lns_notifications_sent summary = of_nat (length ms)"
proof -
  let ?start = "with_protocol ln_protocol (new_event ServerLeiosNotifyStarted Internal (jobj []))"
  let ?w0 = "logged t ?start w"
  let ?s0 = "\<lparr>notifications_sent = 0, ln_actions = actions\<rparr>"
  let ?tail = "Ok MsgLeiosNotificationRequestNext # map ln_recv later"
  have w0: "reliable ?w0" using assms(1) by simp
  from ln_loop_run [OF w0 assms(2), of ?s0 "[]" t ?tail] obtain s1 w1 where
    "serve_loop (ln_body t) (replicate (length ms) (Ok MsgLeiosNotificationRequestNext) @ ?tail) ?s0 ?w0 =
      serve_loop (ln_body t) ?tail s1 w1"
    "reliable w1" "wire_out w1 = wire_out ?w0 @ map LnWire ms" "ln_actions s1 = []"
    "notifications_sent s1 = of_nat (length ms)" by auto
  then show ?thesis
    using assms(1) by (simp add: execute_leios_notify_script_def try_io_def emit_reliable ln_body_def ret_def
        ln_finish_def elapsed_ms_run Let_def)
qed

theorem leios_notifications_in_order_witness:
  "\<exists>summary w'. execute_leios_notify_script tracer_open
      [\<lparr>la_kind = ''block_announcement'', la_header_bytes = Some (encode_hex [0xf6]), la_point = None, la_eb_size = None,
        la_votes = None, la_duration_secs = None, la_bytes = None\<rparr>]
      (replicate (length [MsgLeiosBlockAnnouncement [0xf6]]) (Inr MsgLeiosNotificationRequestNext) @
        Inr MsgLeiosNotificationRequestNext # []) fresh_world = (Ok summary, w') \<and>
    wire_out w' = wire_out fresh_world @ map LnWire [MsgLeiosBlockAnnouncement [0xf6]] \<and>
    lns_notifications_sent summary = of_nat (length [MsgLeiosBlockAnnouncement [0xf6]])"
  by (rule leios_notifications_in_order)
    (simp_all add: action_message_def ln_decode_hex_opt_def del: encode_hex_simps)

text \<open>A \<open>wait\<close> action uses up its place in the script and leaves the request that triggered it
  without an answer.\<close>

theorem leios_wait_consumes_request:
  assumes "la_kind a = ''wait''" "ln_actions s = a # rest"
  shows "\<exists>w'. ln_body t MsgLeiosNotificationRequestNext s w = (Ok (s\<lparr>ln_actions := rest\<rparr>, False), w') \<and>
    wire_out w' = wire_out w \<and> trace_file w' = trace_file w"
  using assms by (simp add: ln_body_def ln_execute_action_def try_io_def ret_def Let_def sleep_secs_run)

theorem leios_wait_consumes_request_witness:
  "\<exists>a w'. ln_body tracer_open MsgLeiosNotificationRequestNext \<lparr>notifications_sent = 0, ln_actions = [a]\<rparr> fresh_world =
      (Ok (\<lparr>notifications_sent = 0, ln_actions = [a]\<rparr>\<lparr>ln_actions := []\<rparr>, False), w') \<and>
    wire_out w' = wire_out fresh_world \<and> trace_file w' = trace_file fresh_world"
  by (rule exI, rule leios_wait_consumes_request
      [of "\<lparr>la_kind = ''wait'', la_header_bytes = None, la_point = None, la_eb_size = None,
        la_votes = None, la_duration_secs = Some 3, la_bytes = None\<rparr>"]) simp_all

text \<open>A point that the Leios servers accept has a hash of 32 bytes, and they accept every point
  with such a hash in the text form the harness writes.\<close>

theorem leios_point_accepted_iff_32:
  "(\<forall>s p. parse_nc_point s = Ok p \<longrightarrow> wf_nc_point p) \<and>
   (\<forall>p. wf_nc_point p \<longrightarrow> parse_nc_point (point_to_str (from_nc_point p)) = Ok p)"
proof (intro conjI allI impI)
  fix p assume "wf_nc_point p"
  then show "parse_nc_point (point_to_str (from_nc_point p)) = Ok p"
    by (cases p) (simp_all add: parse_nc_point_str parse_nc_point_def [of "''origin''"] del: point_to_str.simps(2))
qed (rule parse_nc_point_wf)

theorem leios_point_accepted_iff_32_witness:
  "parse_nc_point (point_to_str (from_nc_point (NcSpecific 5 (replicate 32 1)))) = Ok (NcSpecific 5 (replicate 32 1))"
  by (rule leios_point_accepted_iff_32 [THEN conjunct2, rule_format]) simp

end
