(* ===== verification/LeiosFetchServer.thy ===== *)
theory LeiosFetchServer
  imports Script
begin

text \<open>
  The Leios block server (\<open>miniprotocols/leios_fetch_server.rs\<close>): rules with textual triggers, taken
  in order, possibly repeatable, one per request for an endorser block.
\<close>

definition lf_protocol :: string where
  "lf_protocol = ''leios-fetch''"

section \<open>Rules and requests\<close>

record lf_send_spec =
  lfs_kind :: string
  lfs_block_bytes :: "string option"
  lfs_duration_secs :: "u64 option"
  lfs_bytes :: "string option"

record lf_rule =
  lfr_on :: string
  lfr_send :: lf_send_spec
  lfr_repeatable :: bool

datatype fetch_request = FetchBlock nc_point | FetchDone

fun fetch_kind_str :: "fetch_request \<Rightarrow> string" where
  "fetch_kind_str (FetchBlock _) = ''fetch_block''"
| "fetch_kind_str FetchDone = ''done''"

definition lf_matches_on :: "fetch_request \<Rightarrow> string \<Rightarrow> bool" where
  "lf_matches_on request k \<longleftrightarrow> k = ''any'' \<or>
     (case request of FetchBlock _ \<Rightarrow> k = ''fetch_block'' | FetchDone \<Rightarrow> k = ''done'')"

definition lf_decode_hex_opt :: "string option \<Rightarrow> string \<Rightarrow> bytes res" where
  "lf_decode_hex_opt opt field =
     try_res (ok_or (''leios_fetch_server: missing '' @ field) opt) (\<lambda>s.
       map_err (''leios_fetch_server: '' @ field @ '': '') (decode_hex s))"

section \<open>The session\<close>

record lf_session =
  lf_blocks_served :: u64
  lf_rule_idx :: usize

definition lf_sent :: "event_kind \<Rightarrow> (string \<times> json) list \<Rightarrow> trace_event" where
  "lf_sent kind payload = with_protocol lf_protocol (new_event kind Sent (jobj payload))"

definition lf_execute_send :: "tracer \<Rightarrow> lf_send_spec \<Rightarrow> lf_session \<Rightarrow> (bool \<times> lf_session) io" where
  "lf_execute_send t send s =
     (if lfs_kind send = ''block'' then
        try_io (lift_res (lf_decode_hex_opt (lfs_block_bytes send) ''block_bytes'')) (\<lambda>block.
        try_io (send_wire ''leios_fetch_server send: '' (LfWire (MsgLeiosBlock block))) (\<lambda>_.
        try_io (emit t (lf_sent LeiosFetchBlock [(''block_len'', jlen (length block))])) (\<lambda>_.
        ret (False, s\<lparr>lf_blocks_served := lf_blocks_served s + 1\<rparr>))))
      else if lfs_kind send = ''wait'' then
        let secs = (case lfs_duration_secs send of None \<Rightarrow> 0 | Some n \<Rightarrow> n) in
        try_io (if secs > 0 then sleep_secs secs else ret ()) (\<lambda>_. ret (False, s))
      else if lfs_kind send = ''disconnect'' then ret (True, s)
      else if lfs_kind send = ''raw_bytes'' then
        try_io (lift_res (lf_decode_hex_opt (lfs_bytes send) ''bytes'')) (\<lambda>raw.
        try_io (send_wire ''leios_fetch_server send_raw: '' (RawWire raw)) (\<lambda>_.
        try_io (emit t (lf_sent Error [(''phase'', JString ''raw_bytes''), (''kind'', JString ''leios_fetch_server'')])) (\<lambda>_.
        ret (False, s))))
      else bail (''leios_fetch_server: unknown send kind '' @ quoted (lfs_kind send)))"

definition lf_next_rule :: "fetch_request \<Rightarrow> lf_rule list \<Rightarrow> usize \<Rightarrow> (lf_rule \<times> usize) option" where
  "lf_next_rule request rules rule_idx =
     (case position (\<lambda>r. lf_matches_on request (lfr_on r)) (drop rule_idx rules) of
        None \<Rightarrow> None
      | Some p \<Rightarrow> let pos = p + rule_idx; rule = rules ! pos
                  in Some (rule, if lfr_repeatable rule then rule_idx else Suc pos))"

definition lf_no_matching_rule :: "fetch_request \<Rightarrow> lf_rule list \<Rightarrow> string" where
  "lf_no_matching_rule request rules =
     ''serve_leios_fetch: no matching rule for '' @ quoted (fetch_kind_str request)
       @ '' (exhausted '' @ nat_to_string (length rules) @ '' rules)''"

definition lf_applied_event :: "lf_rule \<Rightarrow> trace_event" where
  "lf_applied_event rule = new_event ResponseRuleApplied Internal (jobj [
     (''on'', JString (lfr_on rule)), (''send'', JString (lfs_kind (lfr_send rule)))])"

fun lf_recv :: "string + lf_message \<Rightarrow> lf_message res" where
  "lf_recv (Inl e) = anyhow e"
| "lf_recv (Inr m) = Ok m"

definition lf_serve_request :: "tracer \<Rightarrow> lf_rule list \<Rightarrow> fetch_request \<Rightarrow> lf_session \<Rightarrow> (lf_session \<times> bool) io" where
  "lf_serve_request t rules request s =
     (case lf_next_rule request rules (lf_rule_idx s) of
        None \<Rightarrow> bail (lf_no_matching_rule request rules)
      | Some (rule, rule_idx) \<Rightarrow>
          try_io (emit t (lf_applied_event rule)) (\<lambda>_.
          try_io (lf_execute_send t (lfr_send rule) (s\<lparr>lf_rule_idx := rule_idx\<rparr>)) (\<lambda>(finished, s').
          ret (s', finished))))"

definition lf_body :: "tracer \<Rightarrow> lf_rule list \<Rightarrow> lf_message \<Rightarrow> lf_session \<Rightarrow> (lf_session \<times> bool) io" where
  "lf_body t rules m s = (case m of
     MsgLeiosBlockRequest point \<Rightarrow> lf_serve_request t rules (FetchBlock point) s
   | LfMsgDone \<Rightarrow>
       try_io (emit t (with_protocol lf_protocol (new_event LeiosFetchDone Received (jobj [])))) (\<lambda>_. ret (s, True))
   | _ \<Rightarrow> ret (s, False))"

record lf_summary =
  lfsum_blocks_served :: u64
  lfsum_exit_reason :: string
  lfsum_duration_ms :: u64

definition lf_finish :: "tracer \<Rightarrow> lf_session \<Rightarrow> lf_summary io" where
  "lf_finish t s =
     try_io elapsed_ms (\<lambda>ms.
     let summary = \<lparr>lfsum_blocks_served = lf_blocks_served s, lfsum_exit_reason = ''completed'',
           lfsum_duration_ms = ms\<rparr> in
     try_io (emit t (with_protocol lf_protocol (new_event ServerLeiosFetchCompleted Internal (jobj [
       (''blocks_served'', jnum (lfsum_blocks_served summary)),
       (''exit_reason'', JString (lfsum_exit_reason summary)),
       (''duration_ms'', jnum (lfsum_duration_ms summary))])))) (\<lambda>_.
     ret summary))"

definition execute_leios_fetch_script :: "tracer \<Rightarrow> lf_rule list \<Rightarrow> (string + lf_message) list \<Rightarrow> lf_summary io" where
  "execute_leios_fetch_script t rules inbox =
     try_io (emit t (with_protocol lf_protocol (new_event ServerLeiosFetchStarted Internal (jobj [])))) (\<lambda>_.
     try_io (serve_loop (lf_body t rules) (map lf_recv inbox) \<lparr>lf_blocks_served = 0, lf_rule_idx = 0\<rparr>) (\<lambda>s.
     lf_finish t s))"

section \<open>Lemmas\<close>

text \<open>A rule that answers a block request with the given bytes.\<close>

definition block_rule :: "bool \<Rightarrow> bytes \<Rightarrow> lf_rule \<Rightarrow> bool" where
  "block_rule repeatable block rule \<longleftrightarrow>
     lfr_on rule \<in> {''fetch_block'', ''any''} \<and> lfr_repeatable rule = repeatable \<and>
     lfs_kind (lfr_send rule) = ''block'' \<and>
     lf_decode_hex_opt (lfs_block_bytes (lfr_send rule)) ''block_bytes'' = Ok block"

lemma lf_request_run:
  assumes "reliable w" "lf_rule_idx s < length rules" "block_rule rep block (rules ! lf_rule_idx s)"
  shows "\<exists>w'. lf_body t rules (MsgLeiosBlockRequest p) s w =
     (Ok (s\<lparr>lf_rule_idx := (if rep then lf_rule_idx s else Suc (lf_rule_idx s)),
            lf_blocks_served := lf_blocks_served s + 1\<rparr>, False), w') \<and>
     reliable w' \<and> wire_out w' = wire_out w @ [LfWire (MsgLeiosBlock block)]"
proof -
  let ?idx = "if rep then lf_rule_idx s else Suc (lf_rule_idx s)"
  have "lf_next_rule (FetchBlock p) rules (lf_rule_idx s) = Some (rules ! lf_rule_idx s, ?idx)"
    using assms(2,3) by (auto simp: lf_next_rule_def Let_def Cons_nth_drop_Suc [symmetric] block_rule_def lf_matches_on_def)
  with assms(1,3) show ?thesis
    by (simp add: lf_body_def lf_serve_request_def lf_execute_send_def try_io_def emit_reliable lift_res_def
        send_wire_reliable ret_def block_rule_def)
qed

lemma lf_one_shot_loop:
  assumes "reliable w" "lf_rule_idx s + length bs \<le> length rules"
    and "\<forall>j < length bs. block_rule False (bs ! j) (rules ! (lf_rule_idx s + j))"
  shows "\<exists>s' w'. serve_loop (lf_body t rules)
      (map (\<lambda>p. Ok (MsgLeiosBlockRequest p)) (replicate (length bs) p) @ inbox) s w =
      serve_loop (lf_body t rules) inbox s' w' \<and> reliable w' \<and>
      wire_out w' = wire_out w @ map (\<lambda>b. LfWire (MsgLeiosBlock b)) bs \<and>
      lf_rule_idx s' = lf_rule_idx s + length bs \<and>
      lf_blocks_served s' = lf_blocks_served s + of_nat (length bs)"
  using assms
proof (induction bs arbitrary: s w)
  case Nil
  then show ?case by auto
next
  case (Cons b bs)
  let ?s1 = "s\<lparr>lf_rule_idx := Suc (lf_rule_idx s), lf_blocks_served := lf_blocks_served s + 1\<rparr>"
  have idx: "lf_rule_idx s < length rules" using Cons.prems(2) by simp
  have rule: "block_rule False b (rules ! lf_rule_idx s)" using Cons.prems(3) by force
  from lf_request_run [OF Cons.prems(1) idx rule, of t p] obtain w1 where
    w1: "lf_body t rules (MsgLeiosBlockRequest p) s w = (Ok (?s1, False), w1)" "reliable w1"
    "wire_out w1 = wire_out w @ [LfWire (MsgLeiosBlock b)]" by auto
  have later: "\<forall>j < length bs. block_rule False (bs ! j) (rules ! (lf_rule_idx ?s1 + j))"
    using Cons.prems(3) by force
  from Cons.IH [OF w1(2) _ later] Cons.prems(2) obtain s' w' where rest:
    "serve_loop (lf_body t rules) (map (\<lambda>p. Ok (MsgLeiosBlockRequest p)) (replicate (length bs) p) @ inbox) ?s1 w1 =
      serve_loop (lf_body t rules) inbox s' w'"
    "reliable w'" "wire_out w' = wire_out w1 @ map (\<lambda>b. LfWire (MsgLeiosBlock b)) bs"
    "lf_rule_idx s' = lf_rule_idx ?s1 + length bs"
    "lf_blocks_served s' = lf_blocks_served ?s1 + of_nat (length bs)" by auto
  show ?case
  proof (intro exI [of _ s'] exI [of _ w'] conjI)
    show "serve_loop (lf_body t rules)
      (map (\<lambda>p. Ok (MsgLeiosBlockRequest p)) (replicate (length (b # bs)) p) @ inbox) s w =
      serve_loop (lf_body t rules) inbox s' w'"
      using w1(1) rest(1) by (simp add: try_io_def)
  qed (use rest w1 in \<open>simp_all add: ac_simps\<close>)
qed

lemma lf_repeat_loop:
  assumes "reliable w" "lf_rule_idx s < length rules" "block_rule True block (rules ! lf_rule_idx s)"
  shows "\<exists>s' w'. serve_loop (lf_body t rules)
      (map (\<lambda>p. Ok (MsgLeiosBlockRequest p)) ps @ inbox) s w = serve_loop (lf_body t rules) inbox s' w' \<and>
      reliable w' \<and> wire_out w' = wire_out w @ replicate (length ps) (LfWire (MsgLeiosBlock block)) \<and>
      lf_blocks_served s' = lf_blocks_served s + of_nat (length ps)"
  using assms
proof (induction ps arbitrary: s w)
  case Nil
  then show ?case by auto
next
  case (Cons p ps)
  let ?s1 = "s\<lparr>lf_rule_idx := lf_rule_idx s, lf_blocks_served := lf_blocks_served s + 1\<rparr>"
  from lf_request_run [OF Cons.prems, of t p] obtain w1 where
    w1: "lf_body t rules (MsgLeiosBlockRequest p) s w = (Ok (?s1, False), w1)" "reliable w1"
    "wire_out w1 = wire_out w @ [LfWire (MsgLeiosBlock block)]" by auto
  from Cons.IH [OF w1(2), of ?s1] Cons.prems(2,3) obtain s' w' where rest:
    "serve_loop (lf_body t rules) (map (\<lambda>p. Ok (MsgLeiosBlockRequest p)) ps @ inbox) ?s1 w1 =
      serve_loop (lf_body t rules) inbox s' w'"
    "reliable w'" "wire_out w' = wire_out w1 @ replicate (length ps) (LfWire (MsgLeiosBlock block))"
    "lf_blocks_served s' = lf_blocks_served ?s1 + of_nat (length ps)" by auto
  show ?case
  proof (intro exI [of _ s'] exI [of _ w'] conjI)
    show "serve_loop (lf_body t rules) (map (\<lambda>p. Ok (MsgLeiosBlockRequest p)) (p # ps) @ inbox) s w =
      serve_loop (lf_body t rules) inbox s' w'"
      using w1(1) rest(1) by (simp add: try_io_def)
  qed (use rest w1 in \<open>simp_all add: ac_simps\<close>)
qed

lemma lf_done_run:
  "reliable w \<Longrightarrow> \<exists>summary w'.
     try_io (serve_loop (lf_body t rules) [Ok LfMsgDone] s) (lf_finish t) w = (Ok summary, w') \<and>
     wire_out w' = wire_out w \<and> lfsum_blocks_served summary = lf_blocks_served s"
  by (simp add: lf_body_def try_io_def emit_reliable ret_def lf_finish_def elapsed_ms_run Let_def)

lemma map_lf_recv: "map lf_recv (map (\<lambda>p. Inr (MsgLeiosBlockRequest p)) ps @ rest) =
    map (\<lambda>p. Ok (MsgLeiosBlockRequest p)) ps @ map lf_recv rest"
  by simp

section \<open>Properties\<close>

text \<open>One-shot block rules answer one request each, in order, whatever points the client names;
  the request after the last rule ends the session with an error and without a reply.\<close>

theorem leios_fetch_one_shot_rules:
  assumes "reliable w" "length rules = length bs"
    and "\<forall>j < length bs. block_rule False (bs ! j) (rules ! j)"
  shows "\<exists>w'. execute_leios_fetch_script t rules
      (map (\<lambda>p. Inr (MsgLeiosBlockRequest p)) (replicate (length bs) p) @ Inr (MsgLeiosBlockRequest p) # later) w =
      (anyhow (lf_no_matching_rule (FetchBlock p) rules), w') \<and>
    wire_out w' = wire_out w @ map (\<lambda>b. LfWire (MsgLeiosBlock b)) bs"
proof -
  let ?w0 = "logged t (with_protocol lf_protocol (new_event ServerLeiosFetchStarted Internal (jobj []))) w"
  let ?s0 = "\<lparr>lf_blocks_served = 0, lf_rule_idx = 0\<rparr>"
  let ?tail = "Ok (MsgLeiosBlockRequest p) # map lf_recv later"
  have w0: "reliable ?w0" using assms(1) by simp
  from lf_one_shot_loop [OF w0, of ?s0 bs rules t p ?tail] assms(2,3) obtain s1 w1 where s1:
    "serve_loop (lf_body t rules) (map (\<lambda>p. Ok (MsgLeiosBlockRequest p)) (replicate (length bs) p) @ ?tail) ?s0 ?w0 =
      serve_loop (lf_body t rules) ?tail s1 w1"
    "reliable w1" "wire_out w1 = wire_out ?w0 @ map (\<lambda>b. LfWire (MsgLeiosBlock b)) bs"
    "lf_rule_idx s1 = length bs" by auto
  have "lf_next_rule (FetchBlock p) rules (lf_rule_idx s1) = None"
    using assms(2) s1(4) by (simp add: lf_next_rule_def)
  with s1 assms(1) show ?thesis
    unfolding execute_leios_fetch_script_def map_lf_recv
    by (simp add: try_io_def emit_reliable lf_body_def lf_serve_request_def bail_def anyhow_def)
qed

theorem leios_fetch_one_shot_rules_witness:
  "\<exists>rules w'. execute_leios_fetch_script tracer_open rules
      (map (\<lambda>p. Inr (MsgLeiosBlockRequest p)) (replicate (length [[0xa0 :: u8]]) NcOrigin) @ Inr (MsgLeiosBlockRequest NcOrigin) # [])
      fresh_world = (anyhow (lf_no_matching_rule (FetchBlock NcOrigin) rules), w') \<and>
    wire_out w' = wire_out fresh_world @ map (\<lambda>b. LfWire (MsgLeiosBlock b)) [[0xa0]]"
  by (rule exI, rule leios_fetch_one_shot_rules [of _ "[\<lparr>lfr_on = ''any'', lfr_send = \<lparr>lfs_kind = ''block'',
        lfs_block_bytes = Some (encode_hex [0xa0]), lfs_duration_secs = None, lfs_bytes = None\<rparr>,
        lfr_repeatable = False\<rparr>]"])
    (simp_all add: block_rule_def lf_decode_hex_opt_def del: encode_hex_simps)

text \<open>A repeatable block rule at the head of the script answers every request with the same block
  and the session ends cleanly when the client is done, with a summary that counts the answers.\<close>

theorem leios_fetch_repeatable_rule:
  assumes "reliable w" "block_rule True block rule"
  shows "\<exists>summary w'. execute_leios_fetch_script t (rule # rules)
      (map (\<lambda>p. Inr (MsgLeiosBlockRequest p)) ps @ [Inr LfMsgDone]) w = (Ok summary, w') \<and>
    wire_out w' = wire_out w @ replicate (length ps) (LfWire (MsgLeiosBlock block)) \<and>
    lfsum_blocks_served summary = of_nat (length ps)"
proof -
  let ?w0 = "logged t (with_protocol lf_protocol (new_event ServerLeiosFetchStarted Internal (jobj []))) w"
  let ?s0 = "\<lparr>lf_blocks_served = 0, lf_rule_idx = 0\<rparr>"
  let ?body = "lf_body t (rule # rules)"
  have w0: "reliable ?w0" using assms(1) by simp
  from lf_repeat_loop [OF w0, of ?s0 "rule # rules" block t ps "[Ok LfMsgDone]"] assms(2) obtain s1 w1 where s1:
    "serve_loop ?body (map (\<lambda>p. Ok (MsgLeiosBlockRequest p)) ps @ [Ok LfMsgDone]) ?s0 ?w0 =
      serve_loop ?body [Ok LfMsgDone] s1 w1"
    "reliable w1" "wire_out w1 = wire_out ?w0 @ replicate (length ps) (LfWire (MsgLeiosBlock block))"
    "lf_blocks_served s1 = of_nat (length ps)" by auto
  from lf_done_run [OF s1(2), of t "rule # rules" s1] obtain summary w2 where
    "try_io (serve_loop ?body [Ok LfMsgDone] s1) (lf_finish t) w1 = (Ok summary, w2)"
    "wire_out w2 = wire_out w1" "lfsum_blocks_served summary = lf_blocks_served s1" by blast
  with s1 assms(1) show ?thesis
    unfolding execute_leios_fetch_script_def map_lf_recv
    by (simp add: try_io_def emit_reliable)
qed

theorem leios_fetch_repeatable_rule_witness:
  "\<exists>rule summary w'. execute_leios_fetch_script tracer_open (rule # [])
      (map (\<lambda>p. Inr (MsgLeiosBlockRequest p)) [NcOrigin, NcOrigin] @ [Inr LfMsgDone]) fresh_world = (Ok summary, w') \<and>
    wire_out w' = wire_out fresh_world @ replicate (length [NcOrigin, NcOrigin]) (LfWire (MsgLeiosBlock [0xa0])) \<and>
    lfsum_blocks_served summary = of_nat (length [NcOrigin, NcOrigin])"
  by (rule exI, rule leios_fetch_repeatable_rule [of _ _ "\<lparr>lfr_on = ''any'', lfr_send = \<lparr>lfs_kind = ''block'',
        lfs_block_bytes = Some (encode_hex [0xa0]), lfs_duration_secs = None, lfs_bytes = None\<rparr>,
        lfr_repeatable = True\<rparr>"])
    (simp_all add: block_rule_def lf_decode_hex_opt_def del: encode_hex_simps)

end
