(* ===== verification/Readers.thy ===== *)
theory Readers
  imports StepParams LeiosNotifyServer LeiosFetchServer
begin

text \<open>
  The readers that \<open>serde\<close> derives for the types of a scenario file: production rules, peers,
  networks and scenarios (\<open>mod.rs\<close>), response rules (\<open>response_rules.rs\<close>), and the actions and
  rules of the Leios servers. A struct is read from an object, whose other keys are ignored, or
  from an array that gives its fields in their order; an optional field may be absent or null. A
  variant is named by the tag \<open>kind\<close>, which is the first element where the value is an array. The
  texts of the errors are abbreviated, and where a value has several faults the one reported may
  be another.
\<close>

section \<open>Structs and tags\<close>

text \<open>The fields a struct may leave out at the end of an array are those with a \<open>default\<close>.\<close>

definition struct_value :: "(string \<times> bool) list \<Rightarrow> json \<Rightarrow> json res" where
  "struct_value fs v = (case v of
     JObject m \<Rightarrow> Ok (JObject m)
   | JArray xs \<Rightarrow> if length xs \<le> length fs \<and> list_all snd (drop (length xs) fs)
       then Ok (JObject (zip (map fst fs) xs)) else anyhow ''invalid length''
   | _ \<Rightarrow> anyhow ''invalid type: expected a struct'')"

definition req_param :: "json \<Rightarrow> string \<Rightarrow> (json \<Rightarrow> 'a res) \<Rightarrow> 'a res" where
  "req_param v k f = (case json_get k v of None \<Rightarrow> anyhow (''missing field `'' @ k @ ''`'') | Some x \<Rightarrow> f x)"

definition default_param :: "'a \<Rightarrow> json \<Rightarrow> string \<Rightarrow> (json \<Rightarrow> 'a res) \<Rightarrow> 'a res" where
  "default_param d v k f = (case json_get k v of None \<Rightarrow> Ok d | Some x \<Rightarrow> f x)"

definition string_from_value :: "json \<Rightarrow> string res" where
  "string_from_value v = ok_or ''invalid type: expected a string'' (as_str v)"

definition usize_from_value :: "json \<Rightarrow> usize res" where
  "usize_from_value v = try_res (u64_from_value v) (\<lambda>n. Ok (unat n))"

definition u16_from_value :: "json \<Rightarrow> u16 res" where
  "u16_from_value v = try_res (u64_from_value v) (\<lambda>n.
     if n < 2 ^ 16 then Ok (ucast n) else anyhow ''invalid value: expected u16'')"

definition u32_from_value :: "json \<Rightarrow> u32 res" where
  "u32_from_value v = try_res (u64_from_value v) (\<lambda>n.
     if n < 2 ^ 32 then Ok (ucast n) else anyhow ''invalid value: expected u32'')"

definition vec_from_value :: "(json \<Rightarrow> 'a res) \<Rightarrow> json \<Rightarrow> 'a list res" where
  "vec_from_value f v = try_res (values_from_value v) (mapM_res f)"

definition tagged_value :: "json \<Rightarrow> (string \<times> json) res" where
  "tagged_value v = (case v of
     JObject m \<Rightarrow> try_res (req_param v ''kind'' string_from_value) (\<lambda>tag. Ok (tag, json_remove ''kind'' v))
   | JArray [] \<Rightarrow> anyhow ''missing field `kind`''
   | JArray (k # xs) \<Rightarrow> try_res (string_from_value k) (\<lambda>tag. Ok (tag, JArray xs))
   | _ \<Rightarrow> anyhow ''invalid type: expected an internally tagged enum'')"

text \<open>A field that is read is smaller than the value it is read from.\<close>

lemma size_map_of: "map_of m k = Some x \<Longrightarrow> size x < size (JObject m)"
  by (induction m) (auto split: if_splits)

lemma size_struct_field: "struct_value fs v = Ok b \<Longrightarrow> json_get k b = Some x \<Longrightarrow> size x < size v"
proof (cases v)
  case (JArray xs)
  assume "struct_value fs v = Ok b" "json_get k b = Some x"
  with JArray have "(k, x) \<in> set (zip (map fst fs) xs)"
    by (auto simp: struct_value_def split: if_splits dest: map_of_SomeD)
  then have "x \<in> set xs" by (rule set_zip_rightD)
  then have "size x \<le> size_list size xs" by (induction xs) auto
  with JArray show ?thesis by simp
qed (auto simp: struct_value_def simp del: json.size dest: size_map_of)

lemma size_tagged_value: "tagged_value v = Ok (tag, body) \<Longrightarrow> size body \<le> size v"
  using size_json_remove [of "''kind''" v]
  by (auto simp: tagged_value_def simp del: json_remove.simps split: json.splits list.splits)

lemma size_values: "values_from_value v = Ok xs \<Longrightarrow> x \<in> set xs \<Longrightarrow> size x < size v"
proof (cases v)
  case (JArray ys)
  assume "values_from_value v = Ok xs" "x \<in> set xs"
  with JArray have "x \<in> set ys" by (simp add: values_from_value_def)
  then have "size x \<le> size_list size ys" by (induction ys) auto
  with JArray show ?thesis by simp
qed (auto simp: values_from_value_def)

section \<open>Response rules\<close>

definition on_from_name :: "string \<Rightarrow> on res" where
  "on_from_name s =
     (if s = ''request_next'' then Ok OnRequestNext
      else if s = ''find_intersect'' then Ok OnFindIntersect
      else if s = ''request_range'' then Ok OnRequestRange
      else if s = ''done'' then Ok OnDone
      else if s = ''any'' then Ok OnAny
      else anyhow (''unknown variant `'' @ s @ ''`''))"

definition on_from_value :: "json \<Rightarrow> on res" where
  "on_from_value v = (case v of
     JString s \<Rightarrow> on_from_name s
   | JObject [(s, JNull)] \<Rightarrow> on_from_name s
   | _ \<Rightarrow> anyhow ''invalid type: expected enum On'')"

definition tip_spec_from_value :: "json \<Rightarrow> tip_spec res" where
  "tip_spec_from_value v =
     try_res (struct_value [(''point'', False), (''block_number'', False)] v) (\<lambda>b.
     try_res (req_param b ''point'' string_from_value) (\<lambda>point.
     try_res (req_param b ''block_number'' u64_from_value) (\<lambda>block_number.
       Ok \<lparr>ts_point = point, ts_block_number = block_number\<rparr>)))"

definition opt_tip_from_field :: "json \<Rightarrow> tip_spec option res" where
  "opt_tip_from_field b = read_param b ''tip'' (opt_from_value tip_spec_from_value)"

text \<open>The variants of \<open>SendDef\<close> that hold no other send.\<close>

definition chain_sync_send_from_value :: "string \<Rightarrow> json \<Rightarrow> send_def res" where
  "chain_sync_send_from_value tag v =
     (if tag = ''roll_forward'' then
        try_res (struct_value [(''header_from_fixture'', False), (''header_cbor'', False), (''variant'', False), (''tip'', False)] v) (\<lambda>b.
        try_res (read_param b ''header_from_fixture'' (opt_from_value usize_from_value)) (\<lambda>header_from_fixture.
        try_res (read_param b ''header_cbor'' opt_string_from_value) (\<lambda>header_cbor.
        try_res (read_param b ''variant'' (opt_from_value u8_from_value)) (\<lambda>variant.
        try_res (opt_tip_from_field b) (\<lambda>tip.
          Ok (SDRollForward header_from_fixture header_cbor variant tip))))))
      else if tag = ''roll_backward'' \<or> tag = ''intersect_found'' then
        try_res (struct_value [(''point'', False), (''tip'', False)] v) (\<lambda>b.
        try_res (req_param b ''point'' string_from_value) (\<lambda>point.
        try_res (opt_tip_from_field b) (\<lambda>tip.
          Ok (if tag = ''roll_backward'' then SDRollBackward point tip else SDIntersectFound point tip))))
      else if tag = ''intersect_not_found'' then
        try_res (struct_value [(''tip'', False)] v) (\<lambda>b.
        try_res (opt_tip_from_field b) (\<lambda>tip. Ok (SDIntersectNotFound tip)))
      else if tag = ''await_reply'' then
        try_res (struct_value [(''hold_secs'', True)] v) (\<lambda>b.
        try_res (default_param 0 b ''hold_secs'' u64_from_value) (\<lambda>hold_secs. Ok (SDAwaitReply hold_secs)))
      else anyhow (''unknown variant `'' @ tag @ ''`''))"

definition flat_send_from_value :: "string \<Rightarrow> json \<Rightarrow> send_def res" where
  "flat_send_from_value tag v =
     (if tag = ''start_batch'' then Ok SDStartBatch
      else if tag = ''block'' then
        try_res (struct_value [(''block_from_fixture'', False), (''block_cbor'', False)] v) (\<lambda>b.
        try_res (read_param b ''block_from_fixture'' (opt_from_value usize_from_value)) (\<lambda>block_from_fixture.
        try_res (read_param b ''block_cbor'' opt_string_from_value) (\<lambda>block_cbor.
          Ok (SDBlock block_from_fixture block_cbor))))
      else if tag = ''batch_done'' then Ok SDBatchDone
      else if tag = ''no_blocks'' then Ok SDNoBlocks
      else if tag = ''stream_batch'' then
        try_res (struct_value [(''block_indices'', False), (''block_count_from_request'', False)] v) (\<lambda>b.
        try_res (read_param b ''block_indices'' (opt_from_value (vec_from_value usize_from_value))) (\<lambda>block_indices.
        try_res (read_param b ''block_count_from_request'' (opt_from_value bool_from_value)) (\<lambda>from_request.
          Ok (SDStreamBatch block_indices from_request))))
      else if tag = ''wait'' then
        try_res (struct_value [(''duration_secs'', False)] v) (\<lambda>b.
        try_res (req_param b ''duration_secs'' u64_from_value) (\<lambda>duration_secs. Ok (SDWait duration_secs)))
      else if tag = ''disconnect'' then Ok SDDisconnect
      else if tag = ''raw_bytes'' then
        try_res (struct_value [(''hex'', False)] v) (\<lambda>b.
        try_res (req_param b ''hex'' string_from_value) (\<lambda>hex. Ok (SDRawBytes hex)))
      else chain_sync_send_from_value tag v)"

text \<open>A \<open>send_sequence\<close> may hold further sequences; converting it to a script is what refuses them.\<close>

definition sequence_items :: "json \<Rightarrow> json list res" where
  "sequence_items v = try_res (struct_value [(''sends'', False)] v) (\<lambda>b. req_param b ''sends'' values_from_value)"

lemma size_sequence_item: "sequence_items v = Ok xs \<Longrightarrow> x \<in> set xs \<Longrightarrow> size x < size v"
  by (auto simp: sequence_items_def req_param_def split: option.splits
      dest!: size_values size_struct_field)

function send_def_from_value :: "json \<Rightarrow> send_def res" where
  "send_def_from_value v = try_res (tagged_value v) (\<lambda>(tag, body).
     if tag = ''send_sequence'' then
       try_res (sequence_items body) (\<lambda>items.
       try_res (mapM_res send_def_from_value items) (\<lambda>sends. Ok (SDSendSequence sends)))
     else flat_send_from_value tag body)"
  by pat_completeness auto
termination
  by (relation "measure size") (auto dest!: size_tagged_value size_sequence_item)

declare send_def_from_value.simps [simp del]

definition rule_def_from_value :: "json \<Rightarrow> response_rule_def res" where
  "rule_def_from_value v =
     try_res (struct_value [(''on'', False), (''send'', False)] v) (\<lambda>b.
     try_res (req_param b ''on'' on_from_value) (\<lambda>on.
     try_res (req_param b ''send'' send_def_from_value) (\<lambda>send.
       Ok \<lparr>rd_on = on, rd_send = send\<rparr>)))"

definition response_rules_from_value :: "json \<Rightarrow> response_rule_def list res" where
  "response_rules_from_value = vec_from_value rule_def_from_value"

section \<open>The Leios servers\<close>

definition vote_spec_from_value :: "json \<Rightarrow> vote_spec res" where
  "vote_spec_from_value v =
     try_res (struct_value [(''slot'', False), (''eb_hash'', False), (''voter_id'', False), (''signature'', False)] v) (\<lambda>b.
     try_res (req_param b ''slot'' u64_from_value) (\<lambda>slot.
     try_res (req_param b ''eb_hash'' string_from_value) (\<lambda>eb_hash.
     try_res (req_param b ''voter_id'' u16_from_value) (\<lambda>voter_id.
     try_res (req_param b ''signature'' string_from_value) (\<lambda>signature.
       Ok \<lparr>vs_slot = slot, vs_eb_hash = eb_hash, vs_voter_id = voter_id, vs_signature = signature\<rparr>)))))"

definition notify_action_from_value :: "json \<Rightarrow> ln_action res" where
  "notify_action_from_value v =
     try_res (struct_value [(''kind'', False), (''header_bytes'', False), (''point'', False), (''eb_size'', False),
        (''votes'', False), (''duration_secs'', False), (''bytes'', False)] v) (\<lambda>b.
     try_res (req_param b ''kind'' string_from_value) (\<lambda>kind.
     try_res (read_param b ''header_bytes'' opt_string_from_value) (\<lambda>header_bytes.
     try_res (read_param b ''point'' opt_string_from_value) (\<lambda>point.
     try_res (read_param b ''eb_size'' (opt_from_value u32_from_value)) (\<lambda>eb_size.
     try_res (read_param b ''votes'' (opt_from_value (vec_from_value vote_spec_from_value))) (\<lambda>votes.
     try_res (read_param b ''duration_secs'' (opt_from_value u64_from_value)) (\<lambda>duration_secs.
     try_res (read_param b ''bytes'' opt_string_from_value) (\<lambda>bytes.
       Ok \<lparr>la_kind = kind, la_header_bytes = header_bytes, la_point = point, la_eb_size = eb_size,
           la_votes = votes, la_duration_secs = duration_secs, la_bytes = bytes\<rparr>))))))))"

definition notify_actions_from_value :: "json \<Rightarrow> ln_action list res" where
  "notify_actions_from_value = vec_from_value notify_action_from_value"

definition fetch_send_from_value :: "json \<Rightarrow> lf_send_spec res" where
  "fetch_send_from_value v =
     try_res (struct_value [(''kind'', False), (''block_bytes'', False), (''duration_secs'', False), (''bytes'', False)] v) (\<lambda>b.
     try_res (req_param b ''kind'' string_from_value) (\<lambda>kind.
     try_res (read_param b ''block_bytes'' opt_string_from_value) (\<lambda>block_bytes.
     try_res (read_param b ''duration_secs'' (opt_from_value u64_from_value)) (\<lambda>duration_secs.
     try_res (read_param b ''bytes'' opt_string_from_value) (\<lambda>bytes.
       Ok \<lparr>lfs_kind = kind, lfs_block_bytes = block_bytes, lfs_duration_secs = duration_secs, lfs_bytes = bytes\<rparr>)))))"

definition fetch_rule_from_value :: "json \<Rightarrow> lf_rule res" where
  "fetch_rule_from_value v =
     try_res (struct_value [(''on'', False), (''send'', False), (''repeatable'', True)] v) (\<lambda>b.
     try_res (req_param b ''on'' string_from_value) (\<lambda>on.
     try_res (req_param b ''send'' fetch_send_from_value) (\<lambda>send.
     try_res (default_param False b ''repeatable'' bool_from_value) (\<lambda>repeatable.
       Ok \<lparr>lfr_on = on, lfr_send = send, lfr_repeatable = repeatable\<rparr>))))"

definition fetch_rules_from_value :: "json \<Rightarrow> lf_rule list res" where
  "fetch_rules_from_value = vec_from_value fetch_rule_from_value"

section \<open>Scenario files\<close>

definition production_rule_of_tag :: "string \<Rightarrow> json \<Rightarrow> production_rule res" where
  "production_rule_of_tag tag v =
     (if tag = ''none'' then Ok PRNone
      else if tag = ''every_n_slots'' then
        try_res (struct_value [(''first_slot'', False), (''interval'', False)] v) (\<lambda>b.
        try_res (req_param b ''first_slot'' u64_from_value) (\<lambda>first_slot.
        try_res (req_param b ''interval'' u64_from_value) (\<lambda>interval.
          Ok (EveryNSlots first_slot interval))))
      else if tag = ''at_slots'' then
        try_res (struct_value [(''slots'', False)] v) (\<lambda>b.
        try_res (req_param b ''slots'' (vec_from_value u64_from_value)) (\<lambda>slots. Ok (AtSlots slots)))
      else if tag = ''forked_from_slot'' then
        try_res (struct_value [(''first_slot'', False), (''interval'', False), (''fork_slot'', False), (''fork_marker'', False)] v) (\<lambda>b.
        try_res (req_param b ''first_slot'' u64_from_value) (\<lambda>first_slot.
        try_res (req_param b ''interval'' u64_from_value) (\<lambda>interval.
        try_res (req_param b ''fork_slot'' u64_from_value) (\<lambda>fork_slot.
        try_res (req_param b ''fork_marker'' string_from_value) (\<lambda>fork_marker.
          Ok (ForkedFromSlot first_slot interval fork_slot fork_marker))))))
      else if tag = ''skips_slots'' then
        try_res (struct_value [(''first_slot'', False), (''interval'', False), (''skip_indices'', False)] v) (\<lambda>b.
        try_res (req_param b ''first_slot'' u64_from_value) (\<lambda>first_slot.
        try_res (req_param b ''interval'' u64_from_value) (\<lambda>interval.
        try_res (req_param b ''skip_indices'' (vec_from_value usize_from_value)) (\<lambda>skip_indices.
          Ok (SkipsSlots first_slot interval skip_indices)))))
      else if tag = ''broken_prev_hash'' then
        try_res (struct_value [(''first_slot'', False), (''interval'', False), (''break_at_slot'', False), (''wrong_hash'', False)] v) (\<lambda>b.
        try_res (req_param b ''first_slot'' u64_from_value) (\<lambda>first_slot.
        try_res (req_param b ''interval'' u64_from_value) (\<lambda>interval.
        try_res (req_param b ''break_at_slot'' u64_from_value) (\<lambda>break_at_slot.
        try_res (req_param b ''wrong_hash'' string_from_value) (\<lambda>wrong_hash.
          Ok (BrokenPrevHash first_slot interval break_at_slot wrong_hash))))))
      else anyhow (''unknown variant `'' @ tag @ ''`''))"

definition production_rule_from_value :: "json \<Rightarrow> production_rule res" where
  "production_rule_from_value v = try_res (tagged_value v) (\<lambda>(tag, body). production_rule_of_tag tag body)"

definition peer_from_value :: "json \<Rightarrow> peer res" where
  "peer_from_value v =
     try_res (struct_value [(''id'', False), (''chain_sync_fixture'', False), (''block_fetch_fixture'', False),
        (''description'', False), (''production_rule'', False)] v) (\<lambda>b.
     try_res (req_param b ''id'' string_from_value) (\<lambda>pid.
     try_res (read_param b ''chain_sync_fixture'' opt_string_from_value) (\<lambda>chain_sync_fixture.
     try_res (read_param b ''block_fetch_fixture'' opt_string_from_value) (\<lambda>block_fetch_fixture.
     try_res (read_param b ''description'' opt_string_from_value) (\<lambda>description.
     try_res (read_param b ''production_rule'' (opt_from_value production_rule_from_value)) (\<lambda>production_rule.
       Ok \<lparr>peer_id = pid, chain_sync_fixture = chain_sync_fixture, block_fetch_fixture = block_fetch_fixture,
           peer_description = description, production_rule = production_rule\<rparr>))))))"

definition network_from_value :: "json \<Rightarrow> network res" where
  "network_from_value v =
     try_res (struct_value [(''peers'', False), (''start_slot'', False), (''slot_length_ms'', False)] v) (\<lambda>b.
     try_res (req_param b ''peers'' (vec_from_value peer_from_value)) (\<lambda>peers.
     try_res (read_param b ''start_slot'' (opt_from_value u64_from_value)) (\<lambda>start_slot.
     try_res (read_param b ''slot_length_ms'' (opt_from_value u64_from_value)) (\<lambda>slot_length_ms.
       Ok \<lparr>net_peers = peers, start_slot = start_slot, slot_length_ms = slot_length_ms\<rparr>))))"

definition scenario_from_value :: "json \<Rightarrow> scenario res" where
  "scenario_from_value v =
     try_res (struct_value [(''name'', False), (''description'', False), (''target_address'', False), (''network_magic'', False),
        (''trace_output_path'', False), (''expected_outcome'', False), (''network'', False), (''steps'', False),
        (''sut_genesis_time_unix'', False), (''sut_slot_duration_ms'', False)] v) (\<lambda>b.
     try_res (req_param b ''name'' string_from_value) (\<lambda>name.
     try_res (read_param b ''description'' opt_string_from_value) (\<lambda>description.
     try_res (read_param b ''target_address'' opt_string_from_value) (\<lambda>target_address.
     try_res (req_param b ''network_magic'' u64_from_value) (\<lambda>network_magic.
     try_res (req_param b ''trace_output_path'' string_from_value) (\<lambda>trace_output_path.
     try_res (read_param b ''expected_outcome'' opt_string_from_value) (\<lambda>expected_outcome.
     try_res (read_param b ''network'' (opt_from_value network_from_value)) (\<lambda>network.
     try_res (req_param b ''steps'' steps_from_value) (\<lambda>steps.
     try_res (read_param b ''sut_genesis_time_unix'' (opt_from_value u64_from_value)) (\<lambda>genesis.
     try_res (read_param b ''sut_slot_duration_ms'' (opt_from_value u64_from_value)) (\<lambda>duration.
       Ok \<lparr>sc_name = name, sc_description = description, sc_target_address = target_address,
           sc_network_magic = network_magic, sc_trace_output_path = trace_output_path,
           sc_expected_outcome = expected_outcome, sc_network = network, sc_steps = steps,
           sc_sut_genesis_time_unix = genesis, sc_sut_slot_duration_ms = duration\<rparr>)))))))))))"

section \<open>Lemmas\<close>

lemma struct_value_object [simp]: "struct_value fs (JObject m) = Ok (JObject m)"
  by (simp add: struct_value_def)

lemma optional_field_absent:
  "json_get k v = None \<Longrightarrow> read_param v k (opt_from_value f) = Ok None"
  "json_get k v = None \<Longrightarrow> read_param v k opt_string_from_value = Ok None"
  by (simp_all add: read_param_def field_or_null_def opt_from_value_def opt_string_from_value_def)

end
