(* ===== verification/Steps.thy ===== *)
theory Steps
  imports Io_Rules
begin

text \<open>
  Code that may not return: a function of a state (the world, or more) to a result and the next
  state, or \<open>None\<close> when it waits for ever. Sequencing, matching on a result, the lift of
  world-passing code, and the relations between the state before and after that sequencing keeps.
\<close>

type_synonym ('a, 's) stepper = "'s \<Rightarrow> ('a res \<times> 's) option"

section \<open>Combinators\<close>

text \<open>\<open>m?\<close> followed by the rest.\<close>

definition bind_run :: "('a, 's) stepper \<Rightarrow> ('a \<Rightarrow> ('b, 's) stepper) \<Rightarrow> ('b, 's) stepper" where
  "bind_run m k s = (case m s of
     None \<Rightarrow> None
   | Some (Ok x, s') \<Rightarrow> k x s'
   | Some (Err e, s') \<Rightarrow> Some (Err e, s')
   | Some (Panic, s') \<Rightarrow> Some (Panic, s'))"

text \<open>\<open>match m.await { Ok(x) => .., Err(e) => .. }\<close>\<close>

definition match_run :: "('a, 's) stepper \<Rightarrow> (error + 'a \<Rightarrow> ('b, 's) stepper) \<Rightarrow> ('b, 's) stepper" where
  "match_run m k s = (case m s of
     None \<Rightarrow> None
   | Some (Ok x, s') \<Rightarrow> k (Inr x) s'
   | Some (Err e, s') \<Rightarrow> k (Inl e) s'
   | Some (Panic, s') \<Rightarrow> Some (Panic, s'))"

definition res_run :: "'a res \<Rightarrow> ('a, 's) stepper" where
  "res_run r s = Some (r, s)"

text \<open>World-passing code as such code, and an await that nothing ends.\<close>

definition on_io :: "'a io \<Rightarrow> ('a, world) stepper" where
  "on_io m w = Some (m w)"

definition waits_for_ever :: "('a, 's) stepper" where
  "waits_for_ever s = None"

lemma bind_run_Some:
  "bind_run m k s = Some (r, s') \<longleftrightarrow>
     (\<exists>x s1. m s = Some (Ok x, s1) \<and> k x s1 = Some (r, s')) \<or>
     (\<exists>e. m s = Some (Err e, s') \<and> r = Err e) \<or> (m s = Some (Panic, s') \<and> r = Panic)"
  by (auto simp: bind_run_def split: option.splits prod.splits res.splits)

lemma match_run_Some:
  "match_run m k s = Some (r, s') \<longleftrightarrow>
     (\<exists>x s1. m s = Some (Ok x, s1) \<and> k (Inr x) s1 = Some (r, s')) \<or>
     (\<exists>e s1. m s = Some (Err e, s1) \<and> k (Inl e) s1 = Some (r, s')) \<or> (m s = Some (Panic, s') \<and> r = Panic)"
  by (auto simp: match_run_def split: option.splits prod.splits res.splits)

lemma stepper_simps [run_simps]:
  "m s = Some (Ok x, s1) \<Longrightarrow> bind_run m k s = k x s1"
  "m s = Some (Err e, s1) \<Longrightarrow> bind_run m k s = Some (Err e, s1)"
  "m s = Some (Ok x, s1) \<Longrightarrow> match_run m j s = j (Inr x) s1"
  "m s = Some (Err e, s1) \<Longrightarrow> match_run m j s = j (Inl e) s1"
  "m s = None \<Longrightarrow> bind_run m k s = None"
  "res_run r s = Some (r, s)" "on_io i w = Some (i w)" "waits_for_ever s = None"
  by (simp_all add: bind_run_def match_run_def res_run_def on_io_def waits_for_ever_def)

section \<open>Relations that sequencing keeps\<close>

definition run_keeps :: "('s \<Rightarrow> 's \<Rightarrow> bool) \<Rightarrow> ('a, 's) stepper \<Rightarrow> bool" where
  "run_keeps R m \<longleftrightarrow> (\<forall>s r s'. m s = Some (r, s') \<longrightarrow> R s s')"

lemma run_keepsI: "(\<And>s r s'. m s = Some (r, s') \<Longrightarrow> R s s') \<Longrightarrow> run_keeps R m"
  unfolding run_keeps_def by blast

lemma run_keepsD: "run_keeps R m \<Longrightarrow> m s = Some (r, s') \<Longrightarrow> R s s'"
  unfolding run_keeps_def by blast

locale step_preorder =
  fixes R :: "'s \<Rightarrow> 's \<Rightarrow> bool"
  assumes refl: "R s s"
    and trans: "R s1 s2 \<Longrightarrow> R s2 s3 \<Longrightarrow> R s1 s3"
begin

lemma run_keeps_res: "run_keeps R (res_run r)"
  by (simp add: run_keeps_def res_run_def refl)

lemma run_keeps_waits: "run_keeps R waits_for_ever"
  by (simp add: run_keeps_def waits_for_ever_def)

lemma run_keeps_bind:
  assumes "run_keeps R m" "\<And>x. run_keeps R (k x)"
  shows "run_keeps R (bind_run m k)"
proof (rule run_keepsI)
  fix s r s'
  assume "bind_run m k s = Some (r, s')"
  then show "R s s'"
    unfolding bind_run_Some using run_keepsD [OF assms(1)] run_keepsD [OF assms(2)] by (blast intro: trans)
qed

lemma run_keeps_match:
  assumes "run_keeps R m" "\<And>x. run_keeps R (k x)"
  shows "run_keeps R (match_run m k)"
proof (rule run_keepsI)
  fix s r s'
  assume "match_run m k s = Some (r, s')"
  then show "R s s'"
    unfolding match_run_Some using run_keepsD [OF assms(1)] run_keepsD [OF assms(2)] by (blast intro: trans)
qed

lemma run_keeps_if: "run_keeps R m \<Longrightarrow> run_keeps R n \<Longrightarrow> run_keeps R (if b then m else n)"
  by simp

lemma run_keeps_option:
  "run_keeps R m \<Longrightarrow> (\<And>x. run_keeps R (k x)) \<Longrightarrow> run_keeps R (case v of None \<Rightarrow> m | Some x \<Rightarrow> k x)"
  by (cases v) auto

lemma run_keeps_sum:
  "(\<And>x. run_keeps R (j x)) \<Longrightarrow> (\<And>x. run_keeps R (k x)) \<Longrightarrow> run_keeps R (case v of Inl x \<Rightarrow> j x | Inr x \<Rightarrow> k x)"
  by (cases v) auto

lemma run_keeps_prod: "(\<And>a b. run_keeps R (f a b)) \<Longrightarrow> run_keeps R (case p of (a, b) \<Rightarrow> f a b)"
  by (cases p) auto

lemmas run_rules = run_keeps_res run_keeps_waits run_keeps_bind run_keeps_match run_keeps_if
  run_keeps_option run_keeps_sum run_keeps_prod

end

text \<open>Sessions: the trace, the buffer and the wire only grow.\<close>

lemma run_keeps_on_io: "keeps R m \<Longrightarrow> run_keeps R (on_io m)"
  by (auto simp: run_keeps_def on_io_def intro: keepsD)

interpretation sess_run: step_preorder session_extends
  by unfold_locales (simp add: session_extends_def extends_refl, rule session_extends_trans)

lemmas sess_run_rules = sess_run.run_rules run_keeps_on_io sess_rules

end
