(* ===== verification/Client.thy ===== *)
theory Client
  imports Steps
begin

text \<open>
  What the client sessions share. The typed clients of the mini-protocols are functions of the
  package \<open>net-core\<close> (\<open>chainsync::request_next\<close> and the like): each call makes a request of the
  peer and returns what the package makes of the peer's answer. The answers are arguments of the
  model, as lists that the calls use up in order; where a list ends the peer is silent from then
  on, and the call waits. The requests go to the wire log of the world.
\<close>

section \<open>Types of the package\<close>

text \<open>\<open>WrappedHeader\<close>: the raw bytes, what the package could parse of them, and \<open>point()\<close>.\<close>

record header_info =
  hi_era :: u8
  hi_block_number :: u64

record wrapped_header =
  wh_raw :: bytes
  wh_parsed :: "header_info option"
  wh_point :: "nc_point option"

datatype nc_tip = NcTip nc_point u64

datatype cs_event = NextRollForward wrapped_header nc_tip | NextRollBackward nc_point nc_tip

text \<open>The answers of one channel, per call of the package. A \<open>Left\<close> is the call's error text.\<close>

record cs_channel =
  ch_find :: "(string + (nc_point \<times> nc_tip) option) option"
  ch_next :: "(string + cs_event) list"
  ch_done :: "string option"

record bf_channel =
  bch_range :: "(string + bool) list"
  bch_block :: "(string + bytes option) list"
  bch_done :: "string option"

datatype ln_event =
    LnBlockAnnouncement bytes
  | LnBlockOffer nc_point u32
  | LnBlockTxsOffer nc_point
  | LnVotes "vote list"

record ln_channel =
  nch_next :: "(string + ln_event) list"
  nch_done :: "string option"

record lf_channel =
  fch_fetch :: "(string + bytes) list"
  fch_done :: "string option"

section \<open>Calls\<close>

definition request :: "wire \<Rightarrow> unit io" where
  "request m w = (Ok (), w\<lparr>wire_out := wire_out w @ [m]\<rparr>)"

text \<open>A call without a time limit, on its answer if there is one.\<close>

definition call :: "wire \<Rightarrow> (string + 'a) option \<Rightarrow> (string + 'a, world) stepper" where
  "call m answer = bind_run (on_io (request m)) (\<lambda>_.
     case answer of None \<Rightarrow> waits_for_ever | Some a \<Rightarrow> res_run (Ok a))"

text \<open>The same under \<open>timeout(secs)\<close>, where zero seconds mean no limit; \<open>None\<close> is an elapsed limit.\<close>

definition timed_call :: "u64 \<Rightarrow> wire \<Rightarrow> (string + 'a) option \<Rightarrow> ((string + 'a) option, world) stepper" where
  "timed_call secs m answer = bind_run (on_io (request m)) (\<lambda>_.
     case answer of
       None \<Rightarrow> if secs = 0 then waits_for_ever else res_run (Ok None)
     | Some a \<Rightarrow> res_run (Ok (Some a)))"

definition next_answer :: "'a list \<Rightarrow> 'a option" where
  "next_answer rs = (case rs of [] \<Rightarrow> None | r # _ \<Rightarrow> Some r)"

definition phase_error_event :: "string \<Rightarrow> string \<Rightarrow> string \<Rightarrow> (string \<times> json) list \<Rightarrow> trace_event" where
  "phase_error_event mini_protocol phase msg extra = with_protocol mini_protocol (new_event Error Internal (jobj
     ([(''phase'', JString phase), (''error'', JString msg)] @ extra)))"

text \<open>\<open>let _ = m.await\<close>\<close>

definition quietly :: "unit io \<Rightarrow> (unit, world) stepper" where
  "quietly m = on_io (ignore_io m (ret ()))"

definition fails :: "string \<Rightarrow> ('a, 's) stepper" where
  "fails m = res_run (anyhow m)"

section \<open>What a session asks\<close>

text \<open>\<open>writes P m\<close>: whenever \<open>m\<close> returns, its result and the messages it has put on the wire satisfy
  \<open>P\<close>, whatever fails on the way. The rules compute weakest preconditions.\<close>

definition writes :: "('a res \<Rightarrow> wire list \<Rightarrow> bool) \<Rightarrow> ('a, world) stepper \<Rightarrow> bool" where
  "writes P m \<longleftrightarrow> (\<forall>w r w'. m w = Some (r, w') \<longrightarrow> (\<exists>ms. wire_out w' = wire_out w @ ms \<and> P r ms))"

lemma writesD: "writes P m \<Longrightarrow> m w = Some (r, w') \<Longrightarrow> \<exists>ms. wire_out w' = wire_out w @ ms \<and> P r ms"
  unfolding writes_def by blast

lemma writes_mono: "writes P m \<Longrightarrow> (\<And>r ms. P r ms \<Longrightarrow> Q r ms) \<Longrightarrow> writes Q m"
  unfolding writes_def by blast

lemma writes_bind:
  assumes "writes (\<lambda>r ms. case r of
      Ok x \<Rightarrow> writes (\<lambda>r' ms'. P r' (ms @ ms')) (k x) | Err e \<Rightarrow> P (Err e) ms | Panic \<Rightarrow> P Panic ms) m"
  shows "writes P (bind_run m k)"
  unfolding writes_def
proof (intro allI impI)
  fix w r w'
  assume "bind_run m k w = Some (r, w')"
  then consider (ok) x w1 where "m w = Some (Ok x, w1)" "k x w1 = Some (r, w')"
    | (err) e where "m w = Some (Err e, w')" "r = Err e" | (panic) "m w = Some (Panic, w')" "r = Panic"
    unfolding bind_run_Some by blast
  then show "\<exists>ms. wire_out w' = wire_out w @ ms \<and> P r ms"
  proof cases
    case ok
    with assms obtain ms where ms: "wire_out w1 = wire_out w @ ms" "writes (\<lambda>r' ms'. P r' (ms @ ms')) (k x)"
      by (fastforce dest!: writesD)
    from writesD [OF ms(2) ok(2)] ms(1) show ?thesis by auto
  next
    case err
    with assms show ?thesis by (fastforce dest!: writesD)
  next
    case panic
    with assms show ?thesis by (fastforce dest!: writesD)
  qed
qed

lemma writes_res: "P r [] \<Longrightarrow> writes P (res_run r)"
  by (simp add: writes_def res_run_def)

lemma writes_waits: "writes P waits_for_ever"
  by (simp add: writes_def waits_for_ever_def)

lemma writes_fails: "(\<And>e. P (Err e) []) \<Longrightarrow> writes P (fails m)"
  by (simp add: writes_def fails_def res_run_def anyhow_def)

lemma writes_emit: "P (Ok ()) [] \<Longrightarrow> (\<And>e. P (Err e) []) \<Longrightarrow> writes P (on_io (emit t e))"
  by (simp add: writes_def on_io_def emit_def Let_def anyhow_def split: option.split)

lemma writes_quietly: "P (Ok ()) [] \<Longrightarrow> writes P (quietly (emit t e))"
  by (simp add: writes_def quietly_def on_io_def emit_def Let_def ignore_io_def ret_def anyhow_def split: option.split)

lemma writes_request: "P (Ok ()) [m] \<Longrightarrow> writes P (on_io (request m))"
  by (simp add: writes_def request_def on_io_def)

lemma writes_call: "(\<And>a. answer = Some a \<Longrightarrow> P (Ok a) [m]) \<Longrightarrow> writes P (call m answer)"
  by (simp add: writes_def call_def bind_run_def request_def on_io_def res_run_def waits_for_ever_def split: option.split)

lemma writes_timed_call:
  assumes "answer = None \<Longrightarrow> secs \<noteq> 0 \<Longrightarrow> P (Ok None) [m]" "\<And>a. answer = Some a \<Longrightarrow> P (Ok (Some a)) [m]"
  shows "writes P (timed_call secs m answer)"
  using assms by (cases answer) (auto simp: writes_def timed_call_def bind_run_def request_def on_io_def
      res_run_def waits_for_ever_def split: if_splits)

lemmas writes_rules = writes_bind writes_res writes_waits writes_fails writes_emit writes_quietly
  writes_request writes_call writes_timed_call

section \<open>Lemmas\<close>

lemma next_answer_simps [simp]: "next_answer [] = None" "next_answer (r # rs) = Some r"
  by (simp_all add: next_answer_def)

definition requested :: "wire \<Rightarrow> world \<Rightarrow> world" where
  "requested m w = w\<lparr>wire_out := wire_out w @ [m]\<rparr>"

lemma requested_fields [simp]:
  "reliable (requested m w) = reliable w" "wire_out (requested m w) = wire_out w @ [m]"
  "trace_file (requested m w) = trace_file w" "slot_cell (requested m w) = slot_cell w"
  "event_buffer (requested m w) = event_buffer w"
  by (simp_all add: requested_def reliable_def)

lemma client_run [run_simps]:
  "request m w = (Ok (), requested m w)"
  "call m None w = None" "call m (Some a) w = Some (Ok a, requested m w)"
  "timed_call secs m None w = (if secs = 0 then None else Some (Ok None, requested m w))"
  "timed_call secs m (Some a) w = Some (Ok (Some a), requested m w)"
  "fails msg s = Some (anyhow msg, s)"
  by (simp_all add: request_def requested_def call_def timed_call_def fails_def bind_run_def on_io_def
      res_run_def waits_for_ever_def)

lemma quietly_reliable [run_simps]: "reliable w \<Longrightarrow> quietly (emit t e) w = Some (Ok (), logged t e w)"
  by (simp add: quietly_def on_io_def emit_reliable ignore_io_def ret_def)

lemma quietly_emit: "\<exists>w'. quietly (emit t e) w = Some (Ok (), w') \<and> wire_out w' = wire_out w \<and> reliable w' = reliable w"
  by (simp add: quietly_def on_io_def emit_def Let_def ignore_io_def ret_def anyhow_def reliable_def split: option.split)

lemma sess_request: "keeps session_extends (request m)"
  by (simp add: keeps_def request_def session_extends_def extends_def)

lemma sess_call: "run_keeps session_extends (call m a)"
  unfolding call_def by (intro sess_run_rules sess_request)

lemma sess_timed_call: "run_keeps session_extends (timed_call secs m a)"
  unfolding timed_call_def by (intro sess_run_rules sess_request)

lemma sess_quietly: "keeps session_extends m \<Longrightarrow> run_keeps session_extends (quietly m)"
  unfolding quietly_def by (intro sess_run_rules)

lemma sess_fails: "run_keeps session_extends (fails m)"
  unfolding fails_def by (rule sess_run_rules)

lemmas client_rules = sess_run_rules sess_call sess_timed_call sess_quietly sess_fails

end
