(* ===== verification/Handshake.thy ===== *)
theory Handshake
  imports Client
begin

text \<open>
  The version negotiation of an outgoing connection (\<open>miniprotocols/handshake.rs\<close>). The version
  table, the resolver, the dialler and the peer's answer come from outside.
\<close>

section \<open>Negotiation\<close>

text \<open>\<open>HandshakeResult\<close>; a refusal is known by its debug text.\<close>

datatype hs_result = Accepted u64 | Refused string | QueryReply

type_synonym hs_channel = "(string + hs_result) option"

definition hs_started_event :: "u64 \<Rightarrow> trace_event" where
  "hs_started_event magic = new_event HandshakeStarted Internal (jobj [(''magic'', jnum magic)])"

definition hs_proposed_event :: "u64 list \<Rightarrow> u64 \<Rightarrow> trace_event" where
  "hs_proposed_event versions magic = new_event HandshakeVersionProposed Sent (jobj
     [(''versions'', JArray (map jnum versions)), (''magic'', jnum magic)])"

definition hs_accepted_event :: "u64 \<Rightarrow> trace_event" where
  "hs_accepted_event v = new_event HandshakeVersionAccepted Received (jobj [(''version'', jnum v)])"

definition hs_rejected_event :: "string \<Rightarrow> trace_event" where
  "hs_rejected_event reason = new_event HandshakeVersionRejected Received (jobj [(''reason'', JString reason)])"

definition hs_completed_event :: "u64 \<Rightarrow> trace_event" where
  "hs_completed_event v = new_event HandshakeCompleted Internal (jobj [(''negotiated_version'', jnum v)])"

definition hs_negotiated :: "tracer \<Rightarrow> hs_result \<Rightarrow> (u64, world) stepper" where
  "hs_negotiated t result = (case result of
     Accepted v \<Rightarrow> bind_run (on_io (emit t (hs_accepted_event v))) (\<lambda>_. res_run (Ok v))
   | Refused reason \<Rightarrow> bind_run (on_io (emit t (hs_rejected_event reason))) (\<lambda>_.
       fails (''handshake rejected: '' @ reason))
   | QueryReply \<Rightarrow> fails ''unexpected QueryReply during initiator handshake'')"

text \<open>\<open>keys\<close> are those of the package's version table for the magic, in the order of its map.\<close>

definition handshake_on_channels :: "tracer \<Rightarrow> u64 list \<Rightarrow> hs_channel \<Rightarrow> u64 \<Rightarrow> (u64, world) stepper" where
  "handshake_on_channels t keys ch magic =
     bind_run (on_io (emit t (hs_started_event magic))) (\<lambda>_.
     let proposed = sort keys in
     bind_run (on_io (emit t (hs_proposed_event proposed magic))) (\<lambda>_.
     bind_run (call (HsWire (ProposeVersions proposed magic)) ch) (\<lambda>answer. case answer of
       Inl e \<Rightarrow> fails (''handshake failed: '' @ e)
     | Inr result \<Rightarrow>
         bind_run (hs_negotiated t result) (\<lambda>negotiated.
         bind_run (on_io (emit t (hs_completed_event negotiated))) (\<lambda>_. res_run (Ok negotiated))))))"

section \<open>Opening a connection\<close>

text \<open>The first address that the resolver gives is dialled; the texts are those of the caller's errors.\<close>

definition open_bearer :: "string \<Rightarrow> string \<Rightarrow> string \<Rightarrow> (string \<Rightarrow> string + string list)
    \<Rightarrow> (string \<Rightarrow> string + 'link) \<Rightarrow> string \<Rightarrow> 'link res" where
  "open_bearer not_resolved no_address not_connected resolve dial addr =
     try_res (with_context (not_resolved @ addr)
       (case resolve addr of Inl e \<Rightarrow> anyhow e | Inr addrs \<Rightarrow> Ok addrs)) (\<lambda>addrs.
     try_res (ok_or (no_address @ addr) (next_answer addrs)) (\<lambda>socket_addr.
     with_context (not_connected @ addr)
       (case dial socket_addr of Inl e \<Rightarrow> anyhow e | Inr link \<Rightarrow> Ok link)))"

definition connection_opened_event :: "string \<Rightarrow> trace_event" where
  "connection_opened_event addr = new_event ConnectionOpened Internal (jobj [(''addr'', JString addr)])"

definition connection_closed_event :: "(string \<times> json) list \<Rightarrow> trace_event" where
  "connection_closed_event payload = new_event ConnectionClosed Internal (jobj payload)"

text \<open>The stand-alone probe.\<close>

definition run_handshake :: "tracer \<Rightarrow> (u64 \<Rightarrow> u64 list) \<Rightarrow> (string \<Rightarrow> string + string list)
    \<Rightarrow> (string \<Rightarrow> string + hs_channel) \<Rightarrow> string \<Rightarrow> u64 \<Rightarrow> (u64, world) stepper" where
  "run_handshake t version_keys resolve dial addr magic =
     bind_run (res_run (open_bearer ''failed to resolve '' ''no address resolved for '' ''failed to connect to ''
       resolve dial addr)) (\<lambda>ch.
     bind_run (on_io (emit t (connection_opened_event addr))) (\<lambda>_.
     match_run (handshake_on_channels t (version_keys magic) ch magic) (\<lambda>r. case r of
       Inr v \<Rightarrow> bind_run (on_io (emit t (connection_closed_event []))) (\<lambda>_. res_run (Ok v))
     | Inl e \<Rightarrow> bind_run (on_io (emit t (connection_closed_event [(''reason'', JString ''error'')]))) (\<lambda>_.
         res_run (Err e)))))"

section \<open>Lemmas\<close>

lemma sess_handshake: "run_keeps session_extends (handshake_on_channels t keys ch magic)"
proof -
  have "run_keeps session_extends (hs_negotiated t result)" for result
    by (cases result) (auto simp: hs_negotiated_def intro!: client_rules)
  then show ?thesis
    unfolding handshake_on_channels_def Let_def by (intro client_rules)
qed

lemma handshake_accepted_run:
  "reliable w \<Longrightarrow> handshake_on_channels t keys (Some (Inr (Accepted v))) magic w =
     Some (Ok v, logged t (hs_completed_event v) (logged t (hs_accepted_event v)
       (requested (HsWire (ProposeVersions (sort keys) magic))
         (logged t (hs_proposed_event (sort keys) magic) (logged t (hs_started_event magic) w)))))"
  by (simp add: handshake_on_channels_def hs_negotiated_def run_simps Let_def)

end
