(* ===== verification/Workers.thy ===== *)
theory Workers
  imports Client Script
begin

text \<open>
  The background workers of a connection: the keep-alive client and server
  (\<open>miniprotocols/keepalive.rs\<close>) and the passive transaction producer
  (\<open>miniprotocols/txsubmission.rs\<close>). A failed call or send ends a worker without an error. The end
  of the list of a peer's messages is the closed channel.
\<close>

section \<open>Keep-alive\<close>

definition ka_protocol :: string where
  "ka_protocol = ''keep-alive''"

definition keep_alive_interval :: u64 where
  "keep_alive_interval = 20"

definition ka_sent_event :: "u16 \<Rightarrow> trace_event" where
  "ka_sent_event cookie = with_protocol ka_protocol (new_event KeepAliveSent Sent (jobj [(''cookie'', jnum (ucast cookie))]))"

definition ka_received_event :: "u16 \<Rightarrow> trace_event" where
  "ka_received_event cookie = with_protocol ka_protocol (new_event KeepAliveReceived Received (jobj [(''cookie'', jnum (ucast cookie))]))"

text \<open>One round per answer; with no answer left the call waits.\<close>

fun keepalive_loop :: "tracer \<Rightarrow> u64 \<Rightarrow> (string + unit) list \<Rightarrow> u16 \<Rightarrow> (unit, world) stepper" where
  "keepalive_loop t interval [] cookie =
     bind_run (on_io (sleep_secs interval)) (\<lambda>_.
     bind_run (call (KaWire (MsgKeepAlive cookie)) (None :: (string + unit) option)) (\<lambda>_. res_run (Ok ())))"
| "keepalive_loop t interval (a # as) cookie =
     bind_run (on_io (sleep_secs interval)) (\<lambda>_.
     bind_run (call (KaWire (MsgKeepAlive cookie)) (Some a)) (\<lambda>result. case result of
       Inl e \<Rightarrow> res_run (Ok ())
     | Inr _ \<Rightarrow>
         bind_run (quietly (emit t (ka_sent_event cookie))) (\<lambda>_.
         bind_run (quietly (emit t (ka_received_event cookie))) (\<lambda>_.
         keepalive_loop t interval as (cookie + 1)))))"

definition run_keepalive :: "tracer \<Rightarrow> u64 \<Rightarrow> (string + unit) list \<Rightarrow> (unit, world) stepper" where
  "run_keepalive t interval answers = keepalive_loop t interval answers 0"

text \<open>\<open>if let Err(e) = m.await { break; }\<close>\<close>

definition or_break :: "unit io \<Rightarrow> unit io \<Rightarrow> unit io" where
  "or_break m k w = (case m w of
     (Ok _, w') \<Rightarrow> k w'
   | (Err _, w') \<Rightarrow> (Ok (), w')
   | (Panic, w') \<Rightarrow> (Panic, w'))"

fun run_keepalive_server :: "(string + ka_message) list \<Rightarrow> unit io" where
  "run_keepalive_server [] = ret ()"
| "run_keepalive_server (Inl e # ms) = ret ()"
| "run_keepalive_server (Inr (MsgKeepAlive cookie) # ms) =
     or_break (send_wire [] (KaWire (MsgKeepAliveResponse cookie))) (run_keepalive_server ms)"
| "run_keepalive_server (Inr KaMsgDone # ms) = ret ()"
| "run_keepalive_server (Inr m # ms) = run_keepalive_server ms"

section \<open>Transactions\<close>

definition ts_protocol :: string where
  "ts_protocol = ''tx-submission''"

definition ts_event :: "direction \<Rightarrow> (string \<times> json) list \<Rightarrow> trace_event" where
  "ts_event d payload = with_protocol ts_protocol (new_event TxSubmissionMessage d (jobj payload))"

definition ts_exchange :: "tracer \<Rightarrow> (string \<times> json) list \<Rightarrow> ts_message \<Rightarrow> string \<Rightarrow> unit io \<Rightarrow> unit io" where
  "ts_exchange t received reply reply_kind k =
     ignore_io (emit t (ts_event Received received))
       (or_break (send_wire [] (TsWire reply))
         (ignore_io (emit t (ts_event Sent [(''msg_kind'', JString reply_kind), (''count'', jlen 0)])) k))"

fun tx_loop :: "tracer \<Rightarrow> (string + ts_message) list \<Rightarrow> unit io" where
  "tx_loop t [] = ret ()"
| "tx_loop t (Inl e # ms) = ret ()"
| "tx_loop t (Inr (MsgRequestTxIdsBlocking ack req) # ms) =
     ts_exchange t [(''msg_kind'', JString ''request_tx_ids''), (''blocking'', JBool True),
       (''ack'', jnum (ucast ack)), (''req'', jnum (ucast req))] (MsgReplyTxIds []) ''reply_tx_ids'' (tx_loop t ms)"
| "tx_loop t (Inr (MsgRequestTxIdsNonBlocking ack req) # ms) =
     ts_exchange t [(''msg_kind'', JString ''request_tx_ids''), (''blocking'', JBool False),
       (''ack'', jnum (ucast ack)), (''req'', jnum (ucast req))] (MsgReplyTxIds []) ''reply_tx_ids'' (tx_loop t ms)"
| "tx_loop t (Inr (MsgRequestTxs tx_ids) # ms) =
     ts_exchange t [(''msg_kind'', JString ''request_txs''), (''count'', jlen (length tx_ids))]
       (MsgReplyTxs []) ''reply_txs'' (tx_loop t ms)"
| "tx_loop t (Inr m # ms) = ret ()"

definition run_tx_submission :: "tracer \<Rightarrow> (string + ts_message) list \<Rightarrow> unit io" where
  "run_tx_submission t inbox =
     or_break (send_wire [] (TsWire TsMsgInit))
       (ignore_io (emit t (ts_event Sent [(''msg_kind'', JString ''init'')])) (tx_loop t inbox))"

section \<open>What the workers write\<close>

text \<open>The replies that the producer owes: one empty list per request, up to anything else.\<close>

fun ts_replies :: "(string + ts_message) list \<Rightarrow> ts_message list" where
  "ts_replies (Inr (MsgRequestTxIdsBlocking ack req) # ms) = MsgReplyTxIds [] # ts_replies ms"
| "ts_replies (Inr (MsgRequestTxIdsNonBlocking ack req) # ms) = MsgReplyTxIds [] # ts_replies ms"
| "ts_replies (Inr (MsgRequestTxs tx_ids) # ms) = MsgReplyTxs [] # ts_replies ms"
| "ts_replies ms = []"

text \<open>A world-passing computation that returns and sends a beginning of the given messages, all of
  them when nothing fails.\<close>

definition sends_prefix :: "wire list \<Rightarrow> unit io \<Rightarrow> bool" where
  "sends_prefix ms m \<longleftrightarrow> (\<forall>w. \<exists>n w'. m w = (Ok (), w') \<and> wire_out w' = wire_out w @ take n ms \<and>
     (reliable w \<longrightarrow> reliable w' \<and> wire_out w' = wire_out w @ ms))"

lemma sends_prefix_ret: "sends_prefix [] (ret ())"
  by (simp add: sends_prefix_def ret_def)

lemma sends_prefix_emit:
  assumes "sends_prefix ms k"
  shows "sends_prefix ms (ignore_io (emit t e) k)"
  unfolding sends_prefix_def
proof
  fix w
  obtain r w1 where m: "emit t e w = (r, w1)" by (cases "emit t e w")
  then have e: "emit t e w = (r, w1)" "r \<noteq> Panic" "wire_out w1 = wire_out w" "reliable w1 = reliable w"
    by (auto simp: emit_def Let_def anyhow_def reliable_def split: option.splits)
  then show "\<exists>n w'. ignore_io (emit t e) k w = (Ok (), w') \<and> wire_out w' = wire_out w @ take n ms \<and>
     (reliable w \<longrightarrow> reliable w' \<and> wire_out w' = wire_out w @ ms)"
    using assms unfolding sends_prefix_def ignore_io_def by (cases r) (auto dest!: spec [of _ w1])
qed

lemma sends_prefix_send:
  assumes "sends_prefix ms k"
  shows "sends_prefix (m # ms) (or_break (send_wire p m) k)"
  unfolding sends_prefix_def
proof
  fix w
  show "\<exists>n w'. or_break (send_wire p m) k w = (Ok (), w') \<and> wire_out w' = wire_out w @ take n (m # ms) \<and>
     (reliable w \<longrightarrow> reliable w' \<and> wire_out w' = wire_out w @ m # ms)"
  proof (cases "send_wire p m w")
    case (Pair r w1)
    then consider (sent) "r = Ok ()" "wire_out w1 = wire_out w @ [m]" "reliable w1 = reliable w"
      | (failed) "\<exists>e. r = Err e" "wire_out w1 = wire_out w" "\<not> reliable w"
      by (cases "env_send_err w (send_attempts w)") (fastforce simp: send_wire_def anyhow_def reliable_def)+
    then show ?thesis
    proof cases
      case sent
      then obtain n w' where "k w1 = (Ok (), w')" "wire_out w' = wire_out w1 @ take n ms"
        "reliable w1 \<longrightarrow> reliable w' \<and> wire_out w' = wire_out w1 @ ms"
        using assms unfolding sends_prefix_def by blast
      with sent Pair show ?thesis by (intro exI [of _ "Suc n"] exI [of _ w']) (auto simp: or_break_def)
    next
      case failed
      with Pair show ?thesis by (intro exI [of _ 0] exI [of _ w1]) (auto simp: or_break_def)
    qed
  qed
qed

lemmas sends_rules = sends_prefix_ret sends_prefix_emit sends_prefix_send

lemma sends_tx_loop: "sends_prefix (map TsWire (ts_replies inbox)) (tx_loop t inbox)"
  by (induction inbox rule: ts_replies.induct) (auto simp: ts_exchange_def intro!: sends_rules)

text \<open>The cookies that the keep-alive server owes an answer.\<close>

fun ka_cookies :: "(string + ka_message) list \<Rightarrow> u16 list" where
  "ka_cookies (Inr (MsgKeepAlive cookie) # ms) = cookie # ka_cookies ms"
| "ka_cookies (Inr (MsgKeepAliveResponse cookie) # ms) = ka_cookies ms"
| "ka_cookies (Inr (KaOther s) # ms) = ka_cookies ms"
| "ka_cookies ms = []"

lemma sends_keepalive_server: "sends_prefix (map (\<lambda>c. KaWire (MsgKeepAliveResponse c)) (ka_cookies ms)) (run_keepalive_server ms)"
  by (induction ms rule: ka_cookies.induct) (auto intro!: sends_rules)

lemma keepalive_loop_run:
  assumes "reliable w"
  shows "\<exists>w'. keepalive_loop t interval (replicate n (Inr ()) @ [Inl e]) cookie w = Some (Ok (), w') \<and>
    wire_out w' = wire_out w @ map (\<lambda>i. KaWire (MsgKeepAlive (cookie + of_nat i))) [0..<Suc n] \<and>
    slept_secs w' = slept_secs w @ replicate (Suc n) interval"
  using assms
proof (induction n arbitrary: cookie w)
  case 0
  then show ?case by (simp add: run_simps requested_def slept_def)
next
  case (Suc n)
  let ?w = "logged t (ka_received_event cookie) (logged t (ka_sent_event cookie)
    (requested (KaWire (MsgKeepAlive cookie)) (slept interval w)))"
  have "reliable ?w" using Suc.prems by simp
  from Suc.IH [OF this, of "cookie + 1"] obtain w' where w':
    "keepalive_loop t interval (replicate n (Inr ()) @ [Inl e]) (cookie + 1) ?w = Some (Ok (), w')"
    "wire_out w' = wire_out ?w @ map (\<lambda>i. KaWire (MsgKeepAlive (cookie + 1 + of_nat i))) [0..<Suc n]"
    "slept_secs w' = slept_secs ?w @ replicate (Suc n) interval" by blast
  have "[0..<Suc (Suc n)] = 0 # map Suc [0..<Suc n]" by (simp add: map_Suc_upt upt_conv_Cons del: upt_Suc)
  moreover have "keepalive_loop t interval (replicate (Suc n) (Inr ()) @ [Inl e]) cookie w =
      keepalive_loop t interval (replicate n (Inr ()) @ [Inl e]) (cookie + 1) ?w"
    using Suc.prems by (simp add: run_simps)
  moreover have "wire_out ?w = wire_out w @ [KaWire (MsgKeepAlive cookie)]" "slept_secs ?w = slept_secs w @ [interval]"
    by (simp_all add: requested_def slept_def logged_def Let_def)
  ultimately show ?case using w' by (simp add: comp_def ac_simps del: upt_Suc)
qed

section \<open>Properties\<close>

text \<open>The transaction producer offers nothing: whatever the peer asks and whatever fails, it returns
  without an error and sends a beginning of \<open>MsgInit\<close> and one empty reply per request in order, up
  to the first message that is not a request; in a world where nothing fails it sends all of them.\<close>

theorem tx_submission_offers_nothing:
  "\<exists>n w'. run_tx_submission t inbox w = (Ok (), w') \<and>
    wire_out w' = wire_out w @ take n (TsWire TsMsgInit # map TsWire (ts_replies inbox)) \<and>
    (\<forall>m. m \<in> set (ts_replies inbox) \<longrightarrow> m = MsgReplyTxIds [] \<or> m = MsgReplyTxs []) \<and>
    (reliable w \<longrightarrow> wire_out w' = wire_out w @ TsWire TsMsgInit # map TsWire (ts_replies inbox))"
proof -
  have "sends_prefix (TsWire TsMsgInit # map TsWire (ts_replies inbox)) (run_tx_submission t inbox)"
    unfolding run_tx_submission_def by (intro sends_rules sends_tx_loop)
  moreover have "\<forall>m. m \<in> set (ts_replies inbox) \<longrightarrow> m = MsgReplyTxIds [] \<or> m = MsgReplyTxs []"
    by (induction inbox rule: ts_replies.induct) auto
  ultimately show ?thesis unfolding sends_prefix_def by blast
qed

theorem tx_submission_offers_nothing_witness:
  "wire_out (snd (run_tx_submission tracer_open [Inr (MsgRequestTxs [[1]]), Inr TsMsgDone] fresh_world)) =
     [TsWire TsMsgInit, TsWire (MsgReplyTxs [])]"
  using tx_submission_offers_nothing [of tracer_open "[Inr (MsgRequestTxs [[1]]), Inr TsMsgDone]" fresh_world]
  by (auto simp: reliable_fresh_world)

text \<open>The two keep-alive workers fit together: the client pings once per interval with the cookies 0,
  1, 2 and so on, modulo 65536, until a ping fails, and the server, fed those pings, answers every
  one of them with its own cookie, in order.\<close>

theorem keepalive_cookies_answered:
  fixes n e
  defines "cookies \<equiv> map (\<lambda>i. of_nat i :: u16) [0..<Suc n]"
  assumes "reliable w" "reliable v"
  shows "\<exists>w' v'. run_keepalive t interval (replicate n (Inr ()) @ [Inl e]) w = Some (Ok (), w') \<and>
    wire_out w' = wire_out w @ map (\<lambda>c. KaWire (MsgKeepAlive c)) cookies \<and>
    slept_secs w' = slept_secs w @ replicate (Suc n) interval \<and>
    run_keepalive_server (map (\<lambda>c. Inr (MsgKeepAlive c)) cookies) v = (Ok (), v') \<and>
    wire_out v' = wire_out v @ map (\<lambda>c. KaWire (MsgKeepAliveResponse c)) cookies"
proof -
  have "ka_cookies (map (\<lambda>c. Inr (MsgKeepAlive c)) cs) = cs" for cs by (induction cs) auto
  with sends_keepalive_server [of "map (\<lambda>c. Inr (MsgKeepAlive c)) cookies"] assms(3) obtain v' where
    "run_keepalive_server (map (\<lambda>c. Inr (MsgKeepAlive c)) cookies) v = (Ok (), v')"
    "wire_out v' = wire_out v @ map (\<lambda>c. KaWire (MsgKeepAliveResponse c)) cookies"
    unfolding sends_prefix_def by metis
  moreover from keepalive_loop_run [OF assms(2), of t interval n e 0] obtain w' where
    "run_keepalive t interval (replicate n (Inr ()) @ [Inl e]) w = Some (Ok (), w')"
    "wire_out w' = wire_out w @ map (\<lambda>c. KaWire (MsgKeepAlive c)) cookies"
    "slept_secs w' = slept_secs w @ replicate (Suc n) interval"
    by (auto simp: run_keepalive_def cookies_def comp_def simp del: upt_Suc)
  ultimately show ?thesis by blast
qed

theorem keepalive_cookies_answered_witness:
  "\<exists>w' v'. run_keepalive tracer_open keep_alive_interval (replicate 1 (Inr ()) @ [Inl ''closed'']) fresh_world = Some (Ok (), w') \<and>
    wire_out w' = [KaWire (MsgKeepAlive 0), KaWire (MsgKeepAlive 1)] \<and>
    run_keepalive_server [Inr (MsgKeepAlive 0), Inr (MsgKeepAlive 1)] fresh_world = (Ok (), v') \<and>
    wire_out v' = [KaWire (MsgKeepAliveResponse 0), KaWire (MsgKeepAliveResponse 1)]"
  using keepalive_cookies_answered [OF reliable_fresh_world(1) reliable_fresh_world(1), of tracer_open keep_alive_interval 1 "''closed''"]
  by (auto simp: reliable_fresh_world upt_rec)

end
