(* ===== verification/ChainSyncServer.thy ===== *)
theory ChainSyncServer
  imports Script
begin

text \<open>
  The Chain-Sync server (\<open>miniprotocols/chainsync_server.rs\<close>): it runs a script of response
  rules against a client, honest or adversarial, and annotates the trace with its own protocol
  state.
\<close>

definition cs_protocol :: string where
  "cs_protocol = ''chain-sync''"

section \<open>Protocol state and requests\<close>

datatype cs_state = CsIdle | CsIntersect | CsCanAwait | CsMustReply | CsDone

fun cs_state_str :: "cs_state \<Rightarrow> string" where
  "cs_state_str CsIdle = ''Idle''"
| "cs_state_str CsIntersect = ''Intersect''"
| "cs_state_str CsCanAwait = ''CanAwait''"
| "cs_state_str CsMustReply = ''MustReply''"
| "cs_state_str CsDone = ''Done''"

datatype cs_request = CsFindIntersect "point list" | CsRequestNext | CsDoneRequest

fun cs_request_kind_str :: "cs_request \<Rightarrow> string" where
  "cs_request_kind_str (CsFindIntersect _) = ''find_intersect''"
| "cs_request_kind_str CsRequestNext = ''request_next''"
| "cs_request_kind_str CsDoneRequest = ''done''"

definition cs_matches_on :: "cs_request \<Rightarrow> on \<Rightarrow> bool" where
  "cs_matches_on request k \<longleftrightarrow> k = OnAny \<or>
     (case (request, k) of
        (CsFindIntersect _, OnFindIntersect) \<Rightarrow> True
      | (CsRequestNext, OnRequestNext) \<Rightarrow> True
      | (CsDoneRequest, OnDone) \<Rightarrow> True
      | _ \<Rightarrow> False)"

fun after_receive :: "cs_state \<Rightarrow> cs_request \<Rightarrow> cs_state" where
  "after_receive s (CsFindIntersect _) = CsIntersect"
| "after_receive s CsRequestNext = CsCanAwait"
| "after_receive s CsDoneRequest = CsDone"

fun after_send :: "cs_state \<Rightarrow> script_send \<Rightarrow> cs_state" where
  "after_send s (IntersectFoundSend _ _) = CsIdle"
| "after_send s (IntersectNotFoundSend _) = CsIdle"
| "after_send s (RollForwardSend _ _) = CsIdle"
| "after_send s (RollBackwardSend _ _) = CsIdle"
| "after_send s CursorFindIntersect = CsIdle"
| "after_send s CursorAdvance = CsIdle"
| "after_send s (AwaitReplySend _) = CsMustReply"
| "after_send s DisconnectSend = CsDone"
| "after_send s _ = s"

text \<open>\<open>recv_request\<close> on what the codec returns\<close>

fun cs_recv_request :: "string + cs_message \<Rightarrow> cs_request res" where
  "cs_recv_request (Inl e) = anyhow (''chain-sync server recv: '' @ e)"
| "cs_recv_request (Inr (FindIntersect pts)) = Ok (CsFindIntersect pts)"
| "cs_recv_request (Inr RequestNext) = Ok CsRequestNext"
| "cs_recv_request (Inr ChainSyncDoneMsg) = Ok CsDoneRequest"
| "cs_recv_request (Inr _) = anyhow ''unexpected Chain-Sync client message in server loop''"

section \<open>Helpers\<close>

definition cs_send :: "cs_message \<Rightarrow> unit io" where
  "cs_send m = send_wire ''chain-sync server send: '' (CsWire m)"

definition cs_send_raw :: "bytes \<Rightarrow> unit io" where
  "cs_send_raw bs = send_wire ''chain-sync server send_raw: '' (RawWire bs)"

definition format_tip :: "tip \<Rightarrow> json" where
  "format_tip t = (case t of Tip p n \<Rightarrow> jobj [(''point'', format_point p), (''block_number'', jnum n)])"

definition zero_tip :: tip where
  "zero_tip = Tip Origin 0"

definition tip_spec_to_tip :: "tip_spec option \<Rightarrow> tip option \<Rightarrow> tip res" where
  "tip_spec_to_tip spec fixture_tip = (case spec of
     Some s \<Rightarrow> (case parse_point (ts_point s) of
         Ok p \<Rightarrow> Ok (Tip p (ts_block_number s))
       | Err _ \<Rightarrow> Ok (Tip Origin (ts_block_number s))
       | Panic \<Rightarrow> Panic)
   | None \<Rightarrow> Ok (case fixture_tip of Some t \<Rightarrow> t | None \<Rightarrow> zero_tip))"

text \<open>\<open>fixture.map(|f| f.tip())\<close> followed by \<open>tip_spec_to_tip\<close>\<close>

definition wire_tip :: "tip_spec option \<Rightarrow> fixture_chain option \<Rightarrow> tip res" where
  "wire_tip tip fixture =
     try_res (case fixture of None \<Rightarrow> Ok None | Some f \<Rightarrow> try_res (chain_tip f) (\<lambda>t. Ok (Some t))) (\<lambda>fixture_tip.
       tip_spec_to_tip tip fixture_tip)"

definition entry_to_header_content :: "fixture_entry \<Rightarrow> header_content res" where
  "entry_to_header_content e =
     try_res (decode_hex_skip (fe_cbor_hex e)) (\<lambda>cbor. Ok \<lparr>hc_variant = fe_variant e, hc_cbor = cbor\<rparr>)"

fun header_source_to_content :: "header_source \<Rightarrow> header_content res" where
  "header_source_to_content (HFixtureEntry e) = entry_to_header_content e"
| "header_source_to_content (HLiteral cbor variant) = Ok \<lparr>hc_variant = variant, hc_cbor = cbor\<rparr>"

fun extract_header_info :: "header_source \<Rightarrow> u64 \<times> string \<times> u64" where
  "extract_header_info (HFixtureEntry e) = (fe_slot e, fe_block_hash e, fe_block_number e)"
| "extract_header_info (HLiteral _ _) = (0, [], 0)"

definition cs_receive_event :: "cs_request \<Rightarrow> cs_state \<Rightarrow> cs_state \<Rightarrow> trace_event" where
  "cs_receive_event request state_before state_after =
     with_states cs_protocol (cs_state_str state_before) (cs_state_str state_after)
       (case request of
          CsFindIntersect pts \<Rightarrow> new_event ChainSyncFindIntersect Received
            (jobj [(''points'', JArray (map format_point pts))])
        | CsRequestNext \<Rightarrow> new_event ChainSyncRequestNext Received (jobj [])
        | CsDoneRequest \<Rightarrow> new_event ChainSyncDone Received (jobj []))"

section \<open>The session\<close>

record cs_session =
  cs_st :: cs_state
  headers_served :: u64
  intersects_handled :: u64
  await_triggered :: bool
  cs_rules_applied :: u64
  cs_rule_idx :: usize
  cs_cursor :: "cursor option"

text \<open>The event of a message sent in state \<open>st\<close> that the server believes leads to \<open>after\<close>.\<close>

definition cs_sent :: "event_kind \<Rightarrow> cs_state \<Rightarrow> string \<Rightarrow> (string \<times> json) list \<Rightarrow> trace_event" where
  "cs_sent kind st after payload =
     with_states cs_protocol (cs_state_str st) after (new_event kind Sent (jobj payload))"

definition cs_cursor_find_intersect ::
    "tracer \<Rightarrow> cs_request \<Rightarrow> cs_state \<Rightarrow> cs_session \<Rightarrow> (bool \<times> cs_session) io" where
  "cs_cursor_find_intersect t request st s =
     try_io (lift_res (ok_or ''CursorFindIntersect with no fixture'' (cs_cursor s))) (\<lambda>cursor.
     let s1 = s\<lparr>intersects_handled := intersects_handled s + 1\<rparr> in
     try_io (lift_res (cursor_tip cursor)) (\<lambda>tip.
     let points = (case request of CsFindIntersect pts \<Rightarrow> pts | _ \<Rightarrow> []) in
     try_io (lift_res (find_intersect cursor points)) (\<lambda>found.
     case found of
       Some pos \<Rightarrow>
         let cursor' = set_pos pos cursor in
         try_io (lift_res (current_point cursor')) (\<lambda>found_pt.
         try_io (cs_send (IntersectFound found_pt tip)) (\<lambda>_.
         try_io (emit t (cs_sent ChainSyncIntersectFound st ''Idle''
           [(''point'', format_point found_pt), (''tip'', format_tip tip)])) (\<lambda>_.
         ret (False, s1\<lparr>cs_cursor := Some cursor'\<rparr>))))
     | None \<Rightarrow>
         try_io (cs_send (IntersectNotFound tip)) (\<lambda>_.
         try_io (emit t (cs_sent ChainSyncIntersectNotFound st ''Idle'' [(''tip'', format_tip tip)])) (\<lambda>_.
         ret (False, s1))))))"

definition cs_cursor_advance :: "tracer \<Rightarrow> cs_state \<Rightarrow> cs_session \<Rightarrow> (bool \<times> cs_session) io" where
  "cs_cursor_advance t st s =
     try_io (lift_res (ok_or ''CursorAdvance with no fixture'' (cs_cursor s))) (\<lambda>cursor.
     try_io (lift_res (cursor_tip cursor)) (\<lambda>tip.
     case advance cursor of
       (Some entry, cursor') \<Rightarrow>
         try_io (lift_res (entry_to_header_content entry)) (\<lambda>hc.
         try_io (cs_send (RollForward hc tip)) (\<lambda>_.
         try_io (emit t (cs_sent ChainSyncRollForward st ''Idle''
           [(''slot'', jnum (fe_slot entry)), (''block_hash'', JString (fe_block_hash entry)),
            (''block_number'', jnum (fe_block_number entry)),
            (''cbor_len'', jlen (length (fe_cbor_hex entry) div 2)), (''tip'', format_tip tip)])) (\<lambda>_.
         ret (False, s\<lparr>headers_served := headers_served s + 1, cs_cursor := Some cursor'\<rparr>))))
     | (None, cursor') \<Rightarrow>
         try_io (cs_send AwaitReply) (\<lambda>_.
         try_io (emit t (cs_sent ChainSyncAwaitReply st ''MustReply'' [(''hold_secs'', jnum 0)])) (\<lambda>_.
         ret (False, s\<lparr>await_triggered := True, cs_cursor := Some cursor'\<rparr>)))))"

definition cs_roll_forward ::
    "tracer \<Rightarrow> fixture_chain option \<Rightarrow> header_source \<Rightarrow> tip_spec option \<Rightarrow> cs_state \<Rightarrow> cs_session \<Rightarrow> (bool \<times> cs_session) io" where
  "cs_roll_forward t fixture source tip st s =
     try_io (lift_res (wire_tip tip fixture)) (\<lambda>wt.
     try_io (lift_res (header_source_to_content source)) (\<lambda>hc.
     let (slot, hash, block_number) = extract_header_info source in
     try_io (cs_send (RollForward hc wt)) (\<lambda>_.
     try_io (emit t (cs_sent ChainSyncRollForward st ''Idle''
       [(''slot'', jnum slot), (''block_hash'', JString hash), (''block_number'', jnum block_number),
        (''tip'', format_tip wt)])) (\<lambda>_.
     ret (False, s\<lparr>headers_served := headers_served s + 1\<rparr>)))))"

definition cs_roll_backward ::
    "tracer \<Rightarrow> fixture_chain option \<Rightarrow> string \<Rightarrow> tip_spec option \<Rightarrow> cs_state \<Rightarrow> cs_session \<Rightarrow> (bool \<times> cs_session) io" where
  "cs_roll_backward t fixture point tip st s =
     try_io (lift_res (wire_tip tip fixture)) (\<lambda>wt.
     try_io (lift_res (parse_point point)) (\<lambda>pt.
     try_io (cs_send (RollBackward pt wt)) (\<lambda>_.
     try_io (emit t (cs_sent ChainSyncRollBackward st ''Idle''
       [(''rollback_to'', format_point pt), (''tip'', format_tip wt)])) (\<lambda>_.
     ret (False, s)))))"

definition cs_intersect_found ::
    "tracer \<Rightarrow> fixture_chain option \<Rightarrow> string \<Rightarrow> tip_spec option \<Rightarrow> cs_state \<Rightarrow> cs_session \<Rightarrow> (bool \<times> cs_session) io" where
  "cs_intersect_found t fixture point tip st s =
     try_io (lift_res (wire_tip tip fixture)) (\<lambda>wt.
     try_io (lift_res (parse_point point)) (\<lambda>pt.
     try_io (cs_send (IntersectFound pt wt)) (\<lambda>_.
     try_io (emit t (cs_sent ChainSyncIntersectFound st ''Idle''
       [(''point'', format_point pt), (''tip'', format_tip wt)])) (\<lambda>_.
     ret (False, s\<lparr>intersects_handled := intersects_handled s + 1\<rparr>)))))"

definition cs_intersect_not_found ::
    "tracer \<Rightarrow> fixture_chain option \<Rightarrow> tip_spec option \<Rightarrow> cs_state \<Rightarrow> cs_session \<Rightarrow> (bool \<times> cs_session) io" where
  "cs_intersect_not_found t fixture tip st s =
     try_io (lift_res (wire_tip tip fixture)) (\<lambda>wt.
     try_io (cs_send (IntersectNotFound wt)) (\<lambda>_.
     try_io (emit t (cs_sent ChainSyncIntersectNotFound st ''Idle'' [(''tip'', format_tip wt)])) (\<lambda>_.
     ret (False, s))))"

definition cs_await_reply :: "tracer \<Rightarrow> u64 \<Rightarrow> cs_state \<Rightarrow> cs_session \<Rightarrow> (bool \<times> cs_session) io" where
  "cs_await_reply t hold_secs st s =
     try_io (cs_send AwaitReply) (\<lambda>_.
     try_io (emit t (cs_sent ChainSyncAwaitReply st ''MustReply'' [(''hold_secs'', jnum hold_secs)])) (\<lambda>_.
     try_io (if hold_secs > 0 then sleep_secs hold_secs else ret ()) (\<lambda>_.
     ret (False, s\<lparr>await_triggered := True\<rparr>))))"

definition cs_raw_bytes :: "tracer \<Rightarrow> bytes \<Rightarrow> cs_session \<Rightarrow> (bool \<times> cs_session) io" where
  "cs_raw_bytes t bs s =
     try_io (cs_send_raw bs) (\<lambda>_.
     try_io (emit t (new_event Error Sent (jobj [(''phase'', JString ''raw_bytes''),
       (''hex'', JString (encode_hex bs)), (''byte_len'', jlen (length bs))]))) (\<lambda>_.
     ret (False, s)))"

fun cs_execute_send ::
    "tracer \<Rightarrow> fixture_chain option \<Rightarrow> cs_request \<Rightarrow> cs_state \<Rightarrow> script_send \<Rightarrow> cs_session \<Rightarrow> (bool \<times> cs_session) io" where
  "cs_execute_send t fixture request st CursorFindIntersect s = cs_cursor_find_intersect t request st s"
| "cs_execute_send t fixture request st CursorAdvance s = cs_cursor_advance t st s"
| "cs_execute_send t fixture request st (RollForwardSend source tip) s = cs_roll_forward t fixture source tip st s"
| "cs_execute_send t fixture request st (RollBackwardSend point tip) s = cs_roll_backward t fixture point tip st s"
| "cs_execute_send t fixture request st (IntersectFoundSend point tip) s = cs_intersect_found t fixture point tip st s"
| "cs_execute_send t fixture request st (IntersectNotFoundSend tip) s = cs_intersect_not_found t fixture tip st s"
| "cs_execute_send t fixture request st (AwaitReplySend hold_secs) s = cs_await_reply t hold_secs st s"
| "cs_execute_send t fixture request st (WaitSend duration_secs) s =
     try_io (sleep_secs duration_secs) (\<lambda>_. ret (False, s))"
| "cs_execute_send t fixture request st DisconnectSend s = ret (True, s)"
| "cs_execute_send t fixture request st (RawBytesSend bs) s = cs_raw_bytes t bs s"
| "cs_execute_send t fixture request st send s =
     bail (''Block-Fetch send rule '' @ quoted (send_kind_str send) @ '' reached Chain-Sync execution loop'')"

text \<open>The body of the session loop for one request.\<close>

definition cs_no_matching_rule :: "cs_request \<Rightarrow> script_rule list \<Rightarrow> string" where
  "cs_no_matching_rule request rules =
     ''serve_chain_sync: no matching rule for '' @ quoted (cs_request_kind_str request)
       @ '' (exhausted '' @ nat_to_string (length rules) @ '' rules)''"

definition cs_body ::
    "tracer \<Rightarrow> fixture_chain option \<Rightarrow> script_rule list \<Rightarrow> cs_request \<Rightarrow> cs_session \<Rightarrow> (cs_session \<times> bool) io" where
  "cs_body t fixture rules request s =
     (let st = after_receive (cs_st s) request;
          s0 = s\<lparr>cs_st := st\<rparr> in
      try_io (emit t (cs_receive_event request (cs_st s) st)) (\<lambda>_.
      if request = CsDoneRequest then ret (s0, True)
      else case next_rule (cs_matches_on request) rules (cs_rule_idx s0) of
        None \<Rightarrow> bail (cs_no_matching_rule request rules)
      | Some (pos, rule, rule_idx) \<Rightarrow>
          try_io (emit t (rule_applied_event pos rule)) (\<lambda>_.
          let s1 = s0\<lparr>cs_rule_idx := rule_idx, cs_rules_applied := cs_rules_applied s0 + 1\<rparr> in
          try_io (cs_execute_send t fixture request st (sr_send rule) s1) (\<lambda>(finished, s2).
          ret (s2\<lparr>cs_st := after_send st (sr_send rule)\<rparr>, finished)))))"

record cs_summary =
  css_headers_served :: u64
  css_intersects_handled :: u64
  css_await_triggered :: bool
  css_rules_applied :: u64
  css_exit_reason :: string
  css_duration_ms :: u64

definition cs_session_start :: "fixture_chain option \<Rightarrow> cs_session" where
  "cs_session_start fixture = \<lparr>cs_st = CsIdle, headers_served = 0, intersects_handled = 0,
     await_triggered = False, cs_rules_applied = 0, cs_rule_idx = 0,
     cs_cursor = map_option cursor_new fixture\<rparr>"

definition cs_started_event :: "fixture_chain option \<Rightarrow> script_rule list \<Rightarrow> trace_event" where
  "cs_started_event fixture rules = with_protocol cs_protocol (new_event ServerChainSyncStarted Internal (jobj [
     (''script_rules'', jlen (length rules)),
     (''fixture_entries'', jopt (\<lambda>f. jlen (length (fc_entries f))) fixture)]))"

definition cs_finish :: "tracer \<Rightarrow> cs_session \<Rightarrow> cs_summary io" where
  "cs_finish t s =
     try_io elapsed_ms (\<lambda>ms.
     let summary = \<lparr>css_headers_served = headers_served s, css_intersects_handled = intersects_handled s,
           css_await_triggered = await_triggered s, css_rules_applied = cs_rules_applied s,
           css_exit_reason = ''completed'', css_duration_ms = ms\<rparr> in
     try_io (emit t (with_protocol cs_protocol (new_event ServerChainSyncCompleted Internal (jobj [
       (''headers_served'', jnum (css_headers_served summary)),
       (''intersects_handled'', jnum (css_intersects_handled summary)),
       (''await_triggered'', JBool (css_await_triggered summary)),
       (''rules_applied'', jnum (css_rules_applied summary)),
       (''exit_reason'', JString (css_exit_reason summary)),
       (''duration_ms'', jnum (css_duration_ms summary))])))) (\<lambda>_.
     ret summary))"

definition execute_response_script ::
    "tracer \<Rightarrow> fixture_chain option \<Rightarrow> script_rule list \<Rightarrow> (string + cs_message) list \<Rightarrow> cs_summary io" where
  "execute_response_script t fixture rules inbox =
     try_io (emit t (cs_started_event fixture rules)) (\<lambda>_.
     try_io (serve_loop (cs_body t fixture rules) (map cs_recv_request inbox) (cs_session_start fixture)) (\<lambda>s.
     cs_finish t s))"

end
