(* ===== verification/BlockFetchServer.thy ===== *)
theory BlockFetchServer
  imports Script
begin

text \<open>
  The Block-Fetch server (\<open>miniprotocols/blockfetch_server.rs\<close>): the scripted session, the sends it
  knows and the batches it streams. The state before a send is always the session's state, so it
  is not a parameter of its own.
\<close>

definition bf_protocol :: string where
  "bf_protocol = ''block-fetch''"

section \<open>Protocol state and requests\<close>

datatype bf_state = BfIdle | BfBusy | BfStreaming | BfDone

fun bf_state_str :: "bf_state \<Rightarrow> string" where
  "bf_state_str BfIdle = ''Idle''"
| "bf_state_str BfBusy = ''Busy''"
| "bf_state_str BfStreaming = ''Streaming''"
| "bf_state_str BfDone = ''Done''"

datatype bf_request = BfRequestRange point point | BfClientDone

fun bf_request_kind_str :: "bf_request \<Rightarrow> string" where
  "bf_request_kind_str (BfRequestRange _ _) = ''request_range''"
| "bf_request_kind_str BfClientDone = ''done''"

definition bf_matches_on :: "bf_request \<Rightarrow> on \<Rightarrow> bool" where
  "bf_matches_on request k \<longleftrightarrow> k = OnAny \<or>
     (case (request, k) of
        (BfRequestRange _ _, OnRequestRange) \<Rightarrow> True
      | (BfClientDone, OnDone) \<Rightarrow> True
      | _ \<Rightarrow> False)"

fun bf_recv_request :: "string + bf_message \<Rightarrow> bf_request res" where
  "bf_recv_request (Inl e) = anyhow (''block-fetch server recv: '' @ e)"
| "bf_recv_request (Inr (RequestRange from_pt to_pt)) = Ok (BfRequestRange from_pt to_pt)"
| "bf_recv_request (Inr ClientDone) = Ok BfClientDone"
| "bf_recv_request (Inr _) = anyhow ''unexpected Block-Fetch client message''"

section \<open>Helpers\<close>

definition bf_send :: "bf_message \<Rightarrow> unit io" where
  "bf_send m = send_wire ''block-fetch server send: '' (BfWire m)"

definition bf_send_raw :: "bytes \<Rightarrow> unit io" where
  "bf_send_raw bs = send_wire ''block-fetch server send_raw: '' (RawWire bs)"

fun block_source_bytes :: "block_source \<Rightarrow> bytes res" where
  "block_source_bytes (BFixtureEntry e) = body_bytes e"
| "block_source_bytes (BLiteral bs) = Ok bs"

fun block_source_slot :: "block_source \<Rightarrow> u64" where
  "block_source_slot (BFixtureEntry e) = be_slot e"
| "block_source_slot (BLiteral _) = 0"

fun block_source_hash :: "block_source \<Rightarrow> string" where
  "block_source_hash (BFixtureEntry e) = be_block_hash e"
| "block_source_hash (BLiteral _) = []"

fun block_source_len :: "block_source \<Rightarrow> usize" where
  "block_source_len (BFixtureEntry e) = length (be_block_cbor_hex e) div 2"
| "block_source_len (BLiteral bs) = length bs"

definition bf_receive_event :: "bf_request \<Rightarrow> bf_state \<Rightarrow> bf_state \<Rightarrow> trace_event" where
  "bf_receive_event request state_before state_after =
     with_states bf_protocol (bf_state_str state_before) (bf_state_str state_after)
       (case request of
          BfRequestRange from_pt to_pt \<Rightarrow> new_event BlockFetchRequestRange Received
            (jobj [(''from'', format_point from_pt), (''to'', format_point to_pt)])
        | BfClientDone \<Rightarrow> new_event BlockFetchClientDone Received (jobj []))"

section \<open>The session\<close>

record bf_session =
  bf_st :: bf_state
  range_requests :: u64
  blocks_served :: u64
  no_blocks_responses :: u64
  bf_rules_applied :: u64
  bf_rule_idx :: usize

definition bf_sent :: "event_kind \<Rightarrow> string \<Rightarrow> string \<Rightarrow> (string \<times> json) list \<Rightarrow> trace_event" where
  "bf_sent kind before after payload = with_states bf_protocol before after (new_event kind Sent (jobj payload))"

definition bf_no_blocks :: "tracer \<Rightarrow> bf_session \<Rightarrow> (bool \<times> bf_session) io" where
  "bf_no_blocks t s =
     try_io (bf_send NoBlocks) (\<lambda>_.
     try_io (emit t (bf_sent BlockFetchNoBlocks (bf_state_str (bf_st s)) ''Idle'' [])) (\<lambda>_.
     ret (False, s\<lparr>bf_st := BfIdle, no_blocks_responses := no_blocks_responses s + 1\<rparr>)))"

definition bf_start_batch :: "tracer \<Rightarrow> bf_session \<Rightarrow> (bool \<times> bf_session) io" where
  "bf_start_batch t s =
     try_io (bf_send StartBatch) (\<lambda>_.
     try_io (emit t (bf_sent BlockFetchStartBatch (bf_state_str (bf_st s)) ''Streaming'' [])) (\<lambda>_.
     ret (False, s\<lparr>bf_st := BfStreaming\<rparr>)))"

text \<open>One block on the wire, with its trace event; shared by \<open>Block\<close> and the batch loop.\<close>

definition bf_put_block :: "tracer \<Rightarrow> bytes \<Rightarrow> u64 \<Rightarrow> string \<Rightarrow> usize \<Rightarrow> bf_session \<Rightarrow> bf_session io" where
  "bf_put_block t body slot hash cbor_len s =
     try_io (bf_send (Block body)) (\<lambda>_.
     try_io (emit t (bf_sent BlockFetchBlock ''Streaming'' ''Streaming''
       [(''slot'', jnum slot), (''block_hash'', JString hash), (''cbor_len'', jlen cbor_len)])) (\<lambda>_.
     ret (s\<lparr>blocks_served := blocks_served s + 1\<rparr>)))"

definition bf_block :: "tracer \<Rightarrow> block_source \<Rightarrow> bf_session \<Rightarrow> (bool \<times> bf_session) io" where
  "bf_block t source s =
     try_io (lift_res (block_source_bytes source)) (\<lambda>body.
     try_io (bf_put_block t body (block_source_slot source) (block_source_hash source)
       (block_source_len source) s) (\<lambda>s'. ret (False, s')))"

definition bf_batch_done :: "tracer \<Rightarrow> u64 \<Rightarrow> bf_session \<Rightarrow> (bool \<times> bf_session) io" where
  "bf_batch_done t blocks_in_batch s =
     try_io (bf_send BatchDone) (\<lambda>_.
     try_io (emit t (bf_sent BlockFetchBatchDone ''Streaming'' ''Idle''
       [(''blocks_in_batch'', jnum blocks_in_batch)])) (\<lambda>_.
     ret (False, s\<lparr>bf_st := BfIdle\<rparr>)))"

text \<open>The blocks of a batch; \<open>None\<close> when the requested range cannot be satisfied.\<close>

definition entry_of_source :: "block_source \<Rightarrow> (bytes \<times> u64 \<times> string) res" where
  "entry_of_source src =
     try_res (block_source_bytes src) (\<lambda>b. Ok (b, block_source_slot src, block_source_hash src))"

definition stream_entries ::
    "block_fixture_chain option \<Rightarrow> bf_request \<Rightarrow> stream_batch_sources \<Rightarrow> (bytes \<times> u64 \<times> string) list option res" where
  "stream_entries fixture request sources =
     (case sources of
        Explicit block_sources \<Rightarrow> try_res (mapM_res entry_of_source block_sources) (\<lambda>es. Ok (Some es))
      | FromRequest \<Rightarrow>
          (case request of
             BfRequestRange from_pt to_pt \<Rightarrow>
               (case fixture of
                  None \<Rightarrow> Ok None
                | Some f \<Rightarrow> try_res (find_range f from_pt to_pt) (\<lambda>r.
                    case r of
                      None \<Rightarrow> Ok None
                    | Some es \<Rightarrow> try_res (mapM_res (\<lambda>e. entry_of_source (BFixtureEntry e)) es) (\<lambda>xs. Ok (Some xs))))
           | BfClientDone \<Rightarrow> Ok (Some [])))"

fun bf_put_blocks :: "tracer \<Rightarrow> (bytes \<times> u64 \<times> string) list \<Rightarrow> bf_session \<Rightarrow> bf_session io" where
  "bf_put_blocks t [] s = ret s"
| "bf_put_blocks t ((body, slot, hash) # es) s =
     try_io (bf_put_block t body slot hash (length body) s) (\<lambda>s'. bf_put_blocks t es s')"

definition bf_stream_batch ::
    "tracer \<Rightarrow> block_fixture_chain option \<Rightarrow> bf_request \<Rightarrow> stream_batch_sources \<Rightarrow> bf_session \<Rightarrow> (bool \<times> bf_session) io" where
  "bf_stream_batch t fixture request sources s =
     try_io (lift_res (stream_entries fixture request sources)) (\<lambda>r.
     case r of
       None \<Rightarrow> bf_no_blocks t s
     | Some entries \<Rightarrow>
         if entries = [] then bf_no_blocks t s
         else
           try_io (bf_start_batch t s) (\<lambda>(_, s1).
           try_io (bf_put_blocks t entries s1) (\<lambda>s2.
           bf_batch_done t (of_nat (length entries)) s2)))"

definition bf_raw_bytes :: "tracer \<Rightarrow> bytes \<Rightarrow> bf_session \<Rightarrow> (bool \<times> bf_session) io" where
  "bf_raw_bytes t bs s =
     try_io (bf_send_raw bs) (\<lambda>_.
     try_io (emit t (new_event Error Sent (jobj [(''phase'', JString ''raw_bytes''),
       (''hex'', JString (encode_hex bs)), (''byte_len'', jlen (length bs))]))) (\<lambda>_.
     ret (False, s)))"

fun bf_execute_single ::
    "tracer \<Rightarrow> block_fixture_chain option \<Rightarrow> bf_request \<Rightarrow> script_send \<Rightarrow> bf_session \<Rightarrow> (bool \<times> bf_session) io" where
  "bf_execute_single t fixture request NoBlocksSend s = bf_no_blocks t s"
| "bf_execute_single t fixture request StartBatchSend s = bf_start_batch t s"
| "bf_execute_single t fixture request (BlockSend source) s = bf_block t source s"
| "bf_execute_single t fixture request BatchDoneSend s = bf_batch_done t (blocks_served s) s"
| "bf_execute_single t fixture request (StreamBatchSend sources) s = bf_stream_batch t fixture request sources s"
| "bf_execute_single t fixture request (WaitSend duration_secs) s =
     try_io (sleep_secs duration_secs) (\<lambda>_. ret (False, s))"
| "bf_execute_single t fixture request DisconnectSend s = ret (True, s)"
| "bf_execute_single t fixture request (RawBytesSend bs) s = bf_raw_bytes t bs s"
| "bf_execute_single t fixture request (SendSequence _) s =
     bail (''SendSequence reached execute_single_send '' @ [CHR 0xE2, CHR 0x80, CHR 0x94] @ '' this is a bug'')"
| "bf_execute_single t fixture request send s =
     bail (''Chain-Sync send rule '' @ quoted (send_kind_str send) @ '' reached Block-Fetch execution loop'')"

fun bf_execute_sequence ::
    "tracer \<Rightarrow> block_fixture_chain option \<Rightarrow> bf_request \<Rightarrow> script_send list \<Rightarrow> bf_session \<Rightarrow> (bool \<times> bf_session) io" where
  "bf_execute_sequence t fixture request [] s = ret (False, s)"
| "bf_execute_sequence t fixture request (sub # subs) s =
     try_io (bf_execute_single t fixture request sub s) (\<lambda>(finished, s').
       if finished then ret (True, s') else bf_execute_sequence t fixture request subs s')"

definition bf_execute_send ::
    "tracer \<Rightarrow> block_fixture_chain option \<Rightarrow> bf_request \<Rightarrow> script_send \<Rightarrow> bf_session \<Rightarrow> (bool \<times> bf_session) io" where
  "bf_execute_send t fixture request send s =
     (case send of
        SendSequence sends \<Rightarrow> bf_execute_sequence t fixture request sends s
      | _ \<Rightarrow> bf_execute_single t fixture request send s)"

definition bf_no_matching_rule :: "bf_request \<Rightarrow> script_rule list \<Rightarrow> string" where
  "bf_no_matching_rule request rules =
     ''serve_block_fetch: no matching rule for '' @ quoted (bf_request_kind_str request)
       @ '' (exhausted '' @ nat_to_string (length rules) @ '' rules)''"

fun bf_after_receive :: "bf_request \<Rightarrow> bf_state" where
  "bf_after_receive (BfRequestRange _ _) = BfBusy"
| "bf_after_receive BfClientDone = BfDone"

definition bf_body ::
    "tracer \<Rightarrow> block_fixture_chain option \<Rightarrow> script_rule list \<Rightarrow> bf_request \<Rightarrow> bf_session \<Rightarrow> (bf_session \<times> bool) io" where
  "bf_body t fixture rules request s =
     (let st = bf_after_receive request;
          s0 = s\<lparr>bf_st := st\<rparr> in
      try_io (emit t (bf_receive_event request (bf_st s) st)) (\<lambda>_.
      if request = BfClientDone then ret (s0, True)
      else
        let s1 = s0\<lparr>range_requests := range_requests s0 + 1\<rparr> in
        case next_rule (bf_matches_on request) rules (bf_rule_idx s1) of
          None \<Rightarrow> bail (bf_no_matching_rule request rules)
        | Some (pos, rule, rule_idx) \<Rightarrow>
            try_io (emit t (rule_applied_event pos rule)) (\<lambda>_.
            let s2 = s1\<lparr>bf_rule_idx := rule_idx, bf_rules_applied := bf_rules_applied s1 + 1\<rparr> in
            try_io (bf_execute_send t fixture request (sr_send rule) s2) (\<lambda>(finished, s3).
            ret (s3, finished)))))"

record bf_summary =
  bfs_range_requests :: u64
  bfs_blocks_served :: u64
  bfs_no_blocks_responses :: u64
  bfs_rules_applied :: u64
  bfs_exit_reason :: string
  bfs_duration_ms :: u64

definition bf_session_start :: bf_session where
  "bf_session_start = \<lparr>bf_st = BfIdle, range_requests = 0, blocks_served = 0, no_blocks_responses = 0,
     bf_rules_applied = 0, bf_rule_idx = 0\<rparr>"

definition bf_started_event :: "block_fixture_chain option \<Rightarrow> script_rule list \<Rightarrow> trace_event" where
  "bf_started_event fixture rules = with_protocol bf_protocol (new_event ServerBlockFetchStarted Internal (jobj [
     (''script_rules'', jlen (length rules)),
     (''fixture_entries'', jopt (\<lambda>f. jlen (length (bc_entries f))) fixture)]))"

definition bf_finish :: "tracer \<Rightarrow> bf_session \<Rightarrow> bf_summary io" where
  "bf_finish t s =
     try_io elapsed_ms (\<lambda>ms.
     let summary = \<lparr>bfs_range_requests = range_requests s, bfs_blocks_served = blocks_served s,
           bfs_no_blocks_responses = no_blocks_responses s, bfs_rules_applied = bf_rules_applied s,
           bfs_exit_reason = ''completed'', bfs_duration_ms = ms\<rparr> in
     try_io (emit t (with_protocol bf_protocol (new_event ServerBlockFetchCompleted Internal (jobj [
       (''range_requests'', jnum (bfs_range_requests summary)),
       (''blocks_served'', jnum (bfs_blocks_served summary)),
       (''no_blocks_responses'', jnum (bfs_no_blocks_responses summary)),
       (''rules_applied'', jnum (bfs_rules_applied summary)),
       (''exit_reason'', JString (bfs_exit_reason summary)),
       (''duration_ms'', jnum (bfs_duration_ms summary))])))) (\<lambda>_.
     ret summary))"

definition execute_block_fetch_script ::
    "tracer \<Rightarrow> block_fixture_chain option \<Rightarrow> script_rule list \<Rightarrow> (string + bf_message) list \<Rightarrow> bf_summary io" where
  "execute_block_fetch_script t fixture rules inbox =
     try_io (emit t (bf_started_event fixture rules)) (\<lambda>_.
     try_io (serve_loop (bf_body t fixture rules) (map bf_recv_request inbox) bf_session_start) (\<lambda>s.
     bf_finish t s))"

end
