(* ===== verification/Runner.thy ===== *)
theory Runner
  imports Readers Handshake Workers ChainSyncServer BlockFetchServer
begin

text \<open>
  The scenario runner (\<open>scenario/runner.rs\<close>): its state, the steps on the imaginary network and
  its clock, the serving steps, and the bookkeeping around a step, a \<open>repeat\<close> and a whole run. A
  step acts on the runner's state and the world; \<open>None\<close> means that it does not return. The
  recursion through \<open>run_step\<close> is left open: the bookkeeping takes the executor as an argument.
\<close>

section \<open>State\<close>

text \<open>A channel that is still there holds what its peer will send or answer. A worker's handle is
  whether it has been started.\<close>

record server_connection =
  sv_cs_channels :: "(string + cs_message) list option"
  sv_bf_channels :: "(string + bf_message) list option"
  sv_ts_channels :: "(string + ts_message) list option"
  sv_ln_channels :: "(string + ln_message) list option"
  sv_lf_channels :: "(string + lf_message) list option"
  sv_ka_handle :: bool
  sv_peer_id :: "string option"

record client_connection =
  cl_hs_channels :: "hs_channel option"
  cl_cs_channels :: "cs_channel option"
  cl_bf_channels :: "bf_channel option"
  cl_ka_channels :: "(string + unit) list option"
  cl_ts_channels :: "(string + ts_message) list option"
  cl_ln_channels :: "ln_channel option"
  cl_lf_channels :: "lf_channel option"
  cl_ka_handle :: bool
  cl_ts_handle :: bool
  cl_negotiated_version :: "u64 option"
  cl_last_chain_sync_points :: "point list"
  cl_peer_id :: "string option"

text \<open>A \<open>HashMap\<close> that is iterated is the list of its entries in the order this run visits them. The
  slot counter is the world's \<open>slot_cell\<close>, which the tracer reads too. \<open>rn_files\<close> are the files that
  this run has written; \<open>rn_dials\<close> and \<open>rn_accepts\<close> count its connections each way.\<close>

record runner =
  rn_connections :: "(string \<times> client_connection) list"
  rn_listeners :: "string set"
  rn_server_connections :: "(string \<times> server_connection) list"
  rn_vars :: var_store
  rn_fixture_anchor_written :: bool
  rn_block_fixture_anchor_written :: bool
  rn_capture_fixture_path :: "string option"
  rn_capture_block_fixture_path :: "string option"
  rn_network :: "network option"
  rn_current_slot :: "slot_handle option"
  rn_peers :: peers
  rn_files :: "string \<rightharpoonup> string list"
  rn_dials :: usize
  rn_accepts :: usize

definition runner_default :: runner where
  "runner_default = \<lparr>rn_connections = [], rn_listeners = {}, rn_server_connections = [],
     rn_vars = Map.empty, rn_fixture_anchor_written = False, rn_block_fixture_anchor_written = False,
     rn_capture_fixture_path = None, rn_capture_block_fixture_path = None,
     rn_network = None, rn_current_slot = None, rn_peers = [],
     rn_files = Map.empty, rn_dials = 0, rn_accepts = 0\<rparr>"

text \<open>What a dialled peer will answer, and what a peer that connects will send. \<open>al_handshake\<close> is
  how the package's handshake server ends, \<open>al_proposal\<close> the version numbers it was offered, if any.\<close>

record peer_link =
  pl_hs :: hs_channel
  pl_cs :: cs_channel
  pl_bf :: bf_channel
  pl_ka :: "(string + unit) list"
  pl_ts :: "(string + ts_message) list"
  pl_ln :: ln_channel
  pl_lf :: lf_channel

record accepted_link =
  al_address :: string
  al_proposal :: "u64 list option"
  al_handshake :: "(string + u64) option"
  al_cs :: "(string + cs_message) list"
  al_bf :: "(string + bf_message) list"
  al_ts :: "(string + ts_message) list"
  al_ln :: "(string + ln_message) list"
  al_lf :: "(string + lf_message) list"

text \<open>What the runner takes from outside: the JSON reader and writer, the file system, the hash
  function, name resolution, the n-th peer that is dialled or that connects (\<open>None\<close>: nobody ever does), binding an address
  (its error), opening a file for writing (its error), and the version table of the handshake.\<close>

record env =
  parse_json :: "string \<Rightarrow> json res"
  render_json :: "json \<Rightarrow> string"
  read_lines :: "string \<Rightarrow> string list option"
  blake2b_256 :: "bytes \<Rightarrow> bytes"
  resolve_address :: "string \<Rightarrow> string + string list"
  dial :: "usize \<Rightarrow> string \<Rightarrow> string + peer_link"
  bind_address :: "string \<Rightarrow> string option"
  accept :: "usize \<Rightarrow> (string + accepted_link) option"
  write_error :: "string \<Rightarrow> string option"
  version_keys :: "u64 \<Rightarrow> u64 list"

text \<open>A file is as this run left it, or as it was.\<close>

definition file_lines :: "env \<Rightarrow> runner \<Rightarrow> string \<Rightarrow> string list option" where
  "file_lines e rn path = (case rn_files rn path of Some ls \<Rightarrow> Some ls | None \<Rightarrow> read_lines e path)"

section \<open>Steps as state transformers\<close>

type_synonym 'a run = "('a, runner \<times> world) stepper"

definition io_run :: "'a io \<Rightarrow> 'a run" where
  "io_run m s = (case s of (rn, w) \<Rightarrow> (case m w of (r, w') \<Rightarrow> Some (r, rn, w')))"

definition asks :: "(runner \<Rightarrow> 'a) \<Rightarrow> 'a run" where
  "asks f s = Some (Ok (f (fst s)), s)"

text \<open>\<open>let _ = tracer.emit(..).await\<close>\<close>

definition try_emit :: "tracer \<Rightarrow> trace_event \<Rightarrow> unit run" where
  "try_emit t e = io_run (ignore_io (emit t e) (ret ()))"

definition do_emit :: "tracer \<Rightarrow> trace_event \<Rightarrow> unit run" where
  "do_emit t e = io_run (emit t e)"

section \<open>The clock and the peers\<close>

definition production_fired_event :: "production_event \<Rightarrow> trace_event" where
  "production_fired_event ev = new_event ProductionRuleFired Internal (jobj
     [(''peer_id'', JString (pe_peer_id ev)), (''slot'', jnum (pe_slot ev)),
      (''rule_kind'', JString (pe_rule_kind ev)), (''skipped'', JBool (pe_skipped ev))])"

definition production_extended_event :: "production_event \<Rightarrow> trace_event" where
  "production_extended_event ev =
     (let payload = jobj [(''peer_id'', JString (pe_peer_id ev)), (''slot'', jnum (pe_slot ev)),
            (''block_hash'', JString (pe_block_hash_hex ev)), (''block_number'', jnum (pe_block_number ev)),
            (''source'', JString ''production_rule'')]
      in new_event PeerChainExtended Internal (case pe_defect_kind ev of
           None \<Rightarrow> payload | Some dk \<Rightarrow> json_set ''defect_kind'' (JString dk) payload))"

fun emit_production_events :: "tracer \<Rightarrow> production_event list \<Rightarrow> unit io" where
  "emit_production_events t [] = ret ()"
| "emit_production_events t (ev # evs) =
     try_io (emit t (production_fired_event ev)) (\<lambda>_.
     try_io (if pe_skipped ev then ret () else emit t (production_extended_event ev)) (\<lambda>_.
       emit_production_events t evs))"

definition emit_slot_advanced :: "tracer \<Rightarrow> u64 \<Rightarrow> u64 \<Rightarrow> string \<Rightarrow> unit io" where
  "emit_slot_advanced t from_slot to_slot reason =
     emit t (with_slot to_slot (new_event SlotAdvanced Internal (jobj
       [(''from_slot'', jnum from_slot), (''to_slot'', jnum to_slot), (''reason'', JString reason)])))"

definition lookup_peer :: "network option \<Rightarrow> string \<Rightarrow> peer res" where
  "lookup_peer network pid =
     try_res (ok_or ''as_peer: no network declaration in scenario'' network) (\<lambda>n.
       ok_or (''as_peer: peer '' @ quoted pid @ '' not found in network block'')
         (find (\<lambda>p. peer_id p = pid) (net_peers n)))"

text \<open>\<open>slot_arc.load\<close> and \<open>slot_arc.store\<close>\<close>

definition load_slot :: "string \<Rightarrow> u64 run" where
  "load_slot msg s = (case s of (rn, w) \<Rightarrow>
     (case rn_current_slot rn of None \<Rightarrow> Some (anyhow msg, s) | Some _ \<Rightarrow> Some (Ok (slot_cell w), s)))"

definition store_slot :: "u64 \<Rightarrow> unit run" where
  "store_slot n s = (case s of (rn, w) \<Rightarrow> Some (Ok (), rn, w\<lparr>slot_cell := n\<rparr>))"

definition produce :: "env \<Rightarrow> u64 \<Rightarrow> u64 \<Rightarrow> production_event list run" where
  "produce e old_slot new_slot s = (case s of (rn, w) \<Rightarrow>
     (case apply_production_rules (blake2b_256 e) (rn_peers rn) old_slot new_slot of
        None \<Rightarrow> None
      | Some (Ok (evs, peers)) \<Rightarrow> Some (Ok evs, rn\<lparr>rn_peers := peers\<rparr>, w)
      | Some (Err err) \<Rightarrow> Some (Err err, s)
      | Some Panic \<Rightarrow> Some (Panic, s)))"

definition no_clock :: "string \<Rightarrow> string" where
  "no_clock step = step @ '': no network declaration '' @ [CHR 0xE2, CHR 0x80, CHR 0x94] @ '' current_slot is not initialized''"

definition advance_to_slot :: "env \<Rightarrow> tracer \<Rightarrow> step_params \<Rightarrow> unit run" where
  "advance_to_slot e t params =
     bind_run (res_run (ok_or ''advance_to_slot: slot parameter is required'' (sp_slot params))) (\<lambda>new_slot.
     bind_run (load_slot (no_clock ''advance_to_slot'')) (\<lambda>current.
     if new_slot \<le> current then
       res_run (anyhow (''advance_to_slot: target slot '' @ u64_to_string new_slot
         @ '' is not greater than current slot '' @ u64_to_string current))
     else
       bind_run (store_slot new_slot) (\<lambda>_.
       bind_run (produce e current new_slot) (\<lambda>evs.
       bind_run (io_run (emit_slot_advanced t current new_slot ''advance_to_slot'')) (\<lambda>_.
       io_run (emit_production_events t evs))))))"

text \<open>\<open>fetch_add\<close> wraps, and so does the sum of a release build.\<close>

definition tick_slots :: "env \<Rightarrow> tracer \<Rightarrow> step_params \<Rightarrow> unit run" where
  "tick_slots e t params =
     bind_run (res_run (ok_or ''tick_slots: count parameter is required'' (sp_count params))) (\<lambda>count.
     bind_run (load_slot (no_clock ''tick_slots'')) (\<lambda>old_slot.
     let new_slot = old_slot + count in
     bind_run (store_slot new_slot) (\<lambda>_.
     bind_run (produce e old_slot new_slot) (\<lambda>evs.
     bind_run (io_run (emit_slot_advanced t old_slot new_slot ''tick_slots'')) (\<lambda>_.
     io_run (emit_production_events t evs))))))"

text \<open>The entry and the optional body that \<open>peer_extends_chain\<close> decodes from its parameters.\<close>

definition extension_of_params :: "step_params \<Rightarrow> (string \<times> chain_entry \<times> bytes option \<times> string) res" where
  "extension_of_params params =
     try_res (ok_or ''peer_extends_chain: peer_id is required'' (sp_peer_id params)) (\<lambda>pid.
     try_res (ok_or ''peer_extends_chain: slot is required'' (sp_slot params)) (\<lambda>slot.
     try_res (ok_or ''peer_extends_chain: block_number is required'' (sp_block_number params)) (\<lambda>block_number.
     try_res (ok_or ''peer_extends_chain: block_hash is required'' (sp_block_hash params)) (\<lambda>hash_hex.
     try_res (ok_or ''peer_extends_chain: header_cbor is required'' (sp_header_cbor params)) (\<lambda>header_hex.
     try_res (with_context ''peer_extends_chain: block_hash'' (decode_hex_at hash_hex)) (\<lambda>hash.
     try_res (with_context ''peer_extends_chain: header_cbor'' (decode_hex_at header_hex)) (\<lambda>header.
     try_res (case sp_block_body_cbor params of
         None \<Rightarrow> Ok None
       | Some hex \<Rightarrow> try_res (with_context ''peer_extends_chain: block_body_cbor'' (decode_hex_at hex)) (\<lambda>b. Ok (Some b)))
       (\<lambda>body.
       Ok (pid, \<lparr>ce_slot = slot, ce_block_hash = hash, ce_block_number = block_number,
             ce_header_cbor = header,
             ce_variant = (case sp_variant params of Some v \<Rightarrow> v | None \<Rightarrow> default_header_variant)\<rparr>,
           body, hash_hex)))))))))"

definition not_above_tip :: "u64 \<Rightarrow> peer_state \<Rightarrow> unit res" where
  "not_above_tip slot ps = (case chain_tip_slot ps of
     None \<Rightarrow> Ok ()
   | Some tip_slot \<Rightarrow>
       if slot \<le> tip_slot then
         anyhow (''peer_extends_chain: slot '' @ u64_to_string slot
           @ '' is not greater than current chain tip slot '' @ u64_to_string tip_slot)
       else Ok ())"

definition push_entry :: "chain_entry \<Rightarrow> bytes option \<Rightarrow> peer_state \<Rightarrow> peer_state" where
  "push_entry entry body ps =
     ps\<lparr>ps_chain_entries := ps_chain_entries ps @ [entry],
        ps_block_store := (case body of
           None \<Rightarrow> ps_block_store ps
         | Some b \<Rightarrow> bt_insert (ce_slot entry, ce_block_hash entry) b (ps_block_store ps))\<rparr>"

text \<open>The block under the lock.\<close>

definition extend_peer :: "string \<Rightarrow> chain_entry \<Rightarrow> bytes option \<Rightarrow> peers \<Rightarrow> peers res" where
  "extend_peer pid entry body peers =
     try_res (ok_or (''peer_extends_chain: peer '' @ quoted pid @ '' not found '' @ [CHR 0xE2, CHR 0x80, CHR 0x94]
        @ '' declare it in the network block'') (map_of peers pid)) (\<lambda>ps.
     try_res (not_above_tip (ce_slot entry) ps) (\<lambda>_.
       Ok (AList.update pid (push_entry entry body ps) peers)))"

definition update_peers :: "(peers \<Rightarrow> peers res) \<Rightarrow> unit run" where
  "update_peers f s = (case s of (rn, w) \<Rightarrow> (case f (rn_peers rn) of
     Ok peers \<Rightarrow> Some (Ok (), rn\<lparr>rn_peers := peers\<rparr>, w)
   | Err err \<Rightarrow> Some (Err err, s)
   | Panic \<Rightarrow> Some (Panic, s)))"

definition peer_extends_chain :: "tracer \<Rightarrow> step_params \<Rightarrow> unit run" where
  "peer_extends_chain t params =
     bind_run (res_run (extension_of_params params)) (\<lambda>(pid, entry, body, hash_hex).
     bind_run (update_peers (extend_peer pid entry body)) (\<lambda>_.
     do_emit t (new_event PeerChainExtended Internal (jobj
       [(''peer_id'', JString pid), (''slot'', jnum (ce_slot entry)), (''block_hash'', JString hash_hex),
        (''block_number'', jnum (ce_block_number entry)), (''source'', JString ''explicit'')]))))"

definition peer_event_kind :: "string \<Rightarrow> event_kind" where
  "peer_event_kind s =
     (if s = ''peer_produced_block'' then PeerProducedBlock
      else if s = ''peer_cast_vote'' then PeerCastVote
      else if s = ''peer_forked_chain'' then PeerForkedChain
      else if s = ''peer_joined_network'' then PeerJoinedNetwork
      else if s = ''peer_left_network'' then PeerLeftNetwork
      else PeerNetworkEvent)"

definition emit_peer_event :: "tracer \<Rightarrow> json \<Rightarrow> step_params \<Rightarrow> unit run" where
  "emit_peer_event t resolved params =
     bind_run (res_run (ok_or ''emit_peer_event: peer_id is required'' (sp_peer_id params))) (\<lambda>pid.
     bind_run (res_run (ok_or ''emit_peer_event: event_kind is required'' (sp_event_kind params))) (\<lambda>kind.
     let payload = (case json_get ''payload'' resolved of None \<Rightarrow> jobj [] | Some v \<Rightarrow> v) in
     do_emit t (with_peer_id pid (new_event (peer_event_kind kind) Internal payload))))"

definition sleep_step :: "step_params \<Rightarrow> unit run" where
  "sleep_step params = io_run (sleep_secs (case sp_duration_secs params of Some n \<Rightarrow> n | None \<Rightarrow> 0))"

definition name_or_default :: "string option \<Rightarrow> string" where
  "name_or_default n = (case n of Some s \<Rightarrow> s | None \<Rightarrow> ''default'')"

definition close_listener :: "tracer \<Rightarrow> step_def \<Rightarrow> unit run" where
  "close_listener t step =
     bind_run (\<lambda>(rn, w). Some (Ok (), rn\<lparr>rn_listeners := rn_listeners rn - {name_or_default (sd_on_name step)}\<rparr>, w)) (\<lambda>_.
     do_emit t (new_event ServerListenStopped Internal (jobj [])))"

text \<open>The channels and workers of the connection go with it.\<close>

definition disconnect :: "tracer \<Rightarrow> step_def \<Rightarrow> unit run" where
  "disconnect t step =
     (let name = name_or_default (sd_on_name step) in
      bind_run (\<lambda>(rn, w). case map_of (rn_connections rn) name of
          None \<Rightarrow> Some (anyhow (''disconnect: connection '' @ quoted name @ '' not found''), rn, w)
        | Some _ \<Rightarrow> Some (Ok (), rn\<lparr>rn_connections := AList.delete name (rn_connections rn)\<rparr>, w)) (\<lambda>_.
      do_emit t (with_connection name (new_event ConnectionClosed Internal (jobj [])))))"

section \<open>Serving steps\<close>

text \<open>
  \<open>CheckedOut\<close>: the connection leaves the map while the step runs and returns to it, as the step
  left it, however the step ends.
\<close>

definition checked_out ::
    "string \<Rightarrow> (server_connection \<Rightarrow> runner \<Rightarrow> world \<Rightarrow> 'a res \<times> server_connection \<times> world) \<Rightarrow> 'a run" where
  "checked_out name f s = (case s of (rn, w) \<Rightarrow>
     (case map_of (rn_server_connections rn) name of
        None \<Rightarrow> Some (anyhow (''connection '' @ quoted name
          @ '' not found (missing connect/accept_handshake, or already in use by another branch)''), s)
      | Some sc \<Rightarrow>
          let rn1 = rn\<lparr>rn_server_connections := AList.delete name (rn_server_connections rn)\<rparr> in
          (case f sc rn1 w of (r, sc', w') \<Rightarrow>
             Some (r, rn1\<lparr>rn_server_connections := AList.update name sc' (rn_server_connections rn1)\<rparr>, w'))))"

definition run_session :: "server_connection \<Rightarrow> 'a io \<Rightarrow> world \<Rightarrow> unit res \<times> server_connection \<times> world" where
  "run_session sc m w = (case try_io m (\<lambda>_. ret ()) w of (r, w') \<Rightarrow> (r, sc, w'))"

text \<open>\<open>as_peer\<close> relabels the connection once the peer is found in the declaration.\<close>

definition take_identity :: "runner \<Rightarrow> step_params \<Rightarrow> server_connection \<Rightarrow> server_connection" where
  "take_identity rn params sc = (case sp_as_peer params of
     Some pid \<Rightarrow> if is_ok (lookup_peer (rn_network rn) pid) then sc\<lparr>sv_peer_id := Some pid\<rparr> else sc
   | None \<Rightarrow> sc)"

definition peer_with_state :: "string \<Rightarrow> runner \<Rightarrow> string \<Rightarrow> peer_state res" where
  "peer_with_state step rn pid =
     try_res (lookup_peer (rn_network rn) pid) (\<lambda>_.
       ok_or (step @ '': peer '' @ quoted pid @ '' has no state; declare it in the network block'')
         (map_of (rn_peers rn) pid))"

definition current_slot_of :: "runner \<Rightarrow> world \<Rightarrow> u64 option" where
  "current_slot_of rn w = map_option (\<lambda>_. slot_cell w) (rn_current_slot rn)"

definition chain_sync_source :: "env \<Rightarrow> runner \<Rightarrow> world \<Rightarrow> step_params \<Rightarrow> fixture_chain option res" where
  "chain_sync_source e rn w params = (case sp_as_peer params of
     Some pid \<Rightarrow> try_res (peer_with_state ''serve_chain_sync'' rn pid) (\<lambda>ps.
       Ok (if ps_chain_entries ps = [] \<and> chain_tip_slot ps = None then None
           else Some (filtered_fixture_chain ps (current_slot_of rn w))))
   | None \<Rightarrow> (case sp_fixture_path params of
       Some path \<Rightarrow> try_res (with_context (''serve_chain_sync: loading fixture '' @ quoted path)
           (fixture_load (parse_json e) path (file_lines e rn path))) (\<lambda>c. Ok (Some c))
     | None \<Rightarrow> Ok None))"

text \<open>\<open>iter().enumerate().map(..).collect()\<close> over the rule definitions of \<open>responses\<close>.\<close>

fun convert_rules :: "string \<Rightarrow> fixture_chain option \<Rightarrow> block_fixture_chain option \<Rightarrow> usize
    \<Rightarrow> response_rule_def list \<Rightarrow> script_rule list res" where
  "convert_rules step cs bf i [] = Ok []"
| "convert_rules step cs bf i (d # ds) =
     try_res (with_context (step @ '': responses['' @ nat_to_string i @ '']'') (rule_def_to_script d cs bf)) (\<lambda>r.
     try_res (convert_rules step cs bf (Suc i) ds) (\<lambda>rs. Ok (r # rs)))"

definition await_at_tip :: "step_params \<Rightarrow> u64" where
  "await_at_tip params = min (case sp_await_at_tip_secs params of Some n \<Rightarrow> n | None \<Rightarrow> 30) 300"

definition chain_sync_script ::
    "env \<Rightarrow> step_def \<Rightarrow> step_params \<Rightarrow> fixture_chain option \<Rightarrow> script_rule list res" where
  "chain_sync_script e step params fixture = (case json_get ''responses'' (sd_raw_params step) of
     Some v \<Rightarrow> try_res (with_context ''serve_chain_sync: parsing responses'' (response_rules_from_value v)) (\<lambda>defs.
       convert_rules ''serve_chain_sync'' fixture None 0 defs)
   | None \<Rightarrow> try_res (ok_or ''serve_chain_sync: fixture_path or as_peer is required when responses is not set'' fixture)
       (\<lambda>chain. Ok (generate_from_fixture chain (await_at_tip params))))"

definition serve_chain_sync :: "env \<Rightarrow> tracer \<Rightarrow> step_def \<Rightarrow> step_params \<Rightarrow> unit run" where
  "serve_chain_sync e t step params = checked_out (name_or_default (sd_on_name step)) (\<lambda>sc rn w.
     case sv_cs_channels sc of
       None \<Rightarrow> (anyhow ''serve_chain_sync: no chain-sync channel'', sc, w)
     | Some inbox \<Rightarrow>
         let sc' = take_identity rn params (sc\<lparr>sv_cs_channels := None\<rparr>) in
         run_session sc' (try_io (lift_res (chain_sync_source e rn w params)) (\<lambda>fixture.
           try_io (lift_res (chain_sync_script e step params fixture)) (\<lambda>script.
             execute_response_script (for_peer_opt t (sv_peer_id sc')) fixture script inbox))) w)"

definition block_fetch_source :: "env \<Rightarrow> runner \<Rightarrow> step_params \<Rightarrow> block_fixture_chain option res" where
  "block_fetch_source e rn params = (case sp_as_peer params of
     Some pid \<Rightarrow> try_res (peer_with_state ''serve_block_fetch'' rn pid) (\<lambda>ps.
       let chain = to_block_fixture_chain ps in Ok (if bc_entries chain = [] then None else Some chain))
   | None \<Rightarrow> (case sp_block_fetch_fixture_path params of
       Some path \<Rightarrow> try_res (with_context (''serve_block_fetch: loading fixture '' @ quoted path)
           (block_fixture_load (parse_json e) path (file_lines e rn path))) (\<lambda>c. Ok (Some c))
     | None \<Rightarrow> Ok None))"

definition block_fetch_script ::
    "env \<Rightarrow> step_def \<Rightarrow> step_params \<Rightarrow> block_fixture_chain option \<Rightarrow> script_rule list res" where
  "block_fetch_script e step params fixture = (case json_get ''responses'' (sd_raw_params step) of
     Some v \<Rightarrow> try_res (with_context ''serve_block_fetch: parsing responses'' (response_rules_from_value v)) (\<lambda>defs.
       convert_rules ''serve_block_fetch'' None fixture 0 defs)
   | None \<Rightarrow> Ok (generate_for_block_fetch (sp_no_blocks_default params = Some True)))"

definition serve_block_fetch :: "env \<Rightarrow> tracer \<Rightarrow> step_def \<Rightarrow> step_params \<Rightarrow> unit run" where
  "serve_block_fetch e t step params = checked_out (name_or_default (sd_on_name step)) (\<lambda>sc rn w.
     case sv_bf_channels sc of
       None \<Rightarrow> (anyhow ''serve_block_fetch: no block-fetch channel'', sc, w)
     | Some inbox \<Rightarrow>
         let sc' = take_identity rn params (sc\<lparr>sv_bf_channels := None\<rparr>) in
         run_session sc' (try_io (lift_res (block_fetch_source e rn params)) (\<lambda>fixture.
           try_io (lift_res (block_fetch_script e step params fixture)) (\<lambda>script.
             execute_block_fetch_script (for_peer_opt t (sv_peer_id sc')) fixture script inbox))) w)"

definition opt_script :: "string \<Rightarrow> (json \<Rightarrow> 'a list res) \<Rightarrow> json option \<Rightarrow> 'a list res" where
  "opt_script msg read v = (case v of None \<Rightarrow> Ok [] | Some x \<Rightarrow> with_context msg (read x))"

definition serve_leios_notify :: "env \<Rightarrow> tracer \<Rightarrow> step_def \<Rightarrow> json \<Rightarrow> unit run" where
  "serve_leios_notify e t step resolved = checked_out (name_or_default (sd_on_name step)) (\<lambda>sc rn w.
     case sv_ln_channels sc of
       None \<Rightarrow> (anyhow ''serve_leios_notify: no leios-notify channel'', sc, w)
     | Some inbox \<Rightarrow>
         run_session (sc\<lparr>sv_ln_channels := None\<rparr>) (try_io
           (lift_res (opt_script ''serve_leios_notify: parsing notifications'' notify_actions_from_value
             (json_get ''notifications'' resolved)))
           (\<lambda>actions. execute_leios_notify_script (for_peer_opt t (sv_peer_id sc)) actions inbox)) w)"

definition serve_leios_fetch :: "env \<Rightarrow> tracer \<Rightarrow> step_def \<Rightarrow> json \<Rightarrow> unit run" where
  "serve_leios_fetch e t step resolved = checked_out (name_or_default (sd_on_name step)) (\<lambda>sc rn w.
     case sv_lf_channels sc of
       None \<Rightarrow> (anyhow ''serve_leios_fetch: no leios-fetch channel'', sc, w)
     | Some inbox \<Rightarrow>
         run_session (sc\<lparr>sv_lf_channels := None\<rparr>) (try_io
           (lift_res (opt_script ''serve_leios_fetch: parsing responses'' fetch_rules_from_value
             (json_get ''responses'' resolved)))
           (\<lambda>rules. execute_leios_fetch_script (for_peer_opt t (sv_peer_id sc)) rules inbox)) w)"

section \<open>Assertions\<close>

record assertion_result =
  ar_name :: string
  ar_passed :: bool
  ar_message :: string

definition has_kind :: "string \<Rightarrow> json \<Rightarrow> bool" where
  "has_kind kind e \<longleftrightarrow> json_get ''kind'' e = Some (JString kind)"

definition evaluate_assertions :: "assertions \<Rightarrow> json list \<Rightarrow> assertion_result list" where
  "evaluate_assertions a events =
     (case min_events a of
        None \<Rightarrow> []
      | Some mn \<Rightarrow> [\<lparr>ar_name = ''min_events >= '' @ nat_to_string mn, ar_passed = mn \<le> length events,
          ar_message = ''got '' @ nat_to_string (length events) @ '' events, required >= '' @ nat_to_string mn\<rparr>])
     @ map (\<lambda>kind. let found = list_ex (has_kind kind) events in
         \<lparr>ar_name = ''must_contain_kind:'' @ kind, ar_passed = found,
          ar_message = (if found then ''found event with kind '' @ quoted kind
                        else ''no event with kind '' @ quoted kind @ '' was found'')\<rparr>)
         (case must_contain_kind a of None \<Rightarrow> [] | Some ks \<Rightarrow> ks)
     @ map (\<lambda>kind. let found = list_ex (has_kind kind) events in
         \<lparr>ar_name = ''must_not_contain_kind:'' @ kind, ar_passed = \<not> found,
          ar_message = (if found then ''unexpected event with kind '' @ quoted kind @ '' was found''
                        else ''no event with kind '' @ quoted kind @ '' (correct)'')\<rparr>)
         (case must_not_contain_kind a of None \<Rightarrow> [] | Some ks \<Rightarrow> ks)"

end
