(* ===== verification/RunLoop.thy ===== *)
theory RunLoop
  imports Runner
begin

text \<open>
  The bookkeeping of the runner (\<open>scenario/runner.rs\<close>): what \<open>run_step\<close> does around the
  execution of a step, the \<open>repeat\<close> step, and \<open>ScenarioRunner::run\<close>. \<open>exec\<close> is
  \<open>execute_step\<close> and \<open>run1\<close> is \<open>run_step\<close>, which call each other in the code.
\<close>

section \<open>One step\<close>

fun try_emit_all :: "tracer \<Rightarrow> trace_event list \<Rightarrow> unit run" where
  "try_emit_all t [] = res_run (Ok ())"
| "try_emit_all t (e # es) = bind_run (try_emit t e) (\<lambda>_. try_emit_all t es)"

definition step_started_event :: "usize \<Rightarrow> step_def \<Rightarrow> trace_event" where
  "step_started_event idx step = new_event StepStarted Internal (jobj
     [(''index'', jlen idx), (''kind'', JString (step_kind_str (sd_kind step)))])"

text \<open>The parameters that are substituted before the step runs; nested steps wait for their turn.\<close>

definition step_input :: "step_def \<Rightarrow> json" where
  "step_input step =
     (if sd_kind step = Repeat \<or> sd_kind step = Parallel
      then json_remove ''branches'' (json_remove ''body'' (sd_raw_params step))
      else sd_raw_params step)"

definition resolve_step :: "usize \<Rightarrow> step_def \<Rightarrow> var_store \<Rightarrow> (json \<times> refs) res" where
  "resolve_step idx step vars =
     with_context (''step['' @ nat_to_string idx @ ''] ('' @ step_kind_str (sd_kind step)
         @ ''): variable substitution failed'') (substitute_in_value (step_input step) vars)"

definition reference_event :: "usize \<Rightarrow> string \<times> string \<Rightarrow> trace_event" where
  "reference_event idx r = new_event VariableReferenced Internal (jobj
     [(''step_index'', jlen idx), (''reference'', JString (fst r)), (''resolved_type'', JString (snd r))])"

definition assertion_event :: "usize \<Rightarrow> assertion_result \<Rightarrow> trace_event" where
  "assertion_event idx r = new_event (if ar_passed r then AssertionPassed else AssertionFailed) Internal (jobj
     [(''step_index'', jlen idx), (''assertion'', JString (ar_name r)), (''message'', JString (ar_message r))])"

definition step_completed_event :: "usize \<Rightarrow> string \<Rightarrow> (string \<times> json) list \<Rightarrow> trace_event" where
  "step_completed_event idx outcome extra = new_event StepCompleted Internal (jobj
     ([(''index'', jlen idx), (''outcome'', JString outcome)] @ extra))"

definition assertion_failure :: error where
  "assertion_failure = AnyhowError [''step assertion failure''] True"

definition step_results :: "step_def \<Rightarrow> json list \<Rightarrow> assertion_result list" where
  "step_results step events = (case sd_expect step of None \<Rightarrow> [] | Some a \<Rightarrow> evaluate_assertions a events)"

definition finish_step :: "tracer \<Rightarrow> usize \<Rightarrow> error + unit \<Rightarrow> bool \<Rightarrow> unit run" where
  "finish_step t idx result assertions_ok = (case result of
     Inr _ \<Rightarrow>
       if assertions_ok then do_emit t (step_completed_event idx ''ok'' [])
       else bind_run (do_emit t (step_completed_event idx ''assertion_failed'' [])) (\<lambda>_. res_run (Err assertion_failure))
   | Inl e \<Rightarrow>
       bind_run (try_emit t (step_completed_event idx ''error'' [(''error'', JString (err_to_string e))]))
         (\<lambda>_. res_run (Err e)))"

definition run_step :: "(step_def \<Rightarrow> json \<Rightarrow> unit run) \<Rightarrow> tracer \<Rightarrow> step_def \<Rightarrow> usize \<Rightarrow> unit run" where
  "run_step exec t step idx =
     bind_run (io_run drain_buffer) (\<lambda>_.
     bind_run (do_emit t (step_started_event idx step)) (\<lambda>_.
     bind_run (io_run drain_buffer) (\<lambda>_.
     bind_run (asks rn_vars) (\<lambda>vars.
     bind_run (res_run (resolve_step idx step vars)) (\<lambda>(resolved, refs).
     bind_run (try_emit_all t (map (reference_event idx) refs)) (\<lambda>_.
     match_run (exec step resolved) (\<lambda>result.
     bind_run (io_run drain_buffer) (\<lambda>events.
     let results = step_results step events in
     bind_run (try_emit_all t (map (assertion_event idx) results)) (\<lambda>_.
     finish_step t idx result (list_all ar_passed results))))))))))"

section \<open>Repeat\<close>

definition iteration_started_event :: "u64 \<Rightarrow> u64 \<Rightarrow> trace_event" where
  "iteration_started_event iteration n_times = new_event RepeatIterationStarted Internal (jobj
     [(''iteration'', jnum iteration), (''total'', jnum n_times)])"

definition iteration_completed_event :: "u64 \<Rightarrow> string \<Rightarrow> (string \<times> json) list \<Rightarrow> trace_event" where
  "iteration_completed_event iteration outcome extra = new_event RepeatIterationCompleted Internal (jobj
     ([(''iteration'', jnum iteration), (''outcome'', JString outcome)] @ extra))"

fun run_body :: "(step_def \<Rightarrow> usize \<Rightarrow> unit run) \<Rightarrow> tracer \<Rightarrow> u64 \<Rightarrow> usize \<Rightarrow> step_def list \<Rightarrow> unit run" where
  "run_body run1 t iteration i [] = res_run (Ok ())"
| "run_body run1 t iteration i (s # ss) =
     match_run (run1 s i) (\<lambda>r. case r of
       Inr _ \<Rightarrow> run_body run1 t iteration (Suc i) ss
     | Inl e \<Rightarrow> bind_run (do_emit t (iteration_completed_event iteration ''error''
         [(''error'', JString (err_to_string e))])) (\<lambda>_. res_run (Err e)))"

text \<open>\<open>for iteration in 0..times\<close>: the iterations still to do and the number of the next one.\<close>

fun repeat_loop :: "(step_def \<Rightarrow> usize \<Rightarrow> unit run) \<Rightarrow> tracer \<Rightarrow> u64 \<Rightarrow> step_def list \<Rightarrow> nat \<Rightarrow> u64 \<Rightarrow> unit run" where
  "repeat_loop run1 t n_times body 0 iteration = res_run (Ok ())"
| "repeat_loop run1 t n_times body (Suc n) iteration =
     bind_run (do_emit t (iteration_started_event iteration n_times)) (\<lambda>_.
     bind_run (run_body run1 t iteration 0 body) (\<lambda>_.
     bind_run (do_emit t (iteration_completed_event iteration ''ok'' [])) (\<lambda>_.
     repeat_loop run1 t n_times body n (iteration + 1))))"

definition repeat_times :: "(json \<Rightarrow> string) \<Rightarrow> json \<Rightarrow> u64 res" where
  "repeat_times render resolved =
     try_res (ok_or ''repeat step requires times'' (json_get ''times'' resolved)) (\<lambda>v.
       ok_or (''repeat times must be a non-negative integer, got '' @ render v) (as_u64 v))"

definition repeat_body :: "step_def \<Rightarrow> step_def list res" where
  "repeat_body step =
     try_res (ok_or ''repeat step requires body'' (json_get ''body'' (sd_raw_params step))) (\<lambda>v.
       with_context ''invalid repeat body'' (steps_from_value v))"

definition repeat_step ::
    "(json \<Rightarrow> string) \<Rightarrow> (step_def \<Rightarrow> usize \<Rightarrow> unit run) \<Rightarrow> tracer \<Rightarrow> step_def \<Rightarrow> json \<Rightarrow> unit run" where
  "repeat_step render run1 t step resolved =
     bind_run (res_run (repeat_times render resolved)) (\<lambda>n_times.
     bind_run (res_run (repeat_body step)) (\<lambda>body.
     repeat_loop run1 t n_times body (unat n_times) 0))"

section \<open>The whole run\<close>

definition scenario_started_event :: "scenario \<Rightarrow> trace_event" where
  "scenario_started_event sc = new_event ScenarioStarted Internal (jobj
     [(''name'', JString (sc_name sc)), (''description'', jopt JString (sc_description sc)),
      (''target_address'', JString (case sc_target_address sc of Some a \<Rightarrow> a | None \<Rightarrow> [])),
      (''network_magic'', jnum (sc_network_magic sc)), (''steps'', jlen (length (sc_steps sc))),
      (''expected_outcome'', jopt JString (sc_expected_outcome sc))])"

definition scenario_start_slot :: "scenario \<Rightarrow> u64 option" where
  "scenario_start_slot sc = Option.bind (sc_network sc) start_slot"

definition saturating_sub :: "u64 \<Rightarrow> u64 \<Rightarrow> u64" where
  "saturating_sub a b = (if b \<le> a then a - b else 0)"

text \<open>The built-in variables; \<open>now_ms\<close> is the wall clock.\<close>

definition seed_vars :: "scenario \<Rightarrow> u64 \<Rightarrow> var_store" where
  "seed_vars sc now_ms = (case sc_sut_genesis_time_unix sc of
     None \<Rightarrow> Map.empty
   | Some genesis_unix \<Rightarrow>
       let slot_ms = max (case sc_sut_slot_duration_ms sc of Some d \<Rightarrow> d | None \<Rightarrow> 1000) 1;
           slot = saturating_sub now_ms (genesis_unix * 1000) div slot_ms
       in [''current_slot'' \<mapsto> jnum slot, ''current_slot_minus_100'' \<mapsto> jnum (saturating_sub slot 100)])"

definition peer_json :: "peer \<Rightarrow> json" where
  "peer_json p = jobj ([(''id'', JString (peer_id p))]
     @ opt_field ''chain_sync_fixture'' JString (chain_sync_fixture p)
     @ opt_field ''block_fetch_fixture'' JString (block_fetch_fixture p)
     @ opt_field ''description'' JString (peer_description p))"

definition network_declared_event :: "network \<Rightarrow> trace_event" where
  "network_declared_event net = new_event NetworkDeclared Internal (jobj
     [(''peers'', JArray (map peer_json (net_peers net)))])"

definition init_peer :: "env \<Rightarrow> peer \<Rightarrow> peer_state res" where
  "init_peer e p =
     try_res (case chain_sync_fixture p of
         None \<Rightarrow> Ok peer_state_new
       | Some path \<Rightarrow> try_res (with_context (''peer '' @ quoted (peer_id p) @ '': loading chain_sync_fixture '' @ quoted path)
           (fixture_load (parse_json e) path (read_lines e path))) from_fixture_chain) (\<lambda>ps.
     let ps' = ps\<lparr>ps_production_rule := production_rule p\<rparr> in
     (case block_fetch_fixture p of
         None \<Rightarrow> Ok ps'
       | Some path \<Rightarrow> try_res (with_context (''peer '' @ quoted (peer_id p) @ '': loading block_fetch_fixture '' @ quoted path)
           (block_fixture_load (parse_json e) path (read_lines e path))) (\<lambda>c. extend_from_block_fixture_chain c ps')))"

definition peer_initialized_event :: "peer \<Rightarrow> peer_state \<Rightarrow> trace_event" where
  "peer_initialized_event p ps = new_event PeerStateInitialized Internal (jobj
     [(''peer_id'', JString (peer_id p)), (''chain_entries_loaded'', jlen (length (ps_chain_entries ps))),
      (''blocks_loaded'', jlen (length (ps_block_store ps)))])"

fun init_peers :: "env \<Rightarrow> tracer \<Rightarrow> peer list \<Rightarrow> peers \<Rightarrow> peers io" where
  "init_peers e t [] m = ret m"
| "init_peers e t (p # ps) m =
     try_io (lift_res (init_peer e p)) (\<lambda>st.
     try_io (emit t (peer_initialized_event p st)) (\<lambda>_.
     init_peers e t ps (AList.update (peer_id p) st m)))"

definition declare_network :: "env \<Rightarrow> tracer \<Rightarrow> network option \<Rightarrow> peers io" where
  "declare_network e t network = (case network of
     None \<Rightarrow> ret []
   | Some net \<Rightarrow> try_io (emit t (network_declared_event net)) (\<lambda>_. init_peers e t (net_peers net) []))"

fun run_steps :: "(step_def \<Rightarrow> usize \<Rightarrow> unit run) \<Rightarrow> usize \<Rightarrow> step_def list \<Rightarrow> u64 \<Rightarrow> (u64 \<times> error option) run" where
  "run_steps run1 i [] steps_passed = res_run (Ok (steps_passed, None))"
| "run_steps run1 i (s # ss) steps_passed =
     match_run (run1 s i) (\<lambda>r. case r of
       Inr _ \<Rightarrow> run_steps run1 (Suc i) ss (steps_passed + 1)
     | Inl e \<Rightarrow> res_run (Ok (steps_passed, Some e)))"

definition aborted_event :: "string \<Rightarrow> trace_event" where
  "aborted_event name = with_connection name (new_event ConnectionClosed Internal (jobj
     [(''reason'', JString ''scenario_aborted'')]))"

definition cleanup :: "tracer \<Rightarrow> unit run" where
  "cleanup t =
     bind_run (\<lambda>(rn, w). Some (Ok (map fst (rn_server_connections rn)), rn\<lparr>rn_server_connections := []\<rparr>, w)) (\<lambda>servers.
     bind_run (try_emit_all t (map aborted_event servers)) (\<lambda>_.
     bind_run (\<lambda>(rn, w). Some (Ok (map fst (rn_connections rn)),
        rn\<lparr>rn_listeners := {}, rn_connections := []\<rparr>, w)) (\<lambda>clients.
     try_emit_all t (map aborted_event clients))))"

definition scenario_completed_event :: "string \<Rightarrow> u64 \<Rightarrow> u64 \<Rightarrow> u64 \<Rightarrow> string \<Rightarrow> trace_event" where
  "scenario_completed_event name steps_passed steps_failed duration outcome =
     new_event ScenarioCompleted Internal (jobj
       [(''name'', JString name), (''steps_passed'', jnum steps_passed), (''steps_failed'', jnum steps_failed),
        (''duration_ms'', jnum duration), (''outcome'', JString outcome)])"

definition emit_completed :: "tracer \<Rightarrow> string \<Rightarrow> u64 \<Rightarrow> u64 \<Rightarrow> string \<Rightarrow> unit run" where
  "emit_completed t name steps_passed steps_failed outcome =
     bind_run (io_run elapsed_ms) (\<lambda>duration.
       try_emit t (scenario_completed_event name steps_passed steps_failed duration outcome))"

definition outcome_of_error :: "error \<Rightarrow> string" where
  "outcome_of_error e = (if is_assertion_failure e then ''assertion_failed'' else ''step_error'')"

definition conclude :: "tracer \<Rightarrow> string \<Rightarrow> u64 \<times> error option \<Rightarrow> unit run" where
  "conclude t name r = (case r of
     (passed, None) \<Rightarrow> emit_completed t name passed 0 ''completed''
   | (passed, Some e) \<Rightarrow>
       bind_run (cleanup t) (\<lambda>_.
       bind_run (emit_completed t name passed 1 (outcome_of_error e)) (\<lambda>_. res_run (Err e))))"

text \<open>\<open>ScenarioRunner\<close> and its builders\<close>

record scenario_runner =
  srn_scenario :: scenario
  srn_capture_fixture :: "string option"
  srn_capture_block_fixture :: "string option"

definition scenario_runner_new :: "scenario \<Rightarrow> scenario_runner" where
  "scenario_runner_new sc = \<lparr>srn_scenario = sc, srn_capture_fixture = None, srn_capture_block_fixture = None\<rparr>"

definition with_capture_fixture :: "string option \<Rightarrow> scenario_runner \<Rightarrow> scenario_runner" where
  "with_capture_fixture path sr = sr\<lparr>srn_capture_fixture := path\<rparr>"

definition with_capture_block_fixture :: "string option \<Rightarrow> scenario_runner \<Rightarrow> scenario_runner" where
  "with_capture_block_fixture path sr = sr\<lparr>srn_capture_block_fixture := path\<rparr>"

text \<open>\<open>Tracer::open\<close> on the path that the scenario gives. The file is truncated: the world's trace file is
  what has been written since.\<close>

definition open_tracer :: "env \<Rightarrow> string \<Rightarrow> tracer res" where
  "open_tracer e path = (case write_error e path of Some err \<Rightarrow> anyhow err | None \<Rightarrow> Ok tracer_open)"

text \<open>\<open>exec\<close> is given the tracer, the scenario's target address and its magic.\<close>

definition run_scenario ::
    "env \<Rightarrow> u64 \<Rightarrow> (tracer \<Rightarrow> string \<Rightarrow> u64 \<Rightarrow> step_def \<Rightarrow> json \<Rightarrow> unit run) \<Rightarrow> scenario_runner \<Rightarrow> unit run" where
  "run_scenario e now_ms exec sr =
     (let sc = srn_scenario sr in
     bind_run (res_run (open_tracer e (sc_trace_output_path sc))) (\<lambda>tracer0.
     bind_run (do_emit tracer0 (scenario_started_event sc)) (\<lambda>_.
     let handle = map_option (\<lambda>_. SlotHandle) (scenario_start_slot sc);
         t = with_slot_tracker tracer0 handle;
         target_address = (case sc_target_address sc of Some a \<Rightarrow> a | None \<Rightarrow> []) in
     bind_run (case scenario_start_slot sc of None \<Rightarrow> res_run (Ok ()) | Some n \<Rightarrow> store_slot n) (\<lambda>_.
     bind_run (\<lambda>(rn, w). Some (Ok (), runner_default\<lparr>rn_network := sc_network sc, rn_current_slot := handle,
        rn_capture_fixture_path := srn_capture_fixture sr, rn_capture_block_fixture_path := srn_capture_block_fixture sr,
        rn_vars := seed_vars sc now_ms\<rparr>, w)) (\<lambda>_.
     bind_run (io_run (declare_network e t (sc_network sc))) (\<lambda>peers.
     bind_run (\<lambda>(rn, w). Some (Ok (), rn\<lparr>rn_peers := peers\<rparr>, w)) (\<lambda>_.
     bind_run (run_steps (run_step (exec t target_address (sc_network_magic sc)) t) 0 (sc_steps sc) 0) (\<lambda>r.
     conclude t (sc_name sc) r))))))))"

end
