(* ===== verification/ChainSyncClient.thy ===== *)
theory ChainSyncClient
  imports Client Fixture
begin

text \<open>
  The Chain-Sync client (\<open>miniprotocols/chainsync.rs\<close>): find an intersection, ask for headers
  until enough have come, say goodbye, and report what was collected.
\<close>

definition csc_protocol :: string where
  "csc_protocol = ''chain-sync''"

section \<open>What is collected\<close>

record captured_header =
  cap_slot :: u64
  cap_block_hash :: bytes
  cap_block_number :: u64
  cap_cbor :: bytes
  cap_variant :: u8

record csc_session =
  csc_headers :: u64
  csc_rollbacks :: u64
  csc_sent :: u64
  csc_received :: u64
  csc_points :: "point list"
  csc_captured :: "captured_header list"

record csc_summary =
  ccs_headers_received :: u64
  ccs_rollbacks :: u64
  ccs_must_reply_triggered :: bool
  ccs_messages_sent :: u64
  ccs_messages_received :: u64
  ccs_exit_reason :: string
  ccs_duration_ms :: u64
  ccs_collected_points :: "point list"
  ccs_captured_headers :: "captured_header list"

definition csc_start :: csc_session where
  "csc_start = \<lparr>csc_headers = 0, csc_rollbacks = 0, csc_sent = 0, csc_received = 0,
     csc_points = [], csc_captured = []\<rparr>"

definition extract_and_capture :: "wrapped_header \<Rightarrow> csc_session \<Rightarrow> csc_session" where
  "extract_and_capture h s = (case wh_parsed h of
     None \<Rightarrow> s
   | Some info \<Rightarrow> (case wh_point h of
       Some (NcSpecific slot hash) \<Rightarrow>
         s\<lparr>csc_points := csc_points s @ [Specific slot hash],
           csc_captured := csc_captured s @ [\<lparr>cap_slot = slot, cap_block_hash = hash,
             cap_block_number = hi_block_number info, cap_cbor = wh_raw h, cap_variant = hi_era info\<rparr>]\<rparr>
     | _ \<Rightarrow> s))"

section \<open>Trace events\<close>

fun format_nc_tip :: "nc_tip \<Rightarrow> json" where
  "format_nc_tip (NcTip p n) = jobj [(''point'', format_nc_point p), (''block_number'', jnum n)]"

definition roll_forward_payload :: "wrapped_header \<Rightarrow> nc_tip \<Rightarrow> json" where
  "roll_forward_payload h tip = jobj
     [(''variant'', jnum (ucast (case wh_parsed h of Some i \<Rightarrow> hi_era i | None \<Rightarrow> 0))),
      (''cbor_hex'', JString (encode_hex (wh_raw h))), (''cbor_len'', jlen (length (wh_raw h))),
      (''tip'', format_nc_tip tip)]"

definition csc_started_event :: "u64 \<Rightarrow> trace_event" where
  "csc_started_event count = with_protocol csc_protocol (new_event ChainSyncStarted Internal
     (jobj [(''target_headers'', jnum count)]))"

definition csc_find_event :: "point list \<Rightarrow> trace_event" where
  "csc_find_event points = with_states csc_protocol ''Idle'' ''Intersect'' (new_event ChainSyncFindIntersect Sent
     (jobj [(''points'', JArray (map format_point points))]))"

definition csc_found_event :: "nc_point \<Rightarrow> nc_tip \<Rightarrow> trace_event" where
  "csc_found_event p tip = with_states csc_protocol ''Intersect'' ''Idle'' (new_event ChainSyncIntersectFound Received
     (jobj [(''point'', format_nc_point p), (''tip'', format_nc_tip tip)]))"

definition csc_not_found_event :: trace_event where
  "csc_not_found_event = with_states csc_protocol ''Intersect'' ''Idle''
     (new_event ChainSyncIntersectNotFound Received (jobj []))"

definition csc_request_event :: "u64 \<Rightarrow> trace_event" where
  "csc_request_event n = with_states csc_protocol ''Idle'' ''CanAwait'' (new_event ChainSyncRequestNext Sent
     (jobj [(''headers_received_so_far'', jnum n)]))"

definition csc_forward_event :: "wrapped_header \<Rightarrow> nc_tip \<Rightarrow> trace_event" where
  "csc_forward_event h tip = with_states csc_protocol ''CanAwait'' ''Idle''
     (new_event ChainSyncRollForward Received (roll_forward_payload h tip))"

definition csc_backward_event :: "nc_point \<Rightarrow> nc_tip \<Rightarrow> trace_event" where
  "csc_backward_event p tip = with_states csc_protocol ''CanAwait'' ''Idle'' (new_event ChainSyncRollBackward Received
     (jobj [(''rollback_to'', format_nc_point p), (''tip'', format_nc_tip tip)]))"

definition csc_done_event :: trace_event where
  "csc_done_event = with_states csc_protocol ''Idle'' ''Done'' (new_event ChainSyncDone Sent (jobj []))"

definition csc_summary_event :: "csc_summary \<Rightarrow> trace_event" where
  "csc_summary_event s = with_protocol csc_protocol (new_event ChainSyncSessionSummary Internal (jobj
     [(''headers_received'', jnum (ccs_headers_received s)), (''rollbacks'', jnum (ccs_rollbacks s)),
      (''must_reply_triggered'', JBool (ccs_must_reply_triggered s)),
      (''messages_sent'', jnum (ccs_messages_sent s)), (''messages_received'', jnum (ccs_messages_received s)),
      (''exit_reason'', JString (ccs_exit_reason s)), (''duration_ms'', jnum (ccs_duration_ms s)),
      (''collected_points'', jlen (length (ccs_collected_points s)))]))"

section \<open>The session\<close>

definition csc_build_summary :: "csc_session \<Rightarrow> string \<Rightarrow> csc_summary io" where
  "csc_build_summary s reason = try_io elapsed_ms (\<lambda>duration. ret
     \<lparr>ccs_headers_received = csc_headers s, ccs_rollbacks = csc_rollbacks s, ccs_must_reply_triggered = False,
       ccs_messages_sent = csc_sent s, ccs_messages_received = csc_received s, ccs_exit_reason = reason,
       ccs_duration_ms = duration, ccs_collected_points = csc_points s,
       ccs_captured_headers = csc_captured s\<rparr>)"

definition csc_summarise :: "tracer \<Rightarrow> csc_session \<Rightarrow> string \<Rightarrow> (csc_summary, world) stepper" where
  "csc_summarise t s reason = bind_run (on_io (csc_build_summary s reason)) (\<lambda>summary.
     bind_run (quietly (emit t (csc_summary_event summary))) (\<lambda>_. res_run (Ok summary)))"

text \<open>One request. \<open>Inr\<close> is the summary with which the session returns early.\<close>

definition csc_on_event :: "tracer \<Rightarrow> cs_event \<Rightarrow> csc_session \<Rightarrow> (csc_session, world) stepper" where
  "csc_on_event t ev s0 = (let s = s0\<lparr>csc_received := csc_received s0 + 1\<rparr> in case ev of
     NextRollForward h tip \<Rightarrow>
       let s' = extract_and_capture h (s\<lparr>csc_headers := csc_headers s + 1\<rparr>) in
       bind_run (on_io (emit t (csc_forward_event h tip))) (\<lambda>_. res_run (Ok s'))
   | NextRollBackward p tip \<Rightarrow>
       bind_run (on_io (emit t (csc_backward_event p tip))) (\<lambda>_.
         res_run (Ok (s\<lparr>csc_rollbacks := csc_rollbacks s + 1\<rparr>))))"

definition csc_ask :: "tracer \<Rightarrow> u64 \<Rightarrow> (string + cs_event) option \<Rightarrow> csc_session
    \<Rightarrow> (csc_session + csc_summary, world) stepper" where
  "csc_ask t secs answer s0 =
     bind_run (on_io (emit t (csc_request_event (csc_headers s0)))) (\<lambda>_.
     let s = s0\<lparr>csc_sent := csc_sent s0 + 1\<rparr> in
     bind_run (timed_call secs (CsWire RequestNext) answer) (\<lambda>result. case result of
       None \<Rightarrow> bind_run (csc_summarise t s ''await_timeout'') (\<lambda>summary. res_run (Ok (Inr summary)))
     | Some (Inl e) \<Rightarrow>
         bind_run (quietly (emit t (phase_error_event csc_protocol ''request_next'' e []))) (\<lambda>_.
         bind_run (csc_summarise t s ''error'') (\<lambda>_. fails (''request_next failed: '' @ e)))
     | Some (Inr ev) \<Rightarrow> bind_run (csc_on_event t ev s) (\<lambda>s'. res_run (Ok (Inl s')))))"

text \<open>\<open>while headers_received < count\<close>; roll-backs do not count.\<close>

fun csc_loop :: "tracer \<Rightarrow> u64 \<Rightarrow> u64 \<Rightarrow> (string + cs_event) list \<Rightarrow> csc_session
    \<Rightarrow> (csc_session + csc_summary, world) stepper" where
  "csc_loop t count secs [] s =
     (if csc_headers s < count then csc_ask t secs None s else res_run (Ok (Inl s)))"
| "csc_loop t count secs (r # rs) s =
     (if csc_headers s < count then
        bind_run (csc_ask t secs (Some r) s) (\<lambda>x. case x of
          Inl s' \<Rightarrow> csc_loop t count secs rs s'
        | Inr summary \<Rightarrow> res_run (Ok (Inr summary)))
      else res_run (Ok (Inl s)))"

definition csc_find :: "tracer \<Rightarrow> cs_channel \<Rightarrow> point list \<Rightarrow> csc_session \<Rightarrow> (csc_session, world) stepper" where
  "csc_find t ch points s0 =
     bind_run (on_io (emit t (csc_find_event points))) (\<lambda>_.
     let s = s0\<lparr>csc_sent := csc_sent s0 + 1\<rparr> in
     bind_run (call (CsWire (FindIntersect (map (\<lambda>p. from_nc_point (to_nc_point p)) points))) (ch_find ch)) (\<lambda>result.
     case result of
       Inr (Some (p, tip)) \<Rightarrow> bind_run (on_io (emit t (csc_found_event p tip))) (\<lambda>_.
         res_run (Ok (s\<lparr>csc_received := csc_received s + 1\<rparr>)))
     | Inr None \<Rightarrow> bind_run (on_io (emit t csc_not_found_event)) (\<lambda>_.
         res_run (Ok (s\<lparr>csc_received := csc_received s + 1\<rparr>)))
     | Inl e \<Rightarrow> bind_run (quietly (emit t (phase_error_event csc_protocol ''find_intersect'' e []))) (\<lambda>_.
         fails (''find_intersect failed: '' @ e))))"

definition csc_goodbye :: "tracer \<Rightarrow> cs_channel \<Rightarrow> csc_session \<Rightarrow> (csc_session, world) stepper" where
  "csc_goodbye t ch s = bind_run (on_io (request (CsWire ChainSyncDoneMsg))) (\<lambda>_. case ch_done ch of
     Some e \<Rightarrow> bind_run (quietly (emit t (phase_error_event csc_protocol ''send_done'' e []))) (\<lambda>_. res_run (Ok s))
   | None \<Rightarrow> bind_run (on_io (emit t csc_done_event)) (\<lambda>_. res_run (Ok (s\<lparr>csc_sent := csc_sent s + 1\<rparr>))))"

definition run_chain_sync :: "tracer \<Rightarrow> cs_channel \<Rightarrow> point list \<Rightarrow> u64 \<Rightarrow> u64 \<Rightarrow> (csc_summary, world) stepper" where
  "run_chain_sync t ch intersection_points count await_secs =
     bind_run (on_io (emit t (csc_started_event count))) (\<lambda>_.
     bind_run (csc_find t ch intersection_points csc_start) (\<lambda>s.
     bind_run (csc_loop t count await_secs (ch_next ch) s) (\<lambda>x. case x of
       Inr summary \<Rightarrow> res_run (Ok summary)
     | Inl s' \<Rightarrow> bind_run (csc_goodbye t ch s') (\<lambda>s''. csc_summarise t s'' ''completed''))))"

section \<open>Capture\<close>

text \<open>The fixture record of a captured header, as \<open>runner.rs\<close> writes it.\<close>

definition entry_of_capture :: "captured_header \<Rightarrow> fixture_entry" where
  "entry_of_capture c = \<lparr>fe_slot = cap_slot c, fe_block_hash = encode_hex (cap_block_hash c),
     fe_block_number = cap_block_number c, fe_cbor_hex = encode_hex (cap_cbor c), fe_variant = cap_variant c\<rparr>"

section \<open>What a session writes\<close>

lemma sess_csc_summarise: "run_keeps session_extends (csc_summarise t s reason)"
  unfolding csc_summarise_def csc_build_summary_def by (intro client_rules)

lemma sess_chain_sync: "run_keeps session_extends (run_chain_sync t ch points count secs)"
proof -
  have event: "run_keeps session_extends (csc_on_event t ev s)" for ev s
    by (cases ev) (auto simp: csc_on_event_def Let_def intro!: client_rules)
  have ask: "run_keeps session_extends (csc_ask t secs a s)" for a s
    unfolding csc_ask_def Let_def by (intro client_rules event sess_csc_summarise)
  have loop: "run_keeps session_extends (csc_loop t count secs rs s)" for rs s
    by (induction rs arbitrary: s) (auto intro!: client_rules ask)
  show ?thesis
    unfolding run_chain_sync_def csc_find_def csc_goodbye_def Let_def
    by (intro client_rules loop sess_csc_summarise sess_request)
qed

end
