(* ===== verification/BlockFetchClient.thy ===== *)
theory BlockFetchClient
  imports Client BlockFixture
begin

text \<open>
  The Block-Fetch client (\<open>miniprotocols/blockfetch.rs\<close>): one range request per batch of
  points, each answered in full before the next.
\<close>

definition bfc_protocol :: string where
  "bfc_protocol = ''block-fetch''"

section \<open>What is collected\<close>

record captured_block =
  cb_slot :: u64
  cb_block_hash :: bytes
  cb_cbor :: bytes

record bfc_session =
  bfc_ranges :: u64
  bfc_blocks :: u64
  bfc_no_blocks :: u64
  bfc_bytes :: u64
  bfc_captured :: "captured_block list"

record bfc_summary =
  bcs_range_requests :: u64
  bcs_blocks_received :: u64
  bcs_no_blocks_responses :: u64
  bcs_total_bytes :: u64
  bcs_exit_reason :: string
  bcs_duration_ms :: u64
  bcs_captured_blocks :: "captured_block list"

definition bfc_start :: bfc_session where
  "bfc_start = \<lparr>bfc_ranges = 0, bfc_blocks = 0, bfc_no_blocks = 0, bfc_bytes = 0, bfc_captured = []\<rparr>"

text \<open>\<open>slice.chunks(n)\<close> for a positive \<open>n\<close>\<close>

function chunks :: "usize \<Rightarrow> 'a list \<Rightarrow> 'a list list" where
  "chunks n xs = (if n = 0 \<or> xs = [] then [] else take n xs # chunks n (drop n xs))"
  by pat_completeness auto

termination
  by (relation "measure (length \<circ> snd)") auto

declare chunks.simps [simp del]

definition effective_batch :: "usize \<Rightarrow> usize" where
  "effective_batch batch_size = max batch_size 1"

text \<open>A block is captured under the point of a batch of one.\<close>

definition capture_point :: "point list \<Rightarrow> (u64 \<times> bytes) option" where
  "capture_point batch = (case batch of
     [Specific slot hash] \<Rightarrow> Some (slot, hash)
   | _ \<Rightarrow> None)"

section \<open>Trace events\<close>

definition bfc_started_event :: "usize \<Rightarrow> usize \<Rightarrow> trace_event" where
  "bfc_started_event n_points batch = with_protocol bfc_protocol (new_event BlockFetchStarted Internal (jobj
     [(''total_points'', jlen n_points), (''batch_size'', jlen batch)]))"

definition bfc_request_event :: "point list \<Rightarrow> trace_event" where
  "bfc_request_event batch = with_states bfc_protocol ''Idle'' ''Busy'' (new_event BlockFetchRequestRange Sent (jobj
     [(''from'', format_point (hd batch)), (''to'', format_point (last batch)), (''batch_len'', jlen (length batch))]))"

definition bfc_no_blocks_event :: "point list \<Rightarrow> trace_event" where
  "bfc_no_blocks_event batch = with_states bfc_protocol ''Busy'' ''Idle'' (new_event BlockFetchNoBlocks Received (jobj
     [(''from'', format_point (hd batch)), (''to'', format_point (last batch))]))"

definition bfc_start_batch_event :: trace_event where
  "bfc_start_batch_event = with_states bfc_protocol ''Busy'' ''Streaming'' (new_event BlockFetchStartBatch Received (jobj []))"

definition bfc_block_event :: "bytes \<Rightarrow> trace_event" where
  "bfc_block_event body = with_states bfc_protocol ''Streaming'' ''Streaming'' (new_event BlockFetchBlock Received (jobj
     [(''cbor_hex'', JString (encode_hex body)), (''cbor_len'', jlen (length body))]))"

definition bfc_batch_done_event :: "u64 \<Rightarrow> trace_event" where
  "bfc_batch_done_event n = with_states bfc_protocol ''Streaming'' ''Idle'' (new_event BlockFetchBatchDone Received (jobj
     [(''blocks_in_batch'', jnum n)]))"

definition bfc_done_event :: trace_event where
  "bfc_done_event = with_states bfc_protocol ''Idle'' ''Done'' (new_event BlockFetchClientDone Sent (jobj []))"

definition bfc_summary_event :: "bfc_summary \<Rightarrow> trace_event" where
  "bfc_summary_event s = with_protocol bfc_protocol (new_event BlockFetchSessionSummary Internal (jobj
     [(''range_requests'', jnum (bcs_range_requests s)), (''blocks_received'', jnum (bcs_blocks_received s)),
      (''no_blocks_responses'', jnum (bcs_no_blocks_responses s)), (''total_bytes'', jnum (bcs_total_bytes s)),
      (''exit_reason'', JString (bcs_exit_reason s)), (''duration_ms'', jnum (bcs_duration_ms s))]))"

section \<open>The session\<close>

definition bfc_build_summary :: "bfc_session \<Rightarrow> string \<Rightarrow> bfc_summary io" where
  "bfc_build_summary s reason = try_io elapsed_ms (\<lambda>duration. ret
     \<lparr>bcs_range_requests = bfc_ranges s, bcs_blocks_received = bfc_blocks s, bcs_no_blocks_responses = bfc_no_blocks s,
       bcs_total_bytes = bfc_bytes s, bcs_exit_reason = reason, bcs_duration_ms = duration,
       bcs_captured_blocks = bfc_captured s\<rparr>)"

definition bfc_summarise :: "tracer \<Rightarrow> bfc_session \<Rightarrow> string \<Rightarrow> (bfc_summary, world) stepper" where
  "bfc_summarise t s reason = bind_run (on_io (bfc_build_summary s reason)) (\<lambda>summary.
     bind_run (quietly (emit t (bfc_summary_event summary))) (\<lambda>_. res_run (Ok summary)))"

definition bfc_fail :: "tracer \<Rightarrow> string \<Rightarrow> string \<Rightarrow> bfc_session \<Rightarrow> ('a, world) stepper" where
  "bfc_fail t phase e s = bind_run (quietly (emit t (phase_error_event bfc_protocol phase e []))) (\<lambda>_.
     bind_run (bfc_summarise t s ''error'') (\<lambda>_. fails (phase @ '' failed: '' @ e)))"

definition receive_block :: "(u64 \<times> bytes) option \<Rightarrow> bytes \<Rightarrow> bfc_session \<Rightarrow> bfc_session" where
  "receive_block cp body s =
     s\<lparr>bfc_bytes := bfc_bytes s + of_nat (length body), bfc_blocks := bfc_blocks s + 1,
       bfc_captured := (case cp of None \<Rightarrow> bfc_captured s
         | Some (slot, hash) \<Rightarrow> bfc_captured s @ [\<lparr>cb_slot = slot, cb_block_hash = hash, cb_cbor = body\<rparr>])\<rparr>"

text \<open>The blocks of one batch; what is left of the answers goes to the next batch.\<close>

fun bfc_stream :: "tracer \<Rightarrow> (u64 \<times> bytes) option \<Rightarrow> (string + bytes option) list \<Rightarrow> u64 \<Rightarrow> bfc_session
    \<Rightarrow> (bfc_session \<times> (string + bytes option) list, world) stepper" where
  "bfc_stream t cp [] in_batch s = waits_for_ever"
| "bfc_stream t cp (Inr (Some body) # rs) in_batch s =
     bind_run (on_io (emit t (bfc_block_event body))) (\<lambda>_.
       bfc_stream t cp rs (in_batch + 1) (receive_block cp body s))"
| "bfc_stream t cp (Inr None # rs) in_batch s =
     bind_run (on_io (emit t (bfc_batch_done_event in_batch))) (\<lambda>_. res_run (Ok (s, rs)))"
| "bfc_stream t cp (Inl e # rs) in_batch s = bfc_fail t ''recv_block'' e s"

definition range_wire :: "point list \<Rightarrow> wire" where
  "range_wire batch = BfWire (RequestRange (from_nc_point (to_nc_point (hd batch))) (from_nc_point (to_nc_point (last batch))))"

definition bfc_batch :: "tracer \<Rightarrow> point list \<Rightarrow> (string + bool) option \<Rightarrow> (string + bytes option) list \<Rightarrow> bfc_session
    \<Rightarrow> (bfc_session \<times> (string + bytes option) list, world) stepper" where
  "bfc_batch t batch answer blocks s =
     bind_run (on_io (emit t (bfc_request_event batch))) (\<lambda>_.
     bind_run (call (range_wire batch) answer) (\<lambda>result. case result of
       Inl e \<Rightarrow> bfc_fail t ''request_range'' e s
     | Inr has_blocks \<Rightarrow>
         let s1 = s\<lparr>bfc_ranges := bfc_ranges s + 1\<rparr> in
         if has_blocks then
           bind_run (on_io (emit t bfc_start_batch_event)) (\<lambda>_. bfc_stream t (capture_point batch) blocks 0 s1)
         else
           bind_run (on_io (emit t (bfc_no_blocks_event batch))) (\<lambda>_.
             res_run (Ok (s1\<lparr>bfc_no_blocks := bfc_no_blocks s1 + 1\<rparr>, blocks)))))"

fun bfc_loop :: "tracer \<Rightarrow> point list list \<Rightarrow> (string + bool) list \<Rightarrow> (string + bytes option) list \<Rightarrow> bfc_session
    \<Rightarrow> (bfc_session, world) stepper" where
  "bfc_loop t [] ranges blocks s = res_run (Ok s)"
| "bfc_loop t (batch # batches) ranges blocks s =
     bind_run (bfc_batch t batch (next_answer ranges) blocks s) (\<lambda>(s', blocks').
       bfc_loop t batches (tl ranges) blocks' s')"

definition bfc_goodbye :: "tracer \<Rightarrow> bf_channel \<Rightarrow> (unit, world) stepper" where
  "bfc_goodbye t ch = bind_run (on_io (request (BfWire ClientDone))) (\<lambda>_. case bch_done ch of
     Some e \<Rightarrow> quietly (emit t (phase_error_event bfc_protocol ''send_done'' e []))
   | None \<Rightarrow> on_io (emit t bfc_done_event))"

definition run_block_fetch :: "tracer \<Rightarrow> bf_channel \<Rightarrow> point list \<Rightarrow> usize \<Rightarrow> (bfc_summary, world) stepper" where
  "run_block_fetch t ch points batch_size =
     bind_run (on_io (emit t (bfc_started_event (length points) (effective_batch batch_size)))) (\<lambda>_.
     bind_run (bfc_loop t (chunks (effective_batch batch_size) points) (bch_range ch) (bch_block ch) bfc_start) (\<lambda>s.
     bind_run (bfc_goodbye t ch) (\<lambda>_. bfc_summarise t s ''completed'')))"

section \<open>Capture\<close>

text \<open>The fixture record of a captured block, as \<open>runner.rs\<close> writes it.\<close>

definition entry_of_captured_block :: "captured_block \<Rightarrow> block_fixture_entry" where
  "entry_of_captured_block c = \<lparr>be_slot = cb_slot c, be_block_hash = encode_hex (cb_block_hash c),
     be_block_cbor_hex = encode_hex (cb_cbor c)\<rparr>"

section \<open>What a session writes\<close>

lemma sess_bfc_summarise: "run_keeps session_extends (bfc_summarise t s reason)"
  unfolding bfc_summarise_def bfc_build_summary_def by (intro client_rules)

lemma sess_bfc_fail: "run_keeps session_extends (bfc_fail t phase e s)"
  unfolding bfc_fail_def by (intro client_rules sess_bfc_summarise)

lemma sess_block_fetch: "run_keeps session_extends (run_block_fetch t ch points batch_size)"
proof -
  have stream: "run_keeps session_extends (bfc_stream t cp rs n s)" for cp rs n s
    by (induction t cp rs n s rule: bfc_stream.induct) (auto intro!: client_rules sess_bfc_fail)
  have batch: "run_keeps session_extends (bfc_batch t b a bs s)" for b a bs s
    unfolding bfc_batch_def Let_def by (intro client_rules stream sess_bfc_fail)
  have loop: "run_keeps session_extends (bfc_loop t bs rs blocks s)" for bs rs blocks s
    by (induction bs arbitrary: rs blocks s) (auto intro!: client_rules batch)
  show ?thesis
    unfolding run_block_fetch_def bfc_goodbye_def
    by (intro client_rules loop sess_bfc_summarise sess_request)
qed

end
