(* ===== verification/LeiosClients.thy ===== *)
theory LeiosClients
  imports Client
begin

text \<open>
  The Leios clients: notifications on request (\<open>miniprotocols/leios_notify.rs\<close>) and blocks by
  their points (\<open>miniprotocols/leios_fetch.rs\<close>).
\<close>

section \<open>Notifications\<close>

definition lnc_protocol :: string where
  "lnc_protocol = ''leios-notify''"

record lnc_session =
  lnc_events :: u64
  lnc_announcements :: u64
  lnc_offers :: u64
  lnc_txs_offers :: u64
  lnc_votes :: u64

record lnc_summary =
  lncs_events_received :: u64
  lncs_block_announcements :: u64
  lncs_block_offers :: u64
  lncs_block_txs_offers :: u64
  lncs_vote_messages :: u64
  lncs_exit_reason :: string
  lncs_duration_ms :: u64

definition lnc_start :: lnc_session where
  "lnc_start = \<lparr>lnc_events = 0, lnc_announcements = 0, lnc_offers = 0, lnc_txs_offers = 0, lnc_votes = 0\<rparr>"

fun lnc_count :: "ln_event \<Rightarrow> lnc_session \<Rightarrow> lnc_session" where
  "lnc_count (LnBlockAnnouncement header) s = s\<lparr>lnc_announcements := lnc_announcements s + 1\<rparr>"
| "lnc_count (LnBlockOffer point eb_size) s = s\<lparr>lnc_offers := lnc_offers s + 1\<rparr>"
| "lnc_count (LnBlockTxsOffer point) s = s\<lparr>lnc_txs_offers := lnc_txs_offers s + 1\<rparr>"
| "lnc_count (LnVotes votes) s = s\<lparr>lnc_votes := lnc_votes s + 1\<rparr>"

fun lnc_event :: "ln_event \<Rightarrow> trace_event" where
  "lnc_event (LnBlockAnnouncement header) = with_protocol lnc_protocol
     (new_event LeiosNotifyBlockAnnouncement Received (jobj [(''header_len'', jlen (length header))]))"
| "lnc_event (LnBlockOffer point eb_size) = with_protocol lnc_protocol
     (new_event LeiosNotifyBlockOffer Received (jobj [(''point'', format_nc_point point), (''eb_size'', jnum (ucast eb_size))]))"
| "lnc_event (LnBlockTxsOffer point) = with_protocol lnc_protocol
     (new_event LeiosNotifyBlockTxsOffer Received (jobj [(''point'', format_nc_point point)]))"
| "lnc_event (LnVotes votes) = with_protocol lnc_protocol
     (new_event LeiosNotifyVotes Received (jobj [(''vote_count'', jlen (length votes))]))"

definition lnc_started_event :: "u64 \<Rightarrow> trace_event" where
  "lnc_started_event count = with_protocol lnc_protocol (new_event LeiosNotifyStarted Internal (jobj
     [(''target_events'', jnum count)]))"

definition lnc_done_event :: trace_event where
  "lnc_done_event = with_protocol lnc_protocol (new_event LeiosNotifyDone Sent (jobj []))"

definition lnc_summary_event :: "lnc_summary \<Rightarrow> trace_event" where
  "lnc_summary_event s = with_protocol lnc_protocol (new_event LeiosNotifySessionSummary Internal (jobj
     [(''events_received'', jnum (lncs_events_received s)), (''block_announcements'', jnum (lncs_block_announcements s)),
      (''block_offers'', jnum (lncs_block_offers s)), (''block_txs_offers'', jnum (lncs_block_txs_offers s)),
      (''vote_messages'', jnum (lncs_vote_messages s)), (''exit_reason'', JString (lncs_exit_reason s)),
      (''duration_ms'', jnum (lncs_duration_ms s))]))"

definition lnc_build_summary :: "lnc_session \<Rightarrow> string \<Rightarrow> lnc_summary io" where
  "lnc_build_summary s reason = try_io elapsed_ms (\<lambda>duration. ret
     \<lparr>lncs_events_received = lnc_events s, lncs_block_announcements = lnc_announcements s,
       lncs_block_offers = lnc_offers s, lncs_block_txs_offers = lnc_txs_offers s, lncs_vote_messages = lnc_votes s,
       lncs_exit_reason = reason, lncs_duration_ms = duration\<rparr>)"

definition lnc_summarise :: "tracer \<Rightarrow> lnc_session \<Rightarrow> string \<Rightarrow> (lnc_summary, world) stepper" where
  "lnc_summarise t s reason = bind_run (on_io (lnc_build_summary s reason)) (\<lambda>summary.
     bind_run (quietly (emit t (lnc_summary_event summary))) (\<lambda>_. res_run (Ok summary)))"

definition lnc_ask :: "tracer \<Rightarrow> u64 \<Rightarrow> (string + ln_event) option \<Rightarrow> lnc_session
    \<Rightarrow> (lnc_session + lnc_summary, world) stepper" where
  "lnc_ask t secs answer s =
     bind_run (timed_call secs (LnWire MsgLeiosNotificationRequestNext) answer) (\<lambda>result. case result of
       None \<Rightarrow> bind_run (lnc_summarise t s ''await_timeout'') (\<lambda>summary. res_run (Ok (Inr summary)))
     | Some (Inl e) \<Rightarrow>
         bind_run (quietly (emit t (phase_error_event lnc_protocol ''request_next'' e []))) (\<lambda>_.
         bind_run (lnc_summarise t s ''error'') (\<lambda>_. fails (''leios_notify request_next failed: '' @ e)))
     | Some (Inr ev) \<Rightarrow> bind_run (on_io (emit t (lnc_event ev))) (\<lambda>_.
         res_run (Ok (Inl (lnc_count ev (s\<lparr>lnc_events := lnc_events s + 1\<rparr>))))))"

fun lnc_loop :: "tracer \<Rightarrow> u64 \<Rightarrow> u64 \<Rightarrow> (string + ln_event) list \<Rightarrow> lnc_session
    \<Rightarrow> (lnc_session + lnc_summary, world) stepper" where
  "lnc_loop t count secs [] s =
     (if lnc_events s < count then lnc_ask t secs None s else res_run (Ok (Inl s)))"
| "lnc_loop t count secs (r # rs) s =
     (if lnc_events s < count then
        bind_run (lnc_ask t secs (Some r) s) (\<lambda>x. case x of
          Inl s' \<Rightarrow> lnc_loop t count secs rs s'
        | Inr summary \<Rightarrow> res_run (Ok (Inr summary)))
      else res_run (Ok (Inl s)))"

text \<open>A goodbye that fails is only logged.\<close>

definition lnc_goodbye :: "tracer \<Rightarrow> ln_channel \<Rightarrow> (unit, world) stepper" where
  "lnc_goodbye t ch = bind_run (on_io (request (LnWire LnMsgDone))) (\<lambda>_. case nch_done ch of
     Some e \<Rightarrow> res_run (Ok ())
   | None \<Rightarrow> quietly (emit t lnc_done_event))"

definition run_leios_notify :: "tracer \<Rightarrow> ln_channel \<Rightarrow> u64 \<Rightarrow> u64 \<Rightarrow> (lnc_summary, world) stepper" where
  "run_leios_notify t ch count await_secs =
     bind_run (on_io (emit t (lnc_started_event count))) (\<lambda>_.
     bind_run (lnc_loop t count await_secs (nch_next ch) lnc_start) (\<lambda>x. case x of
       Inr summary \<Rightarrow> res_run (Ok summary)
     | Inl s \<Rightarrow> bind_run (lnc_goodbye t ch) (\<lambda>_. lnc_summarise t s ''completed'')))"

section \<open>Blocks\<close>

definition lfc_protocol :: string where
  "lfc_protocol = ''leios-fetch''"

record lfc_session =
  lfc_requested :: u64
  lfc_received :: u64

record lfc_summary =
  lfcs_blocks_requested :: u64
  lfcs_blocks_received :: u64
  lfcs_exit_reason :: string
  lfcs_duration_ms :: u64

definition lfc_start :: lfc_session where
  "lfc_start = \<lparr>lfc_requested = 0, lfc_received = 0\<rparr>"

definition lfc_started_event :: "usize \<Rightarrow> trace_event" where
  "lfc_started_event n = with_protocol lfc_protocol (new_event LeiosFetchStarted Internal (jobj
     [(''target_blocks'', jlen n)]))"

definition lfc_request_event :: "nc_point \<Rightarrow> trace_event" where
  "lfc_request_event p = with_protocol lfc_protocol (new_event LeiosFetchBlockRequest Sent (jobj
     [(''point'', format_nc_point p)]))"

definition lfc_block_event :: "nc_point \<Rightarrow> bytes \<Rightarrow> trace_event" where
  "lfc_block_event p block = with_protocol lfc_protocol (new_event LeiosFetchBlock Received (jobj
     [(''point'', format_nc_point p), (''block_len'', jlen (length block))]))"

definition lfc_done_event :: trace_event where
  "lfc_done_event = with_protocol lfc_protocol (new_event LeiosFetchDone Sent (jobj []))"

definition lfc_summary_event :: "lfc_summary \<Rightarrow> trace_event" where
  "lfc_summary_event s = with_protocol lfc_protocol (new_event LeiosFetchSessionSummary Internal (jobj
     [(''blocks_requested'', jnum (lfcs_blocks_requested s)), (''blocks_received'', jnum (lfcs_blocks_received s)),
      (''exit_reason'', JString (lfcs_exit_reason s)), (''duration_ms'', jnum (lfcs_duration_ms s))]))"

definition lfc_build_summary :: "lfc_session \<Rightarrow> string \<Rightarrow> lfc_summary io" where
  "lfc_build_summary s reason = try_io elapsed_ms (\<lambda>duration. ret
     \<lparr>lfcs_blocks_requested = lfc_requested s, lfcs_blocks_received = lfc_received s,
       lfcs_exit_reason = reason, lfcs_duration_ms = duration\<rparr>)"

definition lfc_summarise :: "tracer \<Rightarrow> lfc_session \<Rightarrow> string \<Rightarrow> (lfc_summary, world) stepper" where
  "lfc_summarise t s reason = bind_run (on_io (lfc_build_summary s reason)) (\<lambda>summary.
     bind_run (quietly (emit t (lfc_summary_event summary))) (\<lambda>_. res_run (Ok summary)))"

definition lfc_fetch :: "tracer \<Rightarrow> nc_point \<Rightarrow> (string + bytes) option \<Rightarrow> lfc_session \<Rightarrow> (lfc_session, world) stepper" where
  "lfc_fetch t p answer s0 =
     bind_run (on_io (emit t (lfc_request_event p))) (\<lambda>_.
     let s = s0\<lparr>lfc_requested := lfc_requested s0 + 1\<rparr> in
     bind_run (call (LfWire (MsgLeiosBlockRequest p)) answer) (\<lambda>result. case result of
       Inr block \<Rightarrow> bind_run (on_io (emit t (lfc_block_event p block))) (\<lambda>_.
         res_run (Ok (s\<lparr>lfc_received := lfc_received s + 1\<rparr>)))
     | Inl e \<Rightarrow> bind_run (quietly (emit t (phase_error_event lfc_protocol ''fetch_block'' e
           [(''point'', format_nc_point p)]))) (\<lambda>_.
         bind_run (lfc_summarise t s ''error'') (\<lambda>_. fails (''leios_fetch fetch_block failed: '' @ e)))))"

fun lfc_loop :: "tracer \<Rightarrow> nc_point list \<Rightarrow> (string + bytes) list \<Rightarrow> lfc_session \<Rightarrow> (lfc_session, world) stepper" where
  "lfc_loop t [] answers s = res_run (Ok s)"
| "lfc_loop t (p # ps) answers s =
     bind_run (lfc_fetch t p (next_answer answers) s) (\<lambda>s'. lfc_loop t ps (tl answers) s')"

definition lfc_goodbye :: "tracer \<Rightarrow> lf_channel \<Rightarrow> (unit, world) stepper" where
  "lfc_goodbye t ch = bind_run (on_io (request (LfWire LfMsgDone))) (\<lambda>_. case fch_done ch of
     Some e \<Rightarrow> res_run (Ok ())
   | None \<Rightarrow> quietly (emit t lfc_done_event))"

definition run_leios_fetch :: "tracer \<Rightarrow> lf_channel \<Rightarrow> nc_point list \<Rightarrow> (lfc_summary, world) stepper" where
  "run_leios_fetch t ch points =
     bind_run (on_io (emit t (lfc_started_event (length points)))) (\<lambda>_.
     bind_run (lfc_loop t points (fch_fetch ch) lfc_start) (\<lambda>s.
     bind_run (lfc_goodbye t ch) (\<lambda>_. lfc_summarise t s ''completed'')))"

section \<open>What the sessions write\<close>

lemma sess_lnc_summarise: "run_keeps session_extends (lnc_summarise t s reason)"
  unfolding lnc_summarise_def lnc_build_summary_def by (intro client_rules)

lemma sess_lfc_summarise: "run_keeps session_extends (lfc_summarise t s reason)"
  unfolding lfc_summarise_def lfc_build_summary_def by (intro client_rules)

lemma sess_leios_notify: "run_keeps session_extends (run_leios_notify t ch count secs)"
proof -
  have ask: "run_keeps session_extends (lnc_ask t secs a s)" for a s
    unfolding lnc_ask_def by (intro client_rules sess_lnc_summarise)
  have loop: "run_keeps session_extends (lnc_loop t count secs rs s)" for rs s
    by (induction rs arbitrary: s) (auto intro!: client_rules ask)
  show ?thesis
    unfolding run_leios_notify_def lnc_goodbye_def
    by (intro client_rules loop sess_lnc_summarise sess_request)
qed

lemma sess_leios_fetch: "run_keeps session_extends (run_leios_fetch t ch points)"
proof -
  have fetch: "run_keeps session_extends (lfc_fetch t p a s)" for p a s
    unfolding lfc_fetch_def Let_def by (intro client_rules sess_lfc_summarise)
  have loop: "run_keeps session_extends (lfc_loop t ps rs s)" for ps rs s
    by (induction ps arbitrary: rs s) (auto intro!: client_rules fetch)
  show ?thesis
    unfolding run_leios_fetch_def lfc_goodbye_def
    by (intro client_rules loop sess_lfc_summarise sess_request)
qed

end
