(* ===== verification/ClientSteps.thy ===== *)
theory ClientSteps
  imports RunLoop ChainSyncClient BlockFetchClient LeiosClients
begin

text \<open>
  The steps on connections (\<open>scenario/runner.rs\<close>): connecting and the handshake, the client
  sessions with their captures, \<open>query_tip\<close>, listening and accepting.
\<close>

section \<open>Connections\<close>

text \<open>\<open>CheckedOut\<close> on an outgoing connection, around code that may not return.\<close>

type_synonym 'a conn_run = "('a, client_connection \<times> runner \<times> world) stepper"

definition checked_out_client :: "string \<Rightarrow> 'a conn_run \<Rightarrow> 'a run" where
  "checked_out_client name m s = (case s of (rn, w) \<Rightarrow>
     (case map_of (rn_connections rn) name of
        None \<Rightarrow> Some (anyhow (''connection '' @ quoted name
          @ '' not found (missing connect/accept_handshake, or already in use by another branch)''), s)
      | Some c \<Rightarrow> (case m (c, rn\<lparr>rn_connections := AList.delete name (rn_connections rn)\<rparr>, w) of
          None \<Rightarrow> None
        | Some (r, c', rn', w') \<Rightarrow>
            Some (r, rn'\<lparr>rn_connections := AList.update name c' (rn_connections rn')\<rparr>, w'))))"

definition on_conn :: "(client_connection \<Rightarrow> 'a res \<times> client_connection) \<Rightarrow> 'a conn_run" where
  "on_conn f s = (case s of (c, rn, w) \<Rightarrow> (case f c of (r, c') \<Rightarrow> Some (r, c', rn, w)))"

definition on_runner :: "'a run \<Rightarrow> 'a conn_run" where
  "on_runner m s = (case s of (c, rn, w) \<Rightarrow> (case m (rn, w) of
     None \<Rightarrow> None | Some (r, rn', w') \<Rightarrow> Some (r, c, rn', w')))"

definition on_world :: "('a, world) stepper \<Rightarrow> 'a conn_run" where
  "on_world m s = (case s of (c, rn, w) \<Rightarrow> (case m w of
     None \<Rightarrow> None | Some (r, w') \<Rightarrow> Some (r, c, rn, w')))"

text \<open>\<open>conn.xs_channels.take().ok_or_else(..)\<close>\<close>

definition take_channel :: "string \<Rightarrow> (client_connection \<Rightarrow> 'a option) \<Rightarrow> (client_connection \<Rightarrow> client_connection) \<Rightarrow> 'a conn_run" where
  "take_channel msg channel taken = on_conn (\<lambda>c. case channel c of
     None \<Rightarrow> (anyhow msg, c) | Some ch \<Rightarrow> (Ok ch, taken c))"

definition peer_tracer :: "tracer \<Rightarrow> tracer conn_run" where
  "peer_tracer t = on_conn (\<lambda>c. (Ok (for_peer_opt t (cl_peer_id c)), c))"

definition conn_on :: "step_def \<Rightarrow> string" where
  "conn_on step = name_or_default (sd_on_name step)"

definition conn_as :: "step_def \<Rightarrow> string" where
  "conn_as step = name_or_default (sd_as_name step)"

definition modify_runner :: "(runner \<Rightarrow> runner) \<Rightarrow> unit run" where
  "modify_runner f s = (case s of (rn, w) \<Rightarrow> Some (Ok (), f rn, w))"

section \<open>Connecting\<close>

definition new_connection :: "peer_link \<Rightarrow> string option \<Rightarrow> client_connection" where
  "new_connection l pid = \<lparr>cl_hs_channels = Some (pl_hs l), cl_cs_channels = Some (pl_cs l),
     cl_bf_channels = Some (pl_bf l), cl_ka_channels = Some (pl_ka l), cl_ts_channels = Some (pl_ts l),
     cl_ln_channels = Some (pl_ln l), cl_lf_channels = Some (pl_lf l), cl_ka_handle = False, cl_ts_handle = False,
     cl_negotiated_version = None, cl_last_chain_sync_points = [], cl_peer_id = pid\<rparr>"

definition open_link :: "env \<Rightarrow> string \<Rightarrow> string \<Rightarrow> string \<Rightarrow> string \<Rightarrow> peer_link run" where
  "open_link e not_resolved no_address not_connected addr s = (case s of (rn, w) \<Rightarrow>
     Some (open_bearer not_resolved no_address not_connected (resolve_address e) (dial e (rn_dials rn)) addr,
       rn\<lparr>rn_dials := Suc (rn_dials rn)\<rparr>, w))"

definition connect :: "env \<Rightarrow> tracer \<Rightarrow> string \<Rightarrow> step_def \<Rightarrow> step_params \<Rightarrow> unit run" where
  "connect e t target_address step params =
     (let name = conn_as step;
          addr = (case sp_target_address params of Some a \<Rightarrow> a | None \<Rightarrow> target_address) in
      bind_run (open_link e ''failed to resolve '' ''no address resolved for '' ''failed to connect to '' addr) (\<lambda>link.
      bind_run (do_emit t (with_connection name (connection_opened_event addr))) (\<lambda>_.
      modify_runner (\<lambda>rn. rn\<lparr>rn_connections := AList.update name (new_connection link (sp_peer_id params)) (rn_connections rn)\<rparr>))))"

text \<open>The workers start only after the negotiation; each takes its channel.\<close>

definition start_workers :: "u64 \<Rightarrow> string list conn_run" where
  "start_workers version = on_conn (\<lambda>c.
     (Ok ((if cl_ka_channels c = None then [] else [''keep-alive'']) @
          (if cl_ts_channels c = None then [] else [''tx-submission''])),
      c\<lparr>cl_negotiated_version := Some version,
        cl_ka_handle := cl_ka_handle c \<or> cl_ka_channels c \<noteq> None, cl_ts_handle := cl_ts_handle c \<or> cl_ts_channels c \<noteq> None,
        cl_ka_channels := None, cl_ts_channels := None\<rparr>))"

definition workers_event :: "string \<Rightarrow> string list \<Rightarrow> trace_event" where
  "workers_event name protocols = with_connection name (new_event ProtocolWorkersStarted Internal (jobj
     [(''protocols'', JArray (map JString protocols))]))"

definition handshake_step :: "env \<Rightarrow> tracer \<Rightarrow> u64 \<Rightarrow> step_def \<Rightarrow> unit run" where
  "handshake_step e t network_magic step = checked_out_client (conn_on step) (
     bind_run (take_channel ''handshake: no channels (already used?)'' cl_hs_channels (\<lambda>c. c\<lparr>cl_hs_channels := None\<rparr>)) (\<lambda>ch.
     bind_run (peer_tracer t) (\<lambda>eff_trc.
     bind_run (on_world (handshake_on_channels eff_trc (version_keys e network_magic) ch network_magic)) (\<lambda>version.
     bind_run (start_workers version) (\<lambda>spawned.
     on_runner (do_emit t (workers_event (conn_on step) spawned)))))))"

section \<open>Query-tip\<close>

fun tip_value :: "tip \<Rightarrow> json" where
  "tip_value (Tip p n) = jobj [(''point'', JString (point_to_str p)), (''block_number'', jnum n)]"

definition tip_of_answer :: "string + (nc_point \<times> nc_tip) option \<Rightarrow> tip res" where
  "tip_of_answer answer = (case answer of
     Inr (Some (_, NcTip p n)) \<Rightarrow> Ok (Tip (from_nc_point p) n)
   | Inr None \<Rightarrow> Ok (Tip Origin 0)
   | Inl err \<Rightarrow> anyhow (''query_tip: find_intersect failed: '' @ err))"

definition context_run :: "string \<Rightarrow> ('a, 's) stepper \<Rightarrow> ('a, 's) stepper" where
  "context_run msg m s = (case m s of None \<Rightarrow> None | Some (r, s') \<Rightarrow> Some (with_context msg r, s'))"

definition world_run :: "('a, world) stepper \<Rightarrow> 'a run" where
  "world_run m s = (case s of (rn, w) \<Rightarrow> (case m w of None \<Rightarrow> None | Some (r, w') \<Rightarrow> Some (r, rn, w')))"

definition fetch_tip :: "env \<Rightarrow> tracer \<Rightarrow> string \<Rightarrow> u64 \<Rightarrow> tip run" where
  "fetch_tip e t target_address network_magic =
     bind_run (open_link e ''query_tip: failed to resolve '' ''query_tip: no address for '' ''query_tip: failed to connect to ''
       target_address) (\<lambda>link.
     bind_run (world_run (context_run ''query_tip: handshake failed''
       (handshake_on_channels t (version_keys e network_magic) (pl_hs link) network_magic))) (\<lambda>_.
     bind_run (world_run (call (CsWire (FindIntersect [Origin])) (ch_find (pl_cs link)))) (\<lambda>answer.
     bind_run (res_run (tip_of_answer answer)) (\<lambda>tip.
     bind_run (world_run (on_io (request (CsWire ChainSyncDoneMsg)))) (\<lambda>_. res_run (Ok tip))))))"

definition variable_set_event :: "string \<Rightarrow> string \<Rightarrow> trace_event" where
  "variable_set_event name shape = new_event VariableSet Internal (jobj
     [(''name'', JString name), (''shape'', JString shape)])"

text \<open>The \<open>output\<close> of a step\<close>

definition store_output :: "tracer \<Rightarrow> step_def \<Rightarrow> json \<Rightarrow> string \<Rightarrow> unit run" where
  "store_output t step v shape = (case sd_output step of
     None \<Rightarrow> res_run (Ok ())
   | Some name \<Rightarrow> bind_run (modify_runner (\<lambda>rn. rn\<lparr>rn_vars := (rn_vars rn)(name \<mapsto> v)\<rparr>)) (\<lambda>_.
       do_emit t (variable_set_event name shape)))"

definition query_tip :: "env \<Rightarrow> tracer \<Rightarrow> string \<Rightarrow> u64 \<Rightarrow> step_def \<Rightarrow> unit run" where
  "query_tip e t target_address network_magic step =
     bind_run (do_emit t (with_connection (conn_on step) (new_event QueryTipStarted Internal (jobj [])))) (\<lambda>_.
     bind_run (fetch_tip e t target_address network_magic) (\<lambda>tip.
     let tip_val = tip_value tip in
     bind_run (do_emit t (with_connection (conn_on step) (new_event QueryTipCompleted Internal (jobj [(''tip'', tip_val)])))) (\<lambda>_.
     store_output t step tip_val ''tip{point,block_number}'')))"

section \<open>Captures\<close>

text \<open>Opening a file for writing may fail; a line is then written whole.\<close>

definition write_file :: "env \<Rightarrow> string \<Rightarrow> string \<Rightarrow> (string list \<Rightarrow> string list) \<Rightarrow> unit run" where
  "write_file e msg path f s = (case s of (rn, w) \<Rightarrow> (case write_error e path of
     Some err \<Rightarrow> Some (with_context (msg @ path) (anyhow err), s)
   | None \<Rightarrow> Some (Ok (), rn\<lparr>rn_files := (rn_files rn)(path \<mapsto>
       f (case file_lines e rn path of Some ls \<Rightarrow> ls | None \<Rightarrow> []))\<rparr>, w)))"

fun append_all :: "env \<Rightarrow> string \<Rightarrow> string \<Rightarrow> ('a \<Rightarrow> string list \<Rightarrow> string list) \<Rightarrow> 'a list \<Rightarrow> unit run" where
  "append_all e msg path f [] = res_run (Ok ())"
| "append_all e msg path f (x # xs) =
     bind_run (write_file e msg path (f x)) (\<lambda>_. append_all e msg path f xs)"

text \<open>The anchor is written before the first capture of the run: the flag is loaded, and stored after
  the write.\<close>

definition capture_headers :: "env \<Rightarrow> captured_header list \<Rightarrow> unit run" where
  "capture_headers e hs =
     bind_run (asks rn_capture_fixture_path) (\<lambda>cap_path. case cap_path of
       None \<Rightarrow> res_run (Ok ())
     | Some path \<Rightarrow>
         if hs = [] then res_run (Ok ())
         else
           bind_run (asks rn_fixture_anchor_written) (\<lambda>written.
           bind_run (if written then res_run (Ok ()) else
             bind_run (write_file e ''creating fixture file '' path (write_anchor (render_json e) Origin)) (\<lambda>_.
             modify_runner (\<lambda>rn. rn\<lparr>rn_fixture_anchor_written := True\<rparr>))) (\<lambda>_.
           append_all e ''opening fixture file for append: '' path (append_entry (render_json e)) (map entry_of_capture hs))))"

definition capture_blocks :: "env \<Rightarrow> captured_block list \<Rightarrow> unit run" where
  "capture_blocks e bs =
     bind_run (asks rn_capture_block_fixture_path) (\<lambda>cap_path. case cap_path of
       None \<Rightarrow> res_run (Ok ())
     | Some path \<Rightarrow>
         if bs = [] then res_run (Ok ())
         else
           bind_run (asks rn_block_fixture_anchor_written) (\<lambda>written.
           bind_run (if written then res_run (Ok ()) else
             bind_run (write_file e ''creating block fixture '' path block_write_anchor) (\<lambda>_.
             modify_runner (\<lambda>rn. rn\<lparr>rn_block_fixture_anchor_written := True\<rparr>))) (\<lambda>_.
           append_all e ''appending to block fixture '' path (block_append_entry (render_json e)) (map entry_of_captured_block bs))))"

section \<open>Client sessions\<close>

definition parse_points :: "string list \<Rightarrow> point list res" where
  "parse_points ss = mapM_res parse_point ss"

definition or_else :: "'a option \<Rightarrow> 'a \<Rightarrow> 'a" where
  "or_else v d = (case v of Some x \<Rightarrow> x | None \<Rightarrow> d)"

definition points_value :: "point list \<Rightarrow> json" where
  "points_value ps = JArray (map (\<lambda>p. JString (point_to_str p)) ps)"

definition chain_sync_step :: "env \<Rightarrow> tracer \<Rightarrow> step_def \<Rightarrow> step_params \<Rightarrow> unit run" where
  "chain_sync_step e t step params = checked_out_client (conn_on step) (
     bind_run (take_channel ''chain_sync: no channels (already used?)'' cl_cs_channels (\<lambda>c. c\<lparr>cl_cs_channels := None\<rparr>)) (\<lambda>ch.
     bind_run (res_run (parse_points (or_else (sp_intersection_points params) [''origin'']))) (\<lambda>points.
     bind_run (peer_tracer t) (\<lambda>eff_trc.
     bind_run (on_world (run_chain_sync eff_trc ch points (or_else (sp_count params) 10)
       (or_else (sp_await_timeout_secs params) 30))) (\<lambda>summary.
     let collected = ccs_collected_points summary in
     bind_run (on_conn (\<lambda>c. (Ok (), c\<lparr>cl_last_chain_sync_points := collected\<rparr>))) (\<lambda>_.
     bind_run (on_runner (store_output t step (points_value collected)
       (''array['' @ nat_to_string (length collected) @ '']''))) (\<lambda>_.
     on_runner (capture_headers e (ccs_captured_headers summary)))))))))"

text \<open>\<open>from_chain_sync\<close> takes the points of the last session, and takes them away.\<close>

definition block_fetch_points_of :: "step_def \<Rightarrow> step_params \<Rightarrow> point list conn_run" where
  "block_fetch_points_of step params = (case or_else (sp_points params) FromChainSync of
     FromChainSync \<Rightarrow> on_conn (\<lambda>c.
       if cl_last_chain_sync_points c = [] then
         (anyhow (''block_fetch: from_chain_sync but no chain_sync points on connection '' @ quoted (conn_on step)), c)
       else (Ok (cl_last_chain_sync_points c), c\<lparr>cl_last_chain_sync_points := []\<rparr>))
   | ExplicitPoints ss \<Rightarrow> res_run (parse_points ss))"

definition block_fetch_step :: "env \<Rightarrow> tracer \<Rightarrow> step_def \<Rightarrow> step_params \<Rightarrow> unit run" where
  "block_fetch_step e t step params = checked_out_client (conn_on step) (
     bind_run (take_channel ''block_fetch: no channels (already used?)'' cl_bf_channels (\<lambda>c. c\<lparr>cl_bf_channels := None\<rparr>)) (\<lambda>ch.
     bind_run (block_fetch_points_of step params) (\<lambda>points.
     bind_run (peer_tracer t) (\<lambda>eff_trc.
     bind_run (on_world (run_block_fetch eff_trc ch points (or_else (sp_batch_size params) 1))) (\<lambda>summary.
     on_runner (capture_blocks e (bcs_captured_blocks summary)))))))"

definition leios_notify_step :: "tracer \<Rightarrow> step_def \<Rightarrow> step_params \<Rightarrow> unit run" where
  "leios_notify_step t step params = checked_out_client (conn_on step) (
     bind_run (take_channel ''leios_notify: no channels (already used?)'' cl_ln_channels (\<lambda>c. c\<lparr>cl_ln_channels := None\<rparr>)) (\<lambda>ch.
     bind_run (peer_tracer t) (\<lambda>eff_trc.
     bind_run (on_world (run_leios_notify eff_trc ch (or_else (sp_count params) 5)
       (or_else (sp_await_timeout_secs params) 30))) (\<lambda>_. res_run (Ok ())))))"

definition leios_fetch_points :: "step_params \<Rightarrow> nc_point list res" where
  "leios_fetch_points params =
     try_res (ok_or ''leios_fetch: points is required'' (sp_points params)) (\<lambda>ps. case ps of
       FromChainSync \<Rightarrow> anyhow (''leios_fetch: points = '' @ quoted ''from_chain_sync''
         @ '' is not supported; use an explicit array or a $varname reference'')
     | ExplicitPoints ss \<Rightarrow> mapM_res (\<lambda>s. try_res (parse_point s) (\<lambda>p. Ok (to_nc_point p))) ss)"

definition leios_fetch_step :: "tracer \<Rightarrow> step_def \<Rightarrow> step_params \<Rightarrow> unit run" where
  "leios_fetch_step t step params = checked_out_client (conn_on step) (
     bind_run (take_channel ''leios_fetch: no channels (already used?)'' cl_lf_channels (\<lambda>c. c\<lparr>cl_lf_channels := None\<rparr>)) (\<lambda>ch.
     bind_run (res_run (leios_fetch_points params)) (\<lambda>points.
     bind_run (peer_tracer t) (\<lambda>eff_trc.
     bind_run (on_world (run_leios_fetch eff_trc ch points)) (\<lambda>_. res_run (Ok ()))))))"

section \<open>Listening and accepting\<close>

definition listen :: "env \<Rightarrow> tracer \<Rightarrow> step_def \<Rightarrow> step_params \<Rightarrow> unit run" where
  "listen e t step params =
     (let addr = or_else (sp_bind_address params) ''0.0.0.0:3001'' in
      bind_run (res_run (with_context (''listen: failed to bind '' @ addr)
        (case bind_address e addr of Some err \<Rightarrow> anyhow err | None \<Rightarrow> Ok ()))) (\<lambda>_.
      bind_run (do_emit t (new_event ServerListenStarted Internal (jobj [(''bind_address'', JString addr)]))) (\<lambda>_.
      modify_runner (\<lambda>rn. rn\<lparr>rn_listeners := insert (conn_as step) (rn_listeners rn)\<rparr>))))"

definition accept_link :: "env \<Rightarrow> accepted_link run" where
  "accept_link e s = (case s of (rn, w) \<Rightarrow> (case accept e (rn_accepts rn) of
     None \<Rightarrow> None
   | Some (Inl err) \<Rightarrow> Some (with_context ''accept_handshake: TcpBearer::accept failed'' (anyhow err),
       rn\<lparr>rn_accepts := Suc (rn_accepts rn)\<rparr>, w)
   | Some (Inr link) \<Rightarrow> Some (Ok link, rn\<lparr>rn_accepts := Suc (rn_accepts rn)\<rparr>, w)))"

definition bearer_accepted_event :: "string \<Rightarrow> accepted_link \<Rightarrow> trace_event" where
  "bearer_accepted_event name l = with_connection name (new_event ServerBearerAccepted Internal (jobj
     [(''peer_address'', JString (al_address l))]))"

text \<open>The versions that the peer offered, none if no proposal arrived, with the magic of the scenario.\<close>

definition offered_event :: "string \<Rightarrow> u64 \<Rightarrow> accepted_link \<Rightarrow> trace_event" where
  "offered_event name magic l = with_connection name (new_event HandshakeVersionProposed Received (jobj
     [(''versions'', JArray (map jnum (sort (or_else (al_proposal l) [])))), (''magic'', jnum magic)]))"

definition server_accepted_event :: "string \<Rightarrow> u64 \<Rightarrow> trace_event" where
  "server_accepted_event name v = with_connection name (new_event HandshakeVersionAccepted Sent (jobj
     [(''version'', jnum v)]))"

definition server_handshake_event :: "string \<Rightarrow> accepted_link \<Rightarrow> u64 \<Rightarrow> trace_event" where
  "server_handshake_event name l v = with_connection name (new_event ServerHandshakeAccepted Internal (jobj
     [(''peer_address'', JString (al_address l)), (''negotiated_version'', jnum v)]))"

definition new_server_connection :: "accepted_link \<Rightarrow> string option \<Rightarrow> server_connection" where
  "new_server_connection l pid = \<lparr>sv_cs_channels = Some (al_cs l), sv_bf_channels = Some (al_bf l),
     sv_ts_channels = Some (al_ts l), sv_ln_channels = Some (al_ln l), sv_lf_channels = Some (al_lf l),
     sv_ka_handle = True, sv_peer_id = pid\<rparr>"

definition accept_handshake :: "env \<Rightarrow> tracer \<Rightarrow> u64 \<Rightarrow> step_def \<Rightarrow> step_params \<Rightarrow> unit run" where
  "accept_handshake e t network_magic step params =
     (let name = conn_as step in
      bind_run (asks rn_listeners) (\<lambda>listeners.
      if conn_on step \<notin> listeners then
        res_run (anyhow (''accept_handshake: listener '' @ quoted (conn_on step) @ '' not found''))
      else
        bind_run (accept_link e) (\<lambda>link.
        bind_run (do_emit t (bearer_accepted_event name link)) (\<lambda>_.
        bind_run (case al_handshake link of None \<Rightarrow> waits_for_ever | Some r \<Rightarrow> res_run (Ok r)) (\<lambda>hs_result.
        bind_run (do_emit t (offered_event name network_magic link)) (\<lambda>_.
        case hs_result of
          Inl err \<Rightarrow> res_run (anyhow (''accept_handshake: handshake failed: '' @ err))
        | Inr version \<Rightarrow>
            bind_run (do_emit t (server_accepted_event name version)) (\<lambda>_.
            bind_run (do_emit t (server_handshake_event name link version)) (\<lambda>_.
            bind_run (do_emit t (workers_event name [''keep-alive''])) (\<lambda>_.
            modify_runner (\<lambda>rn. rn\<lparr>rn_server_connections :=
              AList.update name (new_server_connection link (sp_peer_id params)) (rn_server_connections rn)\<rparr>))))))))))"

end
