(* ===== verification/ParallelStep.thy ===== *)
theory ParallelStep
  imports RunLoop
begin

text \<open>
  The \<open>parallel\<close> step (\<open>scenario/runner.rs\<close>): what it does before its branches run, what a branch
  does, and what it reports once they are over. How the branches' awaits interleave is up to the
  asynchronous runtime: \<open>sched\<close> runs them and says how each one ended. \<open>poll_in_order\<close> is the schedule in
  which no await ever suspends; theory \<open>Parallel\<close> has all of them.
\<close>

section \<open>Branches\<close>

text \<open>The flags of a branch when the join is over: \<open>completed\<close>, \<open>failed\<close>, or neither, with the index of
  the last step it reached.\<close>

datatype branch_end = BranchCompleted | BranchFailed | BranchDropped usize

definition branch_started_event :: "usize \<Rightarrow> trace_event" where
  "branch_started_event b = new_event ParallelBranchStarted Internal (jobj [(''branch'', jlen b)])"

definition branch_completed_event :: "usize \<Rightarrow> trace_event" where
  "branch_completed_event b = new_event ParallelBranchCompleted Internal (jobj [(''branch'', jlen b)])"

definition branch_failed_event :: "usize \<Rightarrow> usize \<Rightarrow> error \<Rightarrow> trace_event" where
  "branch_failed_event b si e = new_event ParallelBranchFailed Internal (jobj
     [(''branch'', jlen b), (''step'', jlen si), (''error'', JString (err_to_string e))])"

definition branch_aborted_event :: "usize \<Rightarrow> usize \<Rightarrow> trace_event" where
  "branch_aborted_event b last_step = new_event ParallelBranchAborted Internal (jobj
     [(''branch'', jlen b), (''last_step'', jlen last_step)])"

text \<open>A branch and the error it returns, if any. The flag \<open>completed\<close> is set before its event is
  written.\<close>

fun branch_steps_run :: "tracer \<Rightarrow> (step_def \<Rightarrow> usize \<Rightarrow> unit run) \<Rightarrow> usize \<Rightarrow> usize \<Rightarrow> step_def list \<Rightarrow> (branch_end \<times> error option) run" where
  "branch_steps_run t run1 b si [] =
     match_run (do_emit t (branch_completed_event b)) (\<lambda>r. res_run (Ok (BranchCompleted,
       case r of Inl e \<Rightarrow> Some e | Inr _ \<Rightarrow> None)))"
| "branch_steps_run t run1 b si (s # ss) =
     match_run (run1 s si) (\<lambda>r. case r of
       Inr _ \<Rightarrow> branch_steps_run t run1 b (Suc si) ss
     | Inl e \<Rightarrow> bind_run (try_emit t (branch_failed_event b si e)) (\<lambda>_. res_run (Ok (BranchFailed, Some e))))"

definition branch_run :: "tracer \<Rightarrow> (step_def \<Rightarrow> usize \<Rightarrow> unit run) \<Rightarrow> usize \<Rightarrow> step_def list \<Rightarrow> (branch_end \<times> error option) run" where
  "branch_run t run1 b steps =
     match_run (do_emit t (branch_started_event b)) (\<lambda>r. case r of
       Inl e \<Rightarrow> res_run (Ok (BranchDropped 0, Some e))
     | Inr _ \<Rightarrow> branch_steps_run t run1 b 0 steps)"

section \<open>Joining\<close>

type_synonym scheduler =
  "tracer \<Rightarrow> (step_def \<Rightarrow> usize \<Rightarrow> unit run) \<Rightarrow> step_def list list \<Rightarrow> (branch_end list \<times> error option) run"

text \<open>\<open>try_join_all\<close> polls its futures in order and stops at the first error; the later ones are
  dropped, here before their first poll.\<close>

fun poll_from :: "tracer \<Rightarrow> (step_def \<Rightarrow> usize \<Rightarrow> unit run) \<Rightarrow> usize \<Rightarrow> step_def list list \<Rightarrow> (branch_end list \<times> error option) run" where
  "poll_from t run1 b [] = res_run (Ok ([], None))"
| "poll_from t run1 b (steps # rest) =
     bind_run (branch_run t run1 b steps) (\<lambda>(x, err). case err of
       Some e \<Rightarrow> res_run (Ok (x # replicate (length rest) (BranchDropped 0), Some e))
     | None \<Rightarrow> bind_run (poll_from t run1 (Suc b) rest) (\<lambda>(xs, err'). res_run (Ok (x # xs, err'))))"

definition poll_in_order :: scheduler where
  "poll_in_order t run1 branches = poll_from t run1 0 branches"

definition parallel_started_event :: "usize \<Rightarrow> trace_event" where
  "parallel_started_event n = new_event ParallelStarted Internal (jobj [(''branch_count'', jlen n)])"

definition parallel_completed_event :: "bool \<Rightarrow> trace_event" where
  "parallel_completed_event ok = new_event ParallelCompleted Internal (jobj
     [(''outcome'', JString (if ok then ''ok'' else ''error''))])"

fun aborted_events :: "usize \<Rightarrow> branch_end list \<Rightarrow> trace_event list" where
  "aborted_events b [] = []"
| "aborted_events b (BranchDropped last_step # xs) = branch_aborted_event b last_step # aborted_events (Suc b) xs"
| "aborted_events b (x # xs) = aborted_events (Suc b) xs"

definition close_parallel :: "tracer \<Rightarrow> branch_end list \<Rightarrow> error option \<Rightarrow> unit run" where
  "close_parallel t ends err =
     bind_run (if err = None then res_run (Ok ()) else try_emit_all t (aborted_events 0 ends)) (\<lambda>_.
     bind_run (do_emit t (parallel_completed_event (err = None))) (\<lambda>_.
     res_run (case err of None \<Rightarrow> Ok () | Some e \<Rightarrow> Err e)))"

definition parallel_branches :: "step_def \<Rightarrow> step_def list list res" where
  "parallel_branches step =
     try_res (ok_or ''parallel step requires branches'' (json_get ''branches'' (sd_raw_params step))) (\<lambda>v.
       with_context ''parallel: invalid branches'' (branches_from_value v))"

definition parallel_step :: "scheduler \<Rightarrow> (step_def \<Rightarrow> usize \<Rightarrow> unit run) \<Rightarrow> tracer \<Rightarrow> step_def \<Rightarrow> unit run" where
  "parallel_step sched run1 t step =
     bind_run (res_run (parallel_branches step)) (\<lambda>branches.
     bind_run (do_emit t (parallel_started_event (length branches))) (\<lambda>_.
     bind_run (sched t run1 branches) (\<lambda>(ends, err). close_parallel t ends err)))"

end
