(* ===== verification/Validate.thy ===== *)
theory Validate
  imports Scenario Wire
begin

text \<open>
  Scenario validation (\<open>validate\<close> and its helpers in \<open>scenario/mod.rs\<close>). Each check is the list of
  errors it pushes, in order. The recursion through bodies and branches re-reads them from the raw
  parameters, as the code does; it ends because a nested value is smaller than its parent.
\<close>

definition em_dash :: string where
  "em_dash = [CHR 0xE2, CHR 0x80, CHR 0x94]"

definition ellipsis :: string where
  "ellipsis = [CHR 0xE2, CHR 0x80, CHR 0xA6]"

definition step_pos :: "usize \<Rightarrow> step_def \<Rightarrow> string" where
  "step_pos i s = ''step['' @ nat_to_string i @ ''] ('' @ step_kind_str (sd_kind s) @ '')''"

definition param :: "string \<Rightarrow> step_def \<Rightarrow> json option" where
  "param k s = json_get k (sd_raw_params s)"

definition has_param :: "string \<Rightarrow> step_def \<Rightarrow> bool" where
  "has_param k s \<longleftrightarrow> param k s \<noteq> None"

definition is_ref :: "json option \<Rightarrow> bool" where
  "is_ref v = (case v of Some (JString t) \<Rightarrow> starts_with t ''$'' | _ \<Rightarrow> False)"

section \<open>Nested steps\<close>

definition body_steps :: "step_def \<Rightarrow> step_def list" where
  "body_steps s = (case param ''body'' s of
     None \<Rightarrow> []
   | Some v \<Rightarrow> (case steps_from_value v of Ok b \<Rightarrow> b | _ \<Rightarrow> []))"

definition branch_steps :: "step_def \<Rightarrow> step_def list list" where
  "branch_steps s = (case param ''branches'' s of
     None \<Rightarrow> []
   | Some v \<Rightarrow> (case branches_from_value v of Ok bs \<Rightarrow> bs | _ \<Rightarrow> []))"

definition steps_size :: "step_def list \<Rightarrow> nat" where
  "steps_size ss = sum_list (map (\<lambda>s. Suc (size (sd_raw_params s))) ss)"

lemma steps_size_simps [simp]:
  "steps_size [] = 0" "steps_size (s # ss) = Suc (size (sd_raw_params s)) + steps_size ss"
  by (simp_all add: steps_size_def)

lemma size_json_get: "json_get k v = Some x \<Longrightarrow> size x < size v"
proof (cases v)
  case (JObject m)
  assume "json_get k v = Some x"
  with JObject have "(k, x) \<in> set m" by (simp add: map_of_SomeD)
  then have "size x < Suc (size_list (size_prod (\<lambda>_. 0) size) m)"
    by (induction m) auto
  with JObject show ?thesis by simp
qed simp_all

lemma step_def_size: "step_def_from_value v = Ok s \<Longrightarrow> size (sd_raw_params s) \<le> size v"
proof (cases v)
  case (JObject m)
  assume "step_def_from_value v = Ok s"
  with JObject have "sd_raw_params s = json_remove ''expect'' (json_remove ''on'' (json_remove ''as''
      (json_remove ''output'' (json_remove ''kind'' v))))"
    by (clarsimp simp: step_def_from_value_def Let_def simp del: json_remove.simps)
  then show ?thesis by (simp only: size_json_remove order_trans [OF size_json_remove])
qed (simp_all add: step_def_from_value_def)

lemma steps_from_value_size: "steps_from_value v = Ok ss \<Longrightarrow> steps_size ss \<le> size v"
proof (cases v)
  case (JArray xs)
  assume "steps_from_value v = Ok ss"
  with JArray have "mapM_res step_def_from_value xs = Ok ss" by (simp add: steps_from_value_def)
  then have "steps_size ss \<le> size_list size xs"
    by (induction xs arbitrary: ss) (auto dest: step_def_size intro: add_mono)
  with JArray show ?thesis by simp
qed (simp_all add: steps_from_value_def)

lemma body_size: "steps_size (body_steps s) < Suc (size (sd_raw_params s))"
  by (auto simp: body_steps_def param_def split: option.split res.split
      dest!: size_json_get steps_from_value_size)

lemma branch_size: "b \<in> set (branch_steps s) \<Longrightarrow> steps_size b < Suc (size (sd_raw_params s))"
proof -
  assume "b \<in> set (branch_steps s)"
  then obtain v where v: "param ''branches'' s = Some v" "b \<in> set (case branches_from_value v of Ok bs \<Rightarrow> bs | _ \<Rightarrow> [])"
    by (cases "param ''branches'' s") (simp_all add: branch_steps_def)
  then obtain bs where bs: "branches_from_value v = Ok bs" "b \<in> set bs"
    by (cases "branches_from_value v") simp_all
  then obtain xs where xs: "v = JArray xs" "mapM_res steps_from_value xs = Ok bs"
    by (cases v) (simp_all add: branches_from_value_def)
  from mapM_res_Ok_D2 [OF xs(2) bs(2)] obtain x where x: "x \<in> set xs" "steps_from_value x = Ok b" by blast
  then have "steps_size b \<le> size x" by (simp add: steps_from_value_size)
  also have "size x < size (JArray xs)" using x(1) by (simp add: less_Suc_eq_le size_list_estimation')
  also have "size (JArray xs) < size (sd_raw_params s)" using size_json_get [OF v(1) [unfolded param_def]] xs(1) by simp
  finally show ?thesis by simp
qed

section \<open>Connection names\<close>

record open_names =
  open_clients :: "string set"
  open_listeners :: "string set"
  open_servers :: "string set"

definition as_name :: "step_def \<Rightarrow> string" where
  "as_name s = (case sd_as_name s of Some n \<Rightarrow> n | None \<Rightarrow> ''default'')"

definition on_name :: "step_def \<Rightarrow> string" where
  "on_name s = (case sd_on_name s of Some n \<Rightarrow> n | None \<Rightarrow> ''default'')"

definition err_if :: "bool \<Rightarrow> string \<Rightarrow> string list" where
  "err_if b msg = (if b then [msg] else [])"

definition uses_client :: "step_kind \<Rightarrow> bool" where
  "uses_client k \<longleftrightarrow> k \<in> {Handshake, ChainSync, BlockFetch, QueryTip, LeiosNotify, LeiosFetch}"

definition uses_server :: "step_kind \<Rightarrow> bool" where
  "uses_server k \<longleftrightarrow> k \<in> {ServeChainSync, ServeBlockFetch, ServeLeiosNotify, ServeLeiosFetch}"

definition check_names :: "string \<Rightarrow> step_def \<Rightarrow> open_names \<Rightarrow> string list \<times> open_names" where
  "check_names pos s o_names =
     (let a = as_name s; n = on_name s; k = sd_kind s in
      if k = Connect then
        (err_if (a \<in> open_clients o_names) (pos @ '': connection name '' @ quoted a
           @ '' is already open (use a different `as` name or disconnect first)''),
         o_names\<lparr>open_clients := insert a (open_clients o_names)\<rparr>)
      else if k = Listen then
        (err_if (a \<in> open_listeners o_names) (pos @ '': listener name '' @ quoted a @ '' is already open''),
         o_names\<lparr>open_listeners := insert a (open_listeners o_names)\<rparr>)
      else if k = AcceptHandshake then
        (err_if (n \<notin> open_listeners o_names) (pos @ '': no listener named '' @ quoted n
           @ '' (create it with `listen as: '' @ quoted n @ ''`)'')
         @ err_if (a \<in> open_servers o_names) (pos @ '': server connection name '' @ quoted a @ '' is already open''),
         o_names\<lparr>open_servers := insert a (open_servers o_names)\<rparr>)
      else if uses_client k then
        (err_if (n \<notin> open_clients o_names) (pos @ '': no connection named '' @ quoted n
           @ '' (create it with `connect as: '' @ quoted n @ ''`)''), o_names)
      else if k = Disconnect then
        (err_if (n \<notin> open_clients o_names) (pos @ '': no connection named '' @ quoted n @ '' to disconnect''),
         o_names\<lparr>open_clients := open_clients o_names - {n}\<rparr>)
      else if uses_server k then
        (err_if (n \<notin> open_servers o_names) (pos @ '': no server connection named '' @ quoted n
           @ '' (create it with `accept_handshake as: '' @ quoted n @ ''`)''), o_names)
      else if k = CloseListener then
        (err_if (n \<notin> open_listeners o_names) (pos @ '': no listener named '' @ quoted n @ '' to close''),
         o_names\<lparr>open_listeners := open_listeners o_names - {n}\<rparr>)
      else ([], o_names))"

fun check_all_names :: "usize \<Rightarrow> step_def list \<Rightarrow> open_names \<Rightarrow> string list" where
  "check_all_names i [] o_names = []"
| "check_all_names i (s # ss) o_names =
     (case check_names (step_pos i s) s o_names of
        (es, o_names') \<Rightarrow> es @ check_all_names (Suc i) ss o_names')"

definition no_open_names :: open_names where
  "no_open_names = \<lparr>open_clients = {}, open_listeners = {}, open_servers = {}\<rparr>"

definition validate_connection_names :: "step_def list \<Rightarrow> string list" where
  "validate_connection_names steps = check_all_names 0 steps no_open_names"

section \<open>Connect addresses\<close>

function collect_connect_steps ::
    "step_def list \<Rightarrow> usize \<times> (usize \<times> bool) list \<Rightarrow> usize \<times> (usize \<times> bool) list" where
  "collect_connect_steps [] acc = acc"
| "collect_connect_steps (s # ss) (counter, out) =
     (let acc1 = (Suc counter,
                  if sd_kind s = Connect then out @ [(counter, has_param ''target_address'' s)] else out);
          acc2 = collect_connect_steps (body_steps s) acc1;
          acc3 = fold collect_connect_steps (branch_steps s) acc2
      in collect_connect_steps ss acc3)"
  by pat_completeness auto
termination
  by (relation "measure (\<lambda>(ss, acc). steps_size ss)")
    (auto dest: branch_size intro: less_le_trans [OF body_size] less_le_trans [OF branch_size]
      simp: add.commute)

definition validate_connect_addresses :: "scenario \<Rightarrow> string list" where
  "validate_connect_addresses sc =
     (let connect_steps = snd (collect_connect_steps (sc_steps sc) (0, []));
          needs_default = list_ex (\<lambda>(_, has_own). \<not> has_own) connect_steps
      in err_if (needs_default \<and> sc_target_address sc = None)
           (''scenario-level target_address is required because at least one connect step ''
            @ ''does not specify its own target_address '' @ em_dash @ '' either add target_address to the ''
            @ ''scenario or add target_address to every connect step''))"

section \<open>The network declaration\<close>

definition u64_str :: "u64 \<Rightarrow> string" where
  "u64_str n = u64_to_string n"

definition interval_errors :: "string \<Rightarrow> u64 \<Rightarrow> string list" where
  "interval_errors pos interval =
     err_if (interval = 0) (pos @ '': production_rule interval must be at least 1 (got 0)'')"

definition start_errors :: "string \<Rightarrow> u64 option \<Rightarrow> u64 \<Rightarrow> string \<Rightarrow> string list" where
  "start_errors pos start first_slot tail = (case start of
     None \<Rightarrow> []
   | Some st \<Rightarrow> err_if (first_slot < st) (pos @ '': production_rule first_slot '' @ u64_str first_slot
        @ '' is before network start_slot '' @ u64_str st @ tail))"

text \<open>The first neighbours of a list that do not increase, from index \<open>i\<close> on.\<close>

fun first_descent :: "usize \<Rightarrow> ('a :: linorder) list \<Rightarrow> (usize \<times> 'a \<times> 'a) option" where
  "first_descent i (a # b # xs) = (if b \<le> a then Some (i, a, b) else first_descent (Suc i) (b # xs))"
| "first_descent i _ = None"

definition at_slots_errors :: "string \<Rightarrow> u64 list \<Rightarrow> string list" where
  "at_slots_errors pos slots =
     (if slots = [] then [pos @ '': production_rule at_slots slots list must be non-empty'']
      else case first_descent 1 slots of
        None \<Rightarrow> []
      | Some (i, a, b) \<Rightarrow> [pos @ '': production_rule at_slots slots must be strictly increasing (slots[''
          @ nat_to_string i @ '']='' @ u64_str b @ '' is not greater than slots['' @ nat_to_string (i - 1)
          @ '']='' @ u64_str a @ '')''])"

definition skip_errors :: "string \<Rightarrow> usize list \<Rightarrow> string list" where
  "skip_errors pos skip_indices = (case first_descent 1 skip_indices of
     None \<Rightarrow> []
   | Some (i, a, b) \<Rightarrow> [pos @ '': production_rule skip_indices must be strictly increasing (skip_indices[''
       @ nat_to_string i @ '']='' @ nat_to_string b @ '' is not greater than skip_indices['' @ nat_to_string (i - 1)
       @ '']='' @ nat_to_string a @ '')''])"

definition marker_errors :: "string \<Rightarrow> string \<Rightarrow> string list" where
  "marker_errors pos fork_marker =
     (if fork_marker = [] then [pos @ '': production_rule fork_marker must be non-empty'']
      else err_if (length fork_marker > 256)
        (pos @ '': production_rule fork_marker must be at most 256 bytes (got ''
          @ nat_to_string (length fork_marker) @ '' bytes)''))"

definition wrong_hash_errors :: "string \<Rightarrow> string \<Rightarrow> string list" where
  "wrong_hash_errors pos wrong_hash =
     err_if (length wrong_hash \<noteq> 64 \<or> list_ex (\<lambda>c. \<not> is_ascii_hexdigit c) wrong_hash)
       (pos @ '': production_rule wrong_hash must be 64 lowercase hex characters (32 bytes), got ''
         @ str_debug wrong_hash)"

fun production_rule_errors :: "string \<Rightarrow> u64 option \<Rightarrow> production_rule \<Rightarrow> string list" where
  "production_rule_errors pos start PRNone = []"
| "production_rule_errors pos start (EveryNSlots first_slot interval) =
     interval_errors pos interval
     @ start_errors pos start first_slot ('' '' @ em_dash @ '' no blocks would ever be produced ''
         @ ''(blocks only fire during time advances past start_slot)'')"
| "production_rule_errors pos start (AtSlots slots) = at_slots_errors pos slots"
| "production_rule_errors pos start (ForkedFromSlot first_slot interval fork_slot fork_marker) =
     interval_errors pos interval
     @ err_if (fork_slot < first_slot) (pos @ '': production_rule fork_slot '' @ u64_str fork_slot
         @ '' is before first_slot '' @ u64_str first_slot @ '' '' @ em_dash
         @ '' no blocks would be produced before the fork'')
     @ marker_errors pos fork_marker
     @ start_errors pos start first_slot []"
| "production_rule_errors pos start (SkipsSlots first_slot interval skip_indices) =
     interval_errors pos interval @ skip_errors pos skip_indices @ start_errors pos start first_slot []"
| "production_rule_errors pos start (BrokenPrevHash first_slot interval break_at_slot wrong_hash) =
     interval_errors pos interval
     @ err_if (break_at_slot < first_slot) (pos @ '': production_rule break_at_slot '' @ u64_str break_at_slot
         @ '' is before first_slot '' @ u64_str first_slot)
     @ wrong_hash_errors pos wrong_hash
     @ start_errors pos start first_slot []"

definition has_content :: "peer \<Rightarrow> bool" where
  "has_content p \<longleftrightarrow> chain_sync_fixture p \<noteq> None \<or> block_fetch_fixture p \<noteq> None \<or>
     (case production_rule p of None \<Rightarrow> False | Some r \<Rightarrow> r \<noteq> PRNone)"

definition peer_errors :: "u64 option \<Rightarrow> string set \<Rightarrow> peer \<Rightarrow> string list" where
  "peer_errors start seen p =
     err_if (peer_id p \<in> seen) (''network: duplicate peer id '' @ quoted (peer_id p))
     @ err_if (\<not> has_content p) (''network: peer '' @ quoted (peer_id p) @ '' has no content source ''
         @ em_dash @ '' declare chain_sync_fixture, block_fetch_fixture, or production_rule'')
     @ (case production_rule p of None \<Rightarrow> []
        | Some r \<Rightarrow> production_rule_errors (''network.peers['' @ quoted (peer_id p) @ '']'') start r)"

fun peers_errors :: "u64 option \<Rightarrow> string set \<Rightarrow> peer list \<Rightarrow> string list" where
  "peers_errors start seen [] = []"
| "peers_errors start seen (p # ps) =
     peer_errors start seen p @ peers_errors start (insert (peer_id p) seen) ps"

definition validate_network_declaration :: "scenario \<Rightarrow> string list" where
  "validate_network_declaration sc = (case sc_network sc of
     None \<Rightarrow> []
   | Some net \<Rightarrow> peers_errors (start_slot net) {} (net_peers net))"

section \<open>References to peers\<close>

definition as_peer_errors :: "network option \<Rightarrow> usize \<Rightarrow> step_def \<Rightarrow> string list" where
  "as_peer_errors net i s = (case param ''as_peer'' s of
     Some (JString as_peer_id) \<Rightarrow>
       (case net of
          None \<Rightarrow> [step_pos i s @ '': as_peer requires a network declaration in the scenario'']
        | Some n \<Rightarrow> err_if (\<not> list_ex (\<lambda>p. peer_id p = as_peer_id) (net_peers n))
            (step_pos i s @ '': as_peer '' @ quoted as_peer_id @ '' is not declared in the network block''))
   | _ \<Rightarrow> [])"

function walk_as_peer_refs :: "network option \<Rightarrow> usize \<Rightarrow> step_def list \<Rightarrow> string list" where
  "walk_as_peer_refs net i [] = []"
| "walk_as_peer_refs net i (s # ss) =
     as_peer_errors net i s @ walk_as_peer_refs net 0 (body_steps s)
     @ concat (map (walk_as_peer_refs net 0) (branch_steps s)) @ walk_as_peer_refs net (Suc i) ss"
  by pat_completeness auto
termination
  by (relation "measure (\<lambda>(net, i, ss). steps_size ss)")
    (auto dest: branch_size intro: less_le_trans [OF body_size] less_le_trans [OF branch_size]
      simp: add.commute)

section \<open>The parameters of each step\<close>

text \<open>The points of a list parameter that are written out rather than taken from a variable.\<close>

definition point_errors :: "string \<Rightarrow> string \<Rightarrow> usize \<Rightarrow> json \<Rightarrow> string list res" where
  "point_errors pos label j v = (case v of
     JString s \<Rightarrow>
       if starts_with s ''$'' then Ok []
       else (case parse_point s of
           Ok _ \<Rightarrow> Ok []
         | Err e \<Rightarrow> Ok [pos @ '': '' @ label @ ''['' @ nat_to_string j @ ''] '' @ quoted s
                       @ '' is invalid: '' @ err_to_string e]
         | Panic \<Rightarrow> Panic)
   | _ \<Rightarrow> Ok [])"

fun points_errors :: "string \<Rightarrow> string \<Rightarrow> usize \<Rightarrow> json list \<Rightarrow> string list res" where
  "points_errors pos label j [] = Ok []"
| "points_errors pos label j (v # vs) =
     try_res (point_errors pos label j v) (\<lambda>es.
     try_res (points_errors pos label (Suc j) vs) (\<lambda>es'. Ok (es @ es')))"

definition point_list_errors :: "string \<Rightarrow> string \<Rightarrow> json option \<Rightarrow> string list res" where
  "point_list_errors pos label v =
     (case v of Some (JArray pts) \<Rightarrow> points_errors pos label 0 pts | _ \<Rightarrow> Ok [])"

definition missing :: "string \<Rightarrow> step_def \<Rightarrow> string \<Rightarrow> string \<Rightarrow> string list" where
  "missing pos s what k = err_if (\<not> has_param k s) (pos @ '': '' @ what @ '' requires '' @ k)"

definition placement_errors :: "string \<Rightarrow> step_def \<Rightarrow> string list" where
  "placement_errors pos s =
     err_if (has_param ''target_address'' s \<and> sd_kind s \<noteq> Connect)
       (pos @ '': target_address is only valid on connect steps'')
     @ err_if (has_param ''peer_id'' s \<and>
               sd_kind s \<notin> {Connect, AcceptHandshake, EmitPeerEvent, PeerExtendsChain})
       (pos @ '': peer_id is only valid on connect, accept_handshake, ''
        @ ''emit_peer_event, and peer_extends_chain steps'')"

definition block_hash_errors :: "string \<Rightarrow> step_def \<Rightarrow> string list" where
  "block_hash_errors pos s = (case param ''block_hash'' s of
     Some (JString h) \<Rightarrow> err_if (\<not> starts_with h ''$'' \<and> length h \<noteq> 64)
       (pos @ '': peer_extends_chain block_hash must be 64 hex characters (32 bytes), got ''
        @ nat_to_string (length h))
   | _ \<Rightarrow> [])"

definition tick_count_errors :: "string \<Rightarrow> step_def \<Rightarrow> string list" where
  "tick_count_errors pos s =
     (let count_val = param ''count'' s in
      if is_ref count_val then []
      else case count_val of
        None \<Rightarrow> [pos @ '': tick_slots requires count'']
      | Some v \<Rightarrow> err_if (case as_u64 v of None \<Rightarrow> True | Some n \<Rightarrow> n < 1)
          (pos @ '': tick_slots: count must be at least 1''))"

definition serve_source_errors :: "string \<Rightarrow> string \<Rightarrow> string \<Rightarrow> step_def \<Rightarrow> string list" where
  "serve_source_errors pos fixture_key requirement s =
     err_if (has_param fixture_key s \<and> has_param ''as_peer'' s)
       (pos @ '': '' @ fixture_key @ '' and as_peer are mutually exclusive'')
     @ err_if (\<not> has_param fixture_key s \<and> \<not> has_param ''responses'' s \<and> \<not> has_param ''as_peer'' s)
       (pos @ requirement)"

definition await_errors :: "string \<Rightarrow> step_def \<Rightarrow> string list" where
  "await_errors pos s = (case Option.bind (param ''await_at_tip_secs'' s) as_u64 of
     None \<Rightarrow> []
   | Some secs \<Rightarrow> err_if (secs > 300)
       (pos @ '': await_at_tip_secs '' @ u64_to_string secs @ '' exceeds maximum of 300''))"

definition leios_fetch_errors :: "string \<Rightarrow> step_def \<Rightarrow> string list res" where
  "leios_fetch_errors pos s =
     (if \<not> has_param ''points'' s then Ok [pos @ '': leios_fetch requires points'']
      else if is_ref (param ''points'' s) then Ok []
      else point_list_errors pos ''points'' (param ''points'' s))"

definition serve_chain_sync_errors :: "string \<Rightarrow> step_def \<Rightarrow> string list" where
  "serve_chain_sync_errors pos s =
     serve_source_errors pos ''fixture_path'' '': serve_chain_sync requires fixture_path, as_peer, or responses'' s
     @ await_errors pos s"

text \<open>The arms of the code's \<open>match\<close> that hold no nested steps.\<close>

definition simple_step_errors :: "string \<Rightarrow> step_def \<Rightarrow> bool \<Rightarrow> string list res" where
  "simple_step_errors pos s has_cs = (case sd_kind s of
     ChainSync \<Rightarrow> point_list_errors pos ''intersection_points'' (param ''intersection_points'' s)
   | BlockFetch \<Rightarrow>
       (let points_val = param ''points'' s;
            is_from_cs = (points_val = None \<or> points_val = Some (JString ''from_chain_sync'')) in
        try_res (if is_ref points_val then Ok [] else point_list_errors pos ''points'' points_val) (\<lambda>es.
          Ok (err_if (is_from_cs \<and> \<not> has_cs)
                (pos @ '': points = '' @ quoted ''from_chain_sync'' @ '' but no chain_sync step precedes this'')
              @ es)))
   | Sleep \<Rightarrow> Ok (missing pos s ''sleep step'' ''duration_secs'')
   | ServeBlockFetch \<Rightarrow> Ok (serve_source_errors pos ''block_fetch_fixture_path''
       '': serve_block_fetch requires block_fetch_fixture_path, as_peer, responses, or both'' s)
   | EmitPeerEvent \<Rightarrow> Ok (missing pos s ''emit_peer_event'' ''peer_id''
       @ missing pos s ''emit_peer_event'' ''event_kind'')
   | PeerExtendsChain \<Rightarrow> Ok (concat (map (missing pos s ''peer_extends_chain'')
         [''peer_id'', ''slot'', ''block_number'', ''block_hash'', ''header_cbor''])
       @ block_hash_errors pos s)
   | AdvanceToSlot \<Rightarrow> Ok (missing pos s ''advance_to_slot'' ''slot'')
   | TickSlots \<Rightarrow> Ok (tick_count_errors pos s)
   | LeiosFetch \<Rightarrow> leios_fetch_errors pos s
   | ServeChainSync \<Rightarrow> Ok (serve_chain_sync_errors pos s)
   | _ \<Rightarrow> Ok [])"

text \<open>The flag is \<open>has_chain_sync\<close>, threaded through bodies and branches.\<close>

definition add_errors :: "string list \<Rightarrow> (string list \<times> bool) res \<Rightarrow> (string list \<times> bool) res" where
  "add_errors es r = try_res r (\<lambda>(es', cs). Ok (es @ es', cs))"

lemma steps_param_size:
  "param k s = Some v \<Longrightarrow> steps_from_value v = Ok ss \<Longrightarrow> steps_size ss < size (sd_raw_params s)"
  using size_json_get [of k "sd_raw_params s" v] steps_from_value_size [of v ss]
  by (simp add: param_def)

lemma array_param_size:
  "param k s = Some (JArray arr) \<Longrightarrow> Suc (size_list size arr) < size (sd_raw_params s)"
  using size_json_get [of k "sd_raw_params s" "JArray arr"] by (simp add: param_def)

function validate_steps :: "usize \<Rightarrow> step_def list \<Rightarrow> bool \<Rightarrow> (string list \<times> bool) res"
  and validate_step :: "string \<Rightarrow> step_def \<Rightarrow> bool \<Rightarrow> (string list \<times> bool) res"
  and validate_branches :: "string \<Rightarrow> usize \<Rightarrow> json list \<Rightarrow> bool \<Rightarrow> (string list \<times> bool) res" where
  "validate_steps i [] cs = Ok ([], cs)"
| "validate_steps i (s # ss) cs =
     try_res (validate_step (step_pos i s) s cs) (\<lambda>(es, cs').
       add_errors es (validate_steps (Suc i) ss cs'))"
| "validate_step pos s cs =
     add_errors (placement_errors pos s) (case sd_kind s of
       Repeat \<Rightarrow> add_errors (missing pos s ''repeat step'' ''times'')
         (case param ''body'' s of
            None \<Rightarrow> Ok ([pos @ '': repeat step requires body''], cs)
          | Some body_val \<Rightarrow> (case steps_from_value body_val of
              Ok body \<Rightarrow> validate_steps 0 body cs
            | Err e \<Rightarrow> Ok ([pos @ '': invalid body: '' @ err_to_string e], cs)
            | Panic \<Rightarrow> Panic))
     | Parallel \<Rightarrow>
         (case param ''branches'' s of
            None \<Rightarrow> Ok ([pos @ '': parallel step requires branches''], cs)
          | Some (JArray arr) \<Rightarrow>
              if arr = [] then Ok ([pos @ '': parallel step requires at least one branch''], cs)
              else validate_branches pos 0 arr cs
          | Some _ \<Rightarrow> Ok ([pos @ '': parallel branches must be an array''], cs))
     | k \<Rightarrow> try_res (simple_step_errors pos s cs) (\<lambda>es. Ok (es, cs \<or> k = ChainSync)))"
| "validate_branches pos b [] cs = Ok ([], cs)"
| "validate_branches pos b (v # vs) cs =
     try_res (case steps_from_value v of
         Ok body \<Rightarrow> validate_steps 0 body cs
       | Err e \<Rightarrow> Ok ([pos @ '': branches['' @ nat_to_string b @ '']: '' @ err_to_string e], cs)
       | Panic \<Rightarrow> Panic) (\<lambda>(es, cs').
       add_errors es (validate_branches pos (Suc b) vs cs'))"
  by pat_completeness auto

termination
  by (relation "measure (case_sum (\<lambda>(i, ss, cs). 2 * steps_size ss)
        (case_sum (\<lambda>(pos, s, cs). 2 * size (sd_raw_params s) + 1) (\<lambda>(pos, b, vs, cs). 2 * size_list size vs)))")
    (auto dest: steps_param_size array_param_size steps_from_value_size)

text \<open>\<open>validate\<close>: all checks, and one error that lists what they found.\<close>

fun join_lines :: "string \<Rightarrow> string list \<Rightarrow> string" where
  "join_lines sep [] = []"
| "join_lines sep [x] = x"
| "join_lines sep (x # y # xs) = x @ sep @ join_lines sep (y # xs)"

definition mixing_errors :: "step_def list \<Rightarrow> string list" where
  "mixing_errors steps =
     err_if (list_ex (\<lambda>s. is_client_side (sd_kind s)) steps \<and> list_ex (\<lambda>s. is_server_side (sd_kind s)) steps)
       (''scenario mixes client-side steps (connect/handshake/'' @ ellipsis @ '') and server-side ''
        @ ''steps (listen/accept_handshake/'' @ ellipsis @ '') '' @ em_dash
        @ '' these must not appear in the same scenario'')"

definition validation_errors :: "scenario \<Rightarrow> string list res" where
  "validation_errors sc =
     try_res (validate_steps 0 (sc_steps sc) False) (\<lambda>(es, _).
       Ok (mixing_errors (sc_steps sc) @ es @ validate_connection_names (sc_steps sc)
           @ validate_connect_addresses sc @ validate_network_declaration sc
           @ walk_as_peer_refs (sc_network sc) 0 (sc_steps sc)))"

definition validate :: "scenario \<Rightarrow> unit res" where
  "validate sc = try_res (validation_errors sc) (\<lambda>errors.
     if errors = [] then Ok ()
     else anyhow (''scenario '' @ quoted (sc_name sc) @ '' has validation errors:'' @ [CHR 0x0A] @ ''  - ''
            @ join_lines ([CHR 0x0A] @ ''  - '') errors))"

text \<open>What to unfold to validate a concrete scenario.\<close>

lemmas validate_defs = validate_def validation_errors_def mixing_errors_def err_if_def
  validate_connection_names_def validate_connect_addresses_def validate_network_declaration_def
  check_names_def uses_client_def uses_server_def no_open_names_def as_name_def on_name_def
  placement_errors_def has_param_def param_def is_client_side_def is_server_side_def simple_step_errors_def
  leios_fetch_errors_def serve_chain_sync_errors_def
  add_errors_def body_steps_def branch_steps_def as_peer_errors_def missing_def is_ref_def
  point_list_errors_def point_errors_def peer_errors_def has_content_def interval_errors_def start_errors_def
  at_slots_errors_def skip_errors_def marker_errors_def wrong_hash_errors_def u64_str_def step_pos_def
  serve_source_errors_def await_errors_def block_hash_errors_def tick_count_errors_def em_dash_def

end
