(* ===== verification/Execute.thy ===== *)
theory Execute
  imports ClientSteps ParallelStep Validate
begin

text \<open>
  \<open>execute_step\<close> (\<open>scenario/runner.rs\<close>): the dispatch on the kind of a step, and with it the recursion of
  \<open>run_step\<close> through \<open>repeat\<close> and \<open>parallel\<close>. It ends because nested steps are parts of their parent's
  parameters.
\<close>

lemma bind_res [simp]:
  "bind_run (res_run (Ok x)) k = k x" "bind_run (res_run (Err e)) k = res_run (Err e)"
  "bind_run (res_run Panic) k = res_run Panic"
  by (rule ext, simp add: bind_run_def res_run_def)+

section \<open>Nested steps are smaller\<close>

definition step_size :: "step_def \<Rightarrow> nat" where
  "step_size step = size (sd_raw_params step)"

lemma in_steps_size: "s \<in> set ss \<Longrightarrow> step_size s < steps_size ss"
  unfolding step_size_def by (induction ss) auto

lemma repeat_body_smaller: "repeat_body step = Ok body \<Longrightarrow> s \<in> set body \<Longrightarrow> step_size s < step_size step"
  by (auto simp: repeat_body_def step_size_def [of step] dest!: size_json_get steps_from_value_size in_steps_size)

lemma branch_steps_of: "parallel_branches step = Ok bs \<Longrightarrow> branch_steps step = bs"
  by (auto simp: parallel_branches_def branch_steps_def param_def)

lemma guard_holds:
  assumes "parallel_branches step = Ok bs" "b \<in> set bs" "s \<in> set b"
  shows "step_size s < step_size step"
proof -
  from branch_size [of b step] assms(2) branch_steps_of [OF assms(1)]
  have "steps_size b \<le> step_size step" by (simp add: step_size_def)
  with in_steps_size [OF assms(3)] show ?thesis by simp
qed

text \<open>The bookkeeping calls the executor on nothing else.\<close>

lemma run_step_cong [fundef_cong]:
  assumes "step = step'" "\<And>resolved. exec step' resolved = exec' step' resolved"
  shows "run_step exec t step idx = run_step exec' t step' idx"
  using assms by (simp add: run_step_def)

lemma run_body_cong: "(\<And>s i. s \<in> set ss \<Longrightarrow> run1 s i = run1' s i) \<Longrightarrow> run_body run1 t it i ss = run_body run1' t it i ss"
  by (induction ss arbitrary: i) (auto intro!: arg_cong2 [where f = match_run] ext split: sum.split)

lemma repeat_loop_cong:
  assumes "\<And>s i. s \<in> set body \<Longrightarrow> run1 s i = run1' s i"
  shows "repeat_loop run1 t n_times body n it = repeat_loop run1' t n_times body n it"
  by (induction n arbitrary: it) (simp_all add: run_body_cong [OF assms])

lemma repeat_step_cong [fundef_cong]:
  assumes "step = step'" "\<And>body s i. repeat_body step' = Ok body \<Longrightarrow> s \<in> set body \<Longrightarrow> run1 s i = run1' s i"
  shows "repeat_step render run1 t step resolved = repeat_step render run1' t step' resolved"
proof (cases "repeat_body step'")
  case (Ok body)
  with assms(2) have "repeat_loop run1 t n body k 0 = repeat_loop run1' t n body k 0" for n k
    by (intro repeat_loop_cong) blast
  with Ok assms(1) show ?thesis by (simp add: repeat_step_def)
qed (use assms(1) in \<open>simp_all add: repeat_step_def\<close>)

section \<open>The dispatch\<close>

text \<open>The scheduler is handed the run of nested steps only, which the guard says; \<open>guard_holds\<close> shows
  that it never bars a step of a branch.\<close>

function execute_step :: "env \<Rightarrow> scheduler \<Rightarrow> tracer \<Rightarrow> string \<Rightarrow> u64 \<Rightarrow> step_def \<Rightarrow> json \<Rightarrow> unit run" where
  "execute_step e sched t target_address network_magic step resolved =
     bind_run (res_run (with_context (''step ('' @ step_kind_str (sd_kind step) @ ''): invalid params after substitution'')
       (step_params_from_value resolved))) (\<lambda>params.
     case sd_kind step of
       Connect \<Rightarrow> connect e t target_address step params
     | Handshake \<Rightarrow> handshake_step e t network_magic step
     | QueryTip \<Rightarrow> query_tip e t target_address network_magic step
     | ChainSync \<Rightarrow> chain_sync_step e t step params
     | BlockFetch \<Rightarrow> block_fetch_step e t step params
     | LeiosNotify \<Rightarrow> leios_notify_step t step params
     | LeiosFetch \<Rightarrow> leios_fetch_step t step params
     | Repeat \<Rightarrow> repeat_step (render_json e)
         (\<lambda>s i. run_step (execute_step e sched t target_address network_magic) t s i) t step resolved
     | Disconnect \<Rightarrow> disconnect t step
     | Sleep \<Rightarrow> sleep_step params
     | Listen \<Rightarrow> listen e t step params
     | AcceptHandshake \<Rightarrow> accept_handshake e t network_magic step params
     | ServeChainSync \<Rightarrow> serve_chain_sync e t step params
     | ServeBlockFetch \<Rightarrow> serve_block_fetch e t step params
     | ServeLeiosNotify \<Rightarrow> serve_leios_notify e t step resolved
     | ServeLeiosFetch \<Rightarrow> serve_leios_fetch e t step resolved
     | CloseListener \<Rightarrow> close_listener t step
     | EmitPeerEvent \<Rightarrow> emit_peer_event t resolved params
     | PeerExtendsChain \<Rightarrow> peer_extends_chain t params
     | AdvanceToSlot \<Rightarrow> advance_to_slot e t params
     | TickSlots \<Rightarrow> tick_slots e t params
     | Parallel \<Rightarrow> parallel_step sched (\<lambda>s i.
         if step_size s < step_size step then run_step (execute_step e sched t target_address network_magic) t s i
         else waits_for_ever) t step)"
  by pat_completeness auto

termination
  by (relation "measure (\<lambda>(e, sched, t, target, magic, step, resolved). step_size step)")
    (auto dest: repeat_body_smaller)

declare execute_step.simps [simp del]

end
