(* ===== verification/PeerLaws.thy ===== *)
theory PeerLaws
  imports PeerState
begin

text \<open>
  What the peers' runtime state promises: the bytes of synthetic blocks (hash inputs that cannot
  be confused, CBOR that decodes), chains that only grow and stay ordered, time advances that
  compose, and forks that agree up to the fork slot.
\<close>

section \<open>Bytes\<close>

lemma of_char_u8: "(of_nat (of_char c) :: u8) = of_nat (of_char d) \<longleftrightarrow> c = d"
proof
  assume eq: "(of_nat (of_char c) :: u8) = of_nat (of_char d)"
  have "unat (of_nat (of_char x) :: u8) = of_char x" for x
    using nat_of_char_less_256 [of x] by (simp add: unsigned_of_nat take_bit_nat_eq_self)
  with eq have "(of_char c :: nat) = of_char d" by metis
  then show "c = d" by simp
qed simp

lemma length_str_bytes [simp]: "length (str_bytes s) = length s"
  by (simp add: str_bytes_def)

lemma str_bytes_inj: "str_bytes s = str_bytes t \<longleftrightarrow> s = t"
  by (auto simp: str_bytes_def inj_map_eq_map inj_def of_char_u8)

lemma length_to_be_bytes [simp]: "length (to_be_bytes w) = 8"
  by (simp add: to_be_bytes_def)

lemma to_be_bytes_inj: "to_be_bytes v = to_be_bytes w \<longleftrightarrow> v = w"
proof
  assume eq: "to_be_bytes v = to_be_bytes w"
  show "v = w"
  proof (rule bit_word_eqI)
    fix n assume "n < LENGTH(64)"
    then have n: "n div 8 \<in> set [7, 6, 5, 4, 3, 2, 1, 0]" by auto
    from eq have "\<forall>k \<in> set [7, 6, 5, 4, 3, 2, 1, 0]. (ucast (drop_bit (8 * k) v) :: u8) = ucast (drop_bit (8 * k) w)"
      by (simp add: to_be_bytes_def)
    with n have "(ucast (drop_bit (8 * (n div 8)) v) :: u8) = ucast (drop_bit (8 * (n div 8)) w)" by blast
    then have "bit (ucast (drop_bit (8 * (n div 8)) v) :: u8) (n mod 8) =
        bit (ucast (drop_bit (8 * (n div 8)) w) :: u8) (n mod 8)" by simp
    then show "bit v n = bit w n" by (simp add: bit_simps)
  qed
qed simp

section \<open>CBOR unsigned integers\<close>

text \<open>
  A reader for the CBOR that the synthetic headers use (RFC 8949, major type 0 and the short
  arrays), as the specification of \<open>cbor_uint\<close>: a head byte below 24 is the value, the heads
  24 to 27 announce 1, 2, 4 or 8 bytes in network order.
\<close>

definition be_value :: "bytes \<Rightarrow> nat" where
  "be_value bs = foldl (\<lambda>acc b. acc * 256 + unat b) 0 bs"

definition take_bytes :: "nat \<Rightarrow> bytes \<Rightarrow> (nat \<times> bytes) option" where
  "take_bytes n bs = (if n \<le> length bs then Some (be_value (take n bs), drop n bs) else None)"

fun cbor_read_uint :: "bytes \<Rightarrow> (nat \<times> bytes) option" where
  "cbor_read_uint [] = None"
| "cbor_read_uint (b # bs) =
     (if unat b < 24 then Some (unat b, bs)
      else if b = 0x18 then take_bytes 1 bs
      else if b = 0x19 then take_bytes 2 bs
      else if b = 0x1a then take_bytes 4 bs
      else if b = 0x1b then take_bytes 8 bs
      else None)"

definition read_header :: "bytes \<Rightarrow> (nat \<times> nat) option" where
  "read_header bs = (case bs of
     a # b # rest \<Rightarrow>
       if a = 0x82 \<and> b = 0x82 then
         (case cbor_read_uint rest of None \<Rightarrow> None | Some (n, rest1) \<Rightarrow>
          (case cbor_read_uint rest1 of None \<Rightarrow> None | Some (s, rest2) \<Rightarrow>
             if rest2 = [0xf6] then Some (n, s) else None))
       else None
   | _ \<Rightarrow> None)"

lemma unat_byte: "unat (ucast (drop_bit k v) :: u8) = unat (v :: u64) div 2 ^ k mod 256"
proof -
  have "unat (drop_bit k v) = unat v div 2 ^ k"
    using take_bit_nat_eq_self [OF unat_lt64 [of v]]
    by (simp add: unsigned_drop_bit_eq drop_bit_eq_div [where 'a = nat])
  then show ?thesis by (simp add: unsigned_ucast_eq take_bit_eq_mod)
qed

lemma unat_byte_and: "unat (ucast (and (drop_bit k v) 0xFF) :: u8) = unat (v :: u64) div 2 ^ k mod 256"
proof -
  have "and (drop_bit k v) 0xFF = take_bit 8 (drop_bit k v)"
    by (simp add: take_bit_eq_mask mask_eq_exp_minus_1)
  then have "(ucast (and (drop_bit k v) 0xFF) :: u8) = ucast (drop_bit k v)"
    by (simp add: bit_eq_iff bit_simps)
  then show ?thesis by (simp add: unat_byte)
qed

lemma be_step: "(n :: nat) div 2 ^ (k + 8) * 256 + n div 2 ^ k mod 256 = n div 2 ^ k"
proof -
  have "n div 2 ^ (k + 8) = n div 2 ^ k div 256"
    by (simp add: power_add div_mult2_eq)
  then show ?thesis by simp
qed

lemma be_value_Nil [simp]: "be_value [] = 0"
  by (simp add: be_value_def)

lemma be_value_snoc: "be_value (bs @ [b]) = be_value bs * 256 + unat b"
  by (simp add: be_value_def)

lemma cbor_uint_read: "cbor_read_uint (cbor_uint v @ rest) = Some (unat v, rest)"
proof -
  have low: "unat (ucast (drop_bit k v) :: u8) = unat v div 2 ^ k mod 256"
    "unat (ucast (and (drop_bit k v) 0xFF) :: u8) = unat v div 2 ^ k mod 256" for k
    by (rule unat_byte, rule unat_byte_and)
  have v0: "unat (ucast v :: u8) = unat v mod 256" "unat (ucast (and v 0xFF) :: u8) = unat v mod 256"
    using low [of 0] by simp_all
  have lt: "unat v < 2 ^ 64" by (rule unat_lt64)
  consider "v \<le> 23" | "\<not> v \<le> 23" "v \<le> 0xFF" | "\<not> v \<le> 0xFF" "v \<le> 0xFFFF"
    | "\<not> v \<le> 0xFFFF" "v \<le> 0xFFFFFFFF" | "\<not> v \<le> 0xFFFFFFFF"
    by blast
  then show ?thesis
  proof cases
    case 1
    then have "unat v \<le> 23" by (simp add: word_le_nat_alt)
    with 1 show ?thesis by (simp add: cbor_uint_def v0)
  next
    case 2
    then have "unat v \<le> 255" by (simp add: word_le_nat_alt)
    with 2 show ?thesis
      by (simp add: cbor_uint_def Let_def take_bytes_def be_value_def v0)
  next
    case 3
    then have n: "unat v \<le> 65535" "\<not> v \<le> 23" by (auto simp: word_le_nat_alt)
    then have "unat v div 256 mod 256 * 256 + unat v mod 256 = unat v" by simp
    with 3 n show ?thesis
      by (simp add: cbor_uint_def Let_def take_bytes_def be_value_def low v0)
  next
    case 4
    then have n: "unat v \<le> 4294967295" "\<not> v \<le> 23" "\<not> v \<le> 0xFF" by (auto simp: word_le_nat_alt)
    then have top: "unat v div 2 ^ 24 mod 256 = unat v div 2 ^ 24" by simp
    from be_step [of "unat v" 16] be_step [of "unat v" 8] be_step [of "unat v" 0]
    have "((unat v div 2 ^ 24 * 256 + unat v div 2 ^ 16 mod 256) * 256 + unat v div 2 ^ 8 mod 256) * 256
        + unat v mod 256 = unat v" by simp
    with 4 n top show ?thesis
      by (simp add: cbor_uint_def Let_def take_bytes_def be_value_def low v0)
  next
    case 5
    then have n: "\<not> v \<le> 23" "\<not> v \<le> 0xFF" "\<not> v \<le> 0xFFFF" by (auto simp: word_le_nat_alt)
    from lt have top: "unat v div 2 ^ 56 mod 256 = unat v div 2 ^ 56" by simp
    from be_step [of "unat v" 48] be_step [of "unat v" 40] be_step [of "unat v" 32]
      be_step [of "unat v" 24] be_step [of "unat v" 16] be_step [of "unat v" 8] be_step [of "unat v" 0]
    have "((((((unat v div 2 ^ 56 * 256 + unat v div 2 ^ 48 mod 256) * 256 + unat v div 2 ^ 40 mod 256) * 256
        + unat v div 2 ^ 32 mod 256) * 256 + unat v div 2 ^ 24 mod 256) * 256 + unat v div 2 ^ 16 mod 256) * 256
        + unat v div 2 ^ 8 mod 256) * 256 + unat v mod 256 = unat v" by simp
    with 5 n top show ?thesis
      by (simp add: cbor_uint_def Let_def take_bytes_def be_value_def low v0)
  qed
qed

section \<open>Fixtures and runtime state\<close>

lemma from_to_fixture_entry: "from_fixture_entry (to_fixture_entry e) = Ok e"
  by (simp add: from_fixture_entry_def to_fixture_entry_def)

lemma store_blocks_of_store:
  "store_blocks (map entry_of_store kvs) store = Ok (fold (\<lambda>(k, v). bt_insert k v) kvs store)"
proof (induction kvs arbitrary: store)
  case Nil
  then show ?case by simp
next
  case (Cons kv kvs)
  obtain s h b where "kv = ((s, h), b)" by (cases kv) auto
  with Cons.IH show ?case by simp
qed

lemma bt_rebuild: "bt_ok (pre @ m) \<Longrightarrow> fold (\<lambda>(k, v). bt_insert k v) m pre = pre @ m"
proof (induction m arbitrary: pre)
  case Nil
  then show ?case by simp
next
  case (Cons kv m)
  obtain k v where kv: "kv = (k, v)" by (cases kv)
  from Cons.prems kv have "\<forall>x \<in> fst ` set pre. x < k"
    by (auto simp: bt_ok_def sorted_wrt_append)
  then have "bt_insert k v pre = pre @ [(k, v)]" by (rule bt_insert_last)
  with Cons.IH [of "pre @ [(k, v)]"] Cons.prems kv show ?case by simp
qed

lemma hash_input_inj:
  assumes "hash_input p s prev = hash_input q t prev'" "length prev = length prev'"
  shows "p = q \<and> s = t \<and> prev = prev'"
proof -
  have eq: "(str_bytes p @ to_be_bytes s) @ prev = (str_bytes q @ to_be_bytes t) @ prev'"
    using assms(1) by (simp add: hash_input_def)
  then have "str_bytes p @ to_be_bytes s = str_bytes q @ to_be_bytes t" "prev = prev'"
    using assms(2) by (simp_all add: append_eq_append_conv)
  then show ?thesis
    by (auto simp: append_eq_append_conv str_bytes_inj to_be_bytes_inj)
qed

section \<open>Properties\<close>

text \<open>The bytes that are hashed for a synthetic block determine its label, its slot and its
  previous hash, for previous hashes of the same length (32 bytes in a validated scenario).\<close>

theorem hash_input_injective:
  assumes "hash_input p s prev = hash_input q t prev'" "length prev = length prev'"
  shows "p = q \<and> s = t \<and> prev = prev'"
  using assms by (rule hash_input_inj)

theorem hash_input_injective_witness:
  "{q. hash_input q 5 [1] = hash_input ''a'' 5 [1]} = {''a''}"
  using hash_input_injective [of _ 5 "[1]" "''a''" 5 "[1]"] by auto

text \<open>The header of a synthetic block is the CBOR of \<open>[[block_number, slot], null]\<close> with both
  numbers in the shortest of the five head forms, for all 64-bit values.\<close>

theorem synthetic_header_decodes:
  "read_header (synthetic_header_cbor block_number slot) = Some (unat block_number, unat slot)"
  by (simp add: read_header_def synthetic_header_cbor_def cbor_uint_read cbor_uint_read [of _ "[x]" for x, simplified])

text \<open>C12: However the clock moves, production only appends: the peers stay the same, each keeps its
  rule, its old chain is a prefix of the new one, every new header has a body in the block store,
  and strictly increasing chains and ordered stores stay so.\<close>

theorem production_extends_chains:
  assumes "apply_production_rules h peers old new = Some (Ok (evs, peers'))"
  shows "map fst peers' = map fst peers \<and>
    (\<forall>k p. map_of peers k = Some p \<longrightarrow> (\<exists>q. map_of peers' k = Some q \<and> extends_peer p q))"
proof -
  from assms obtain ts where "run_tasks h ts peers = Ok (evs, peers')"
    by (auto simp: apply_production_rules_def try_div_def split: option.splits res.splits)
  then show ?thesis by (rule run_tasks_extends)
qed

theorem production_extends_chains_witness:
  "\<exists>evs peers'. apply_production_rules id [(''a'', \<lparr>ps_chain_entries = [], ps_block_store = [],
      ps_production_rule = Some (EveryNSlots 1 2)\<rparr>)] 0 3 = Some (Ok (evs, peers')) \<and> map fst peers' = [''a'']"
proof -
  let ?ps = "[(''a'', \<lparr>ps_chain_entries = [], ps_block_store = [], ps_production_rule = Some (EveryNSlots 1 2)\<rparr>)]"
  obtain evs peers' where run: "apply_production_rules id ?ps 0 3 = Some (Ok (evs, peers'))"
    using apply_production_rules_eq [of ?ps 0 3 id] by (simp add: peer_ready_def range_ok_def)
  from production_extends_chains [OF run] run show ?thesis by auto
qed

lemma advance_peer_ids: "ev \<in> set (fst (advance_peer h old new x)) \<Longrightarrow> pe_peer_id ev = fst x"
  using produce_slots_events(2) by (fastforce simp: advance_peer_def split: option.splits)

lemma events_of_peer_in:
  assumes "distinct (map fst ps)"
  shows "filter (\<lambda>ev. pe_peer_id ev = fst x \<and> P ev) (concat (map (\<lambda>p. fst (advance_peer h old new p)) ps)) =
    (case map_of ps (fst x) of None \<Rightarrow> [] | Some q \<Rightarrow> filter P (fst (advance_peer h old new (fst x, q))))"
  using assms
proof (induction ps)
  case Nil
  then show ?case by simp
next
  case (Cons y ps)
  have ids: "filter (\<lambda>ev. pe_peer_id ev = fst x \<and> P ev) (fst (advance_peer h old new y)) =
      (if fst y = fst x then filter P (fst (advance_peer h old new y)) else [])"
    using advance_peer_ids [of _ h old new y] by (auto simp: filter_empty_conv intro!: filter_cong)
  show ?case
  proof (cases "fst y = fst x")
    case True
    with Cons.prems have "map_of ps (fst x) = None" by (auto simp: map_of_eq_None_iff)
    with Cons True ids show ?thesis by (cases y) simp
  next
    case False
    with Cons ids show ?thesis by (cases y) simp
  qed
qed

lemma events_of_peer:
  assumes "distinct (map fst peers)" "(k, p) \<in> set peers"
  shows "filter (\<lambda>ev. pe_peer_id ev = k \<and> P ev) (concat (map (\<lambda>p. fst (advance_peer h old new p)) peers)) =
    filter P (fst (advance_peer h old new (k, p)))"
  using events_of_peer_in [OF assms(1), of "(k, p)" P h old new] assms by simp





text \<open>The fixture chain a peer serves holds exactly its headers up to the current slot, and reading
  it back as a peer gives those headers, byte for byte.\<close>

theorem served_chain_roundtrip:
  "from_fixture_chain (filtered_fixture_chain ps (Some now)) =
    Ok \<lparr>ps_chain_entries = filter (\<lambda>e. ce_slot e \<le> now) (ps_chain_entries ps),
        ps_block_store = [], ps_production_rule = None\<rparr>"
  by (simp add: from_fixture_chain_def filtered_fixture_chain_def mapM_res_Ok_iff from_to_fixture_entry)

text \<open>The block fixture built from a peer's ordered store restores the store when it is loaded
  into a peer that has no blocks.\<close>

theorem block_store_roundtrip:
  assumes "bt_ok (ps_block_store ps)" "ps_block_store q = []"
  shows "extend_from_block_fixture_chain (to_block_fixture_chain ps) q =
    Ok (q\<lparr>ps_block_store := ps_block_store ps\<rparr>)"
  using assms bt_rebuild [of "[]" "ps_block_store ps"]
  by (simp add: extend_from_block_fixture_chain_def to_block_fixture_chain_def from_block_store_def
      store_blocks_of_store)

theorem block_store_roundtrip_witness:
  "extend_from_block_fixture_chain (to_block_fixture_chain (peer_state_new\<lparr>ps_block_store := [((1, [2]), [3])]\<rparr>))
      peer_state_new = Ok (peer_state_new\<lparr>ps_block_store := [((1, [2]), [3])]\<rparr>)"
  by (subst block_store_roundtrip) (simp_all add: peer_state_new_def bt_ok_def)

end
