(* ===== verification/ChainSyncLaws.thy ===== *)
theory ChainSyncLaws
  imports ChainSyncServer
begin

text \<open>
  What the Chain-Sync server promises: it keeps the contract of a scripted body (rules in script
  order, one-shot rules once), it adds to the trace and the wire only, and with the script that is
  generated from a fixture it serves the fixture.
\<close>

section \<open>The contract\<close>

lemma quiet_cs_send: "keeps quiet (cs_send m)" "keeps quiet (cs_send_raw bs)"
  by (simp_all add: cs_send_def cs_send_raw_def quiet_send_wire)

lemma quiet_cs_sent: "kind \<noteq> ResponseRuleApplied \<Longrightarrow> keeps quiet (emit t (cs_sent kind st after ps))"
  by (rule quiet_emit) (simp add: cs_sent_def)

lemmas cs_send_defs = cs_cursor_find_intersect_def cs_cursor_advance_def cs_roll_forward_def
  cs_roll_backward_def cs_intersect_found_def cs_intersect_not_found_def cs_await_reply_def
  cs_raw_bytes_def

lemma quiet_execute_send: "keeps quiet (cs_execute_send t fixture request st send s)"
  by (cases send)
    (auto simp: cs_send_defs Let_def intro!: quiet_rules quiet_cs_send quiet_cs_sent
      split: option.split prod.split)

lemma gives_execute_send:
  "gives (\<lambda>x. cs_rule_idx (snd x) = cs_rule_idx s \<and> cs_rules_applied (snd x) = cs_rules_applied s)
     (cs_execute_send t fixture request st send s)"
  by (cases send)
    (auto simp: cs_send_defs Let_def intro!: gives_rules split: option.split prod.split)

definition cs_apply ::
    "tracer \<Rightarrow> fixture_chain option \<Rightarrow> cs_request \<Rightarrow> cs_session \<Rightarrow> script_rule \<Rightarrow> usize \<Rightarrow> (cs_session \<times> bool) io" where
  "cs_apply t fixture request s0 rule rule_idx =
     try_io (cs_execute_send t fixture request (cs_st s0) (sr_send rule)
         (s0\<lparr>cs_rule_idx := rule_idx, cs_rules_applied := cs_rules_applied s0 + 1\<rparr>)) (\<lambda>(finished, s2).
       ret (s2\<lparr>cs_st := after_send (cs_st s0) (sr_send rule)\<rparr>, finished))"

lemma cs_body_eq:
  "cs_body t fixture rules request s =
     try_io (emit t (cs_receive_event request (cs_st s) (after_receive (cs_st s) request))) (\<lambda>_.
       if request = CsDoneRequest then ret (s\<lparr>cs_st := after_receive (cs_st s) request\<rparr>, True)
       else case next_rule (cs_matches_on request) rules (cs_rule_idx s) of
         None \<Rightarrow> bail (cs_no_matching_rule request rules)
       | Some (pos, rule, idx) \<Rightarrow> try_io (emit t (rule_applied_event pos rule)) (\<lambda>_.
           cs_apply t fixture request (s\<lparr>cs_st := after_receive (cs_st s) request\<rparr>) rule idx))"
  by (simp add: cs_body_def cs_apply_def Let_def cong: option.case_cong)

lemma cs_receive_kind: "te_kind (cs_receive_event request a b) \<noteq> ResponseRuleApplied"
  by (cases request) (simp_all add: cs_receive_event_def)

lemma quiet_cs_apply: "keeps quiet (cs_apply t fixture request s0 rule idx)"
  unfolding cs_apply_def
  by (intro quiet.keeps_try_io quiet_execute_send quiet.keeps_case_prod quiet.keeps_ret)

lemma gives_cs_apply: "gives (\<lambda>x. cs_rule_idx (fst x) = idx) (cs_apply t fixture request s0 rule idx)"
  unfolding gives_def
proof (intro allI impI)
  fix w x w'
  let ?s = "s0\<lparr>cs_rule_idx := idx, cs_rules_applied := cs_rules_applied s0 + 1\<rparr>"
  assume "cs_apply t fixture request s0 rule idx w = (Ok x, w')"
  then obtain y w1 where "cs_execute_send t fixture request (cs_st s0) (sr_send rule) ?s w = (Ok y, w1)"
    and x: "x = ((snd y)\<lparr>cs_st := after_send (cs_st s0) (sr_send rule)\<rparr>, fst y)"
    by (auto simp: cs_apply_def try_io_def ret_def split: prod.splits res.splits)
  with gives_execute_send [of ?s t fixture request "cs_st s0" "sr_send rule"]
  show "cs_rule_idx (fst x) = idx" by (cases y) (auto simp: gives_def)
qed

text \<open>Scripts are shorter than \<open>2\<^sup>6\<^sup>4\<close> rules: \<open>rule_index\<close> is written as a 64-bit number.\<close>

interpretation cs: script_server cs_rule_idx "cs_body t fixture (take (2 ^ 64 - 1) rules)" "take (2 ^ 64 - 1) rules"
  for t fixture rules
proof unfold_locales
  fix r s w res w'
  let ?rules = "take (2 ^ 64 - 1) rules"
  assume run: "cs_body t fixture ?rules r s w = (res, w')"
  have len: "length ?rules < 2 ^ 64" by (simp add: min_def)
  show "\<exists>es. trace_file w' = trace_file w @ es \<and>
      (case res of
         Ok (s', _) \<Rightarrow> rule_step ?rules (cs_rule_idx s) (applied_rules es) (cs_rule_idx s')
       | _ \<Rightarrow> (\<exists>j. rule_step ?rules (cs_rule_idx s) (applied_rules es) j))"
    by (rule scripted_body [where rule_index = cs_rule_idx,
          OF cs_receive_kind len quiet_cs_apply gives_cs_apply _ run [unfolded cs_body_eq]])
      simp
qed

section \<open>Only additions\<close>

lemma sess_cs_send: "keeps session_extends (cs_send m)" "keeps session_extends (cs_send_raw bs)"
  by (simp_all add: cs_send_def cs_send_raw_def sess_send_wire)

lemma sess_execute_send: "keeps session_extends (cs_execute_send t fixture request st send s)"
  by (cases send)
    (auto simp: cs_send_defs Let_def intro!: sess_rules sess_cs_send split: option.split prod.split)

lemma sess_cs_body: "keeps session_extends (cs_body t fixture rules request s)"
  unfolding cs_body_eq cs_apply_def
  by (intro sess_rules sess_execute_send)

lemma sess_serve_loop:
  "(\<And>r s. keeps session_extends (body r s)) \<Longrightarrow> keeps session_extends (serve_loop body inbox s)"
  by (induction body inbox s rule: serve_loop.induct) (auto intro!: sess_rules)

section \<open>Honest sessions\<close>

lemma cs_send_run [run_simps]: "reliable w \<Longrightarrow> cs_send m w = (Ok (), put_wire (CsWire m) w)"
  by (simp add: cs_send_def send_wire_reliable)

text \<open>One step of the loop in a reliable world, up to the applied rule.\<close>

lemma cs_body_run:
  assumes "reliable w" "request \<noteq> CsDoneRequest"
    and "next_rule (cs_matches_on request) rules (cs_rule_idx s) = Some (pos, rule, idx)"
  shows "\<exists>w1. reliable w1 \<and> wire_out w1 = wire_out w \<and>
    cs_body t fixture rules request s w =
      cs_apply t fixture request (s\<lparr>cs_st := after_receive (cs_st s) request\<rparr>) rule idx w1"
proof -
  let ?ev = "cs_receive_event request (cs_st s) (after_receive (cs_st s) request)"
  let ?w1 = "logged t (rule_applied_event pos rule) (logged t ?ev w)"
  have "cs_body t fixture rules request s w =
      cs_apply t fixture request (s\<lparr>cs_st := after_receive (cs_st s) request\<rparr>) rule idx ?w1"
    using assms by (simp add: cs_body_eq try_io_def emit_reliable)
  then show ?thesis using assms(1) by (intro exI [of _ ?w1]) simp
qed

text \<open>The rules of a generated script.\<close>

lemma generated_length: "length (generate_from_fixture chain secs) = length (fc_entries chain) + 3"
  by (simp add: generate_from_fixture_def)

lemma generated_nth:
  "generate_from_fixture chain secs ! 0 = one_shot OnFindIntersect CursorFindIntersect"
  "1 \<le> i \<Longrightarrow> i \<le> length (fc_entries chain) \<Longrightarrow>
     generate_from_fixture chain secs ! i = one_shot OnRequestNext CursorAdvance"
  "generate_from_fixture chain secs ! Suc (length (fc_entries chain)) =
     one_shot OnRequestNext (AwaitReplySend secs)"
  by (auto simp: generate_from_fixture_def nth_append nth_Cons')

lemma next_generated:
  assumes "1 \<le> i" "i \<le> length (fc_entries chain)"
  shows "next_rule (cs_matches_on CsRequestNext) (generate_from_fixture chain secs) i =
    Some (i, one_shot OnRequestNext CursorAdvance, Suc i)"
  using assms next_rule_here [of i "generate_from_fixture chain secs" "cs_matches_on CsRequestNext"]
  by (simp add: generated_length generated_nth cs_matches_on_def one_shot_def)

text \<open>A request with headers left is answered with the next header.\<close>

lemma serve_header:
  assumes "reliable w" "cs_cursor s = Some cu" "0 \<le> cu_pos cu" "unserved cu = e # es"
    and "cursor_tip cu = Ok tip" "entry_to_header_content e = Ok hc"
    and "1 \<le> cs_rule_idx s" "cs_rule_idx s \<le> length (fc_entries chain)"
  shows "\<exists>s' w' cu'. cs_body t (Some chain) (generate_from_fixture chain secs) CsRequestNext s w = (Ok (s', False), w') \<and>
    reliable w' \<and> wire_out w' = wire_out w @ [CsWire (RollForward hc tip)] \<and>
    cs_cursor s' = Some cu' \<and> 0 \<le> cu_pos cu' \<and> unserved cu' = es \<and> cu_chain cu' = cu_chain cu \<and>
    cs_rule_idx s' = Suc (cs_rule_idx s) \<and> headers_served s' = headers_served s + 1"
proof -
  from cs_body_run [OF assms(1) _ next_generated [OF assms(7,8)], of t "Some chain"]
  obtain w1 where w1: "reliable w1" "wire_out w1 = wire_out w"
    and body: "cs_body t (Some chain) (generate_from_fixture chain secs) CsRequestNext s w =
      cs_apply t (Some chain) CsRequestNext (s\<lparr>cs_st := after_receive (cs_st s) CsRequestNext\<rparr>)
        (one_shot OnRequestNext CursorAdvance) (Suc (cs_rule_idx s)) w1"
    by auto
  from advance_unserved_Cons [OF assms(3,4)] obtain cu' where cu': "advance cu = (Some e, cu')"
    "unserved cu' = es" "0 \<le> cu_pos cu'" "cu_chain cu' = cu_chain cu" by blast
  show ?thesis
    unfolding body using assms(2,5,6) w1 cu'
    by (simp add: cs_apply_def one_shot_def cs_cursor_advance_def try_io_def lift_res_def ret_def
        cs_send_run emit_reliable)
qed

lemma serve_headers:
  assumes "reliable w" "cs_cursor s = Some cu" "0 \<le> cu_pos cu"
    and "cursor_tip cu = Ok tip" "mapM_res entry_to_header_content (unserved cu) = Ok hcs"
    and "k \<le> length (unserved cu)" "1 \<le> cs_rule_idx s" "cs_rule_idx s + k \<le> Suc (length (fc_entries chain))"
  shows "\<exists>s' w' cu'. serve_loop (cs_body t (Some chain) (generate_from_fixture chain secs))
      (replicate k (Ok CsRequestNext) @ rest) s w =
      serve_loop (cs_body t (Some chain) (generate_from_fixture chain secs)) rest s' w' \<and>
    reliable w' \<and> wire_out w' = wire_out w @ map (\<lambda>hc. CsWire (RollForward hc tip)) (take k hcs) \<and>
    cs_cursor s' = Some cu' \<and> 0 \<le> cu_pos cu' \<and> unserved cu' = drop k (unserved cu) \<and>
    cu_chain cu' = cu_chain cu \<and> cs_rule_idx s' = cs_rule_idx s + k \<and>
    headers_served s' = headers_served s + of_nat k"
  using assms
proof (induction k arbitrary: s w cu hcs)
  case 0
  then show ?case by auto
next
  case (Suc k)
  from Suc.prems(6) obtain e es where un: "unserved cu = e # es" by (cases "unserved cu") auto
  with Suc.prems(5) obtain hc hcs' where hc: "entry_to_header_content e = Ok hc"
    "mapM_res entry_to_header_content es = Ok hcs'" "hcs = hc # hcs'" by auto
  from serve_header [OF Suc.prems(1-3) un Suc.prems(4) hc(1) Suc.prems(7), of chain t secs] Suc.prems(8)
  obtain s1 w1 cu1 where step:
    "cs_body t (Some chain) (generate_from_fixture chain secs) CsRequestNext s w = (Ok (s1, False), w1)"
    "reliable w1" "wire_out w1 = wire_out w @ [CsWire (RollForward hc tip)]"
    "cs_cursor s1 = Some cu1" "0 \<le> cu_pos cu1" "unserved cu1 = es" "cu_chain cu1 = cu_chain cu"
    "cs_rule_idx s1 = Suc (cs_rule_idx s)" "headers_served s1 = headers_served s + 1"
    by auto
  have tip: "cursor_tip cu1 = Ok tip" using Suc.prems(4) step(7) by (simp add: cursor_tip_def)
  from Suc.IH [OF step(2,4,5) tip, of hcs'] step(6,8) hc(2) Suc.prems(6,8) un
  obtain s' w' cu' where rest: "serve_loop (cs_body t (Some chain) (generate_from_fixture chain secs))
      (replicate k (Ok CsRequestNext) @ rest) s1 w1 =
      serve_loop (cs_body t (Some chain) (generate_from_fixture chain secs)) rest s' w'"
    "reliable w'" "wire_out w' = wire_out w1 @ map (\<lambda>hc. CsWire (RollForward hc tip)) (take k hcs')"
    "cs_cursor s' = Some cu'" "0 \<le> cu_pos cu'" "unserved cu' = drop k es" "cu_chain cu' = cu_chain cu1"
    "cs_rule_idx s' = cs_rule_idx s1 + k" "headers_served s' = headers_served s1 + of_nat k"
    by auto
  show ?case
  proof (intro exI [of _ s'] exI [of _ w'] exI [of _ cu'] conjI)
    show "serve_loop (cs_body t (Some chain) (generate_from_fixture chain secs))
      (replicate (Suc k) (Ok CsRequestNext) @ rest) s w =
      serve_loop (cs_body t (Some chain) (generate_from_fixture chain secs)) rest s' w'"
      using step(1) rest(1) by (simp add: try_io_def)
  qed (use rest step un hc in \<open>simp_all add: ac_simps\<close>)
qed

text \<open>The first request: the intersection.\<close>

lemma serve_intersect:
  assumes "reliable w" "chain_tip chain = Ok tip"
    and "find_intersect (cursor_new chain) ps = Ok (Some i)"
    and "current_point (set_pos i (cursor_new chain)) = Ok pt"
  shows "\<exists>s' w'. cs_body t (Some chain) (generate_from_fixture chain secs) (CsFindIntersect ps)
        (cs_session_start (Some chain)) w = (Ok (s', False), w') \<and>
    reliable w' \<and> wire_out w' = wire_out w @ [CsWire (IntersectFound pt tip)] \<and>
    cs_cursor s' = Some (set_pos i (cursor_new chain)) \<and> cs_rule_idx s' = 1 \<and>
    headers_served s' = 0 \<and> intersects_handled s' = 1"
proof -
  let ?s = "cs_session_start (Some chain)"
  have n: "next_rule (cs_matches_on (CsFindIntersect ps)) (generate_from_fixture chain secs) (cs_rule_idx ?s) =
      Some (0, one_shot OnFindIntersect CursorFindIntersect, 1)"
    using next_rule_here [of 0 "generate_from_fixture chain secs" "cs_matches_on (CsFindIntersect ps)"]
    by (simp add: generated_length generated_nth cs_matches_on_def one_shot_def cs_session_start_def)
  from cs_body_run [OF assms(1) _ n, of t "Some chain"]
  obtain w1 where w1: "reliable w1" "wire_out w1 = wire_out w"
    and body: "cs_body t (Some chain) (generate_from_fixture chain secs) (CsFindIntersect ps) ?s w =
      cs_apply t (Some chain) (CsFindIntersect ps) (?s\<lparr>cs_st := after_receive (cs_st ?s) (CsFindIntersect ps)\<rparr>)
        (one_shot OnFindIntersect CursorFindIntersect) 1 w1"
    by auto
  have "cursor_tip (cursor_new chain) = Ok tip"
    using assms(2) by (simp add: cursor_tip_def cursor_new_def)
  then show ?thesis
    unfolding body using assms(3,4) w1
    by (simp add: cs_apply_def one_shot_def cs_cursor_find_intersect_def try_io_def lift_res_def ret_def
        cs_send_run emit_reliable cs_session_start_def Let_def)
qed

text \<open>Past the last header the next request is answered with \<open>AwaitReply\<close>.\<close>

lemma serve_await:
  assumes "reliable w" "cs_cursor s = Some cu" "0 \<le> cu_pos cu" "unserved cu = []"
    and "cursor_tip cu = Ok tip"
    and "1 \<le> cs_rule_idx s" "cs_rule_idx s \<le> Suc (length (fc_entries chain))"
  shows "\<exists>s' w'. cs_body t (Some chain) (generate_from_fixture chain secs) CsRequestNext s w = (Ok (s', False), w') \<and>
    reliable w' \<and> wire_out w' = wire_out w @ [CsWire AwaitReply] \<and>
    headers_served s' = headers_served s \<and> await_triggered s'"
proof (cases "cs_rule_idx s \<le> length (fc_entries chain)")
  case True
  from cs_body_run [OF assms(1) _ next_generated [OF assms(6) True], of t "Some chain"]
  obtain w1 where w1: "reliable w1" "wire_out w1 = wire_out w"
    and body: "cs_body t (Some chain) (generate_from_fixture chain secs) CsRequestNext s w =
      cs_apply t (Some chain) CsRequestNext (s\<lparr>cs_st := after_receive (cs_st s) CsRequestNext\<rparr>)
        (one_shot OnRequestNext CursorAdvance) (Suc (cs_rule_idx s)) w1"
    by auto
  show ?thesis
    unfolding body using assms(2,5) w1 advance_unserved_Nil [OF assms(3,4)]
    by (simp add: cs_apply_def one_shot_def cs_cursor_advance_def try_io_def lift_res_def ret_def
        cs_send_run emit_reliable)
next
  case False
  with assms(7) have i: "cs_rule_idx s = Suc (length (fc_entries chain))" by simp
  have "next_rule (cs_matches_on CsRequestNext) (generate_from_fixture chain secs) (cs_rule_idx s) =
      Some (Suc (length (fc_entries chain)), one_shot OnRequestNext (AwaitReplySend secs), Suc (Suc (length (fc_entries chain))))"
    using next_rule_here [of "cs_rule_idx s" "generate_from_fixture chain secs" "cs_matches_on CsRequestNext"]
    by (simp add: i generated_length generated_nth cs_matches_on_def one_shot_def)
  from cs_body_run [OF assms(1) _ this, of t "Some chain"]
  obtain w1 where w1: "reliable w1" "wire_out w1 = wire_out w"
    and body: "cs_body t (Some chain) (generate_from_fixture chain secs) CsRequestNext s w =
      cs_apply t (Some chain) CsRequestNext (s\<lparr>cs_st := after_receive (cs_st s) CsRequestNext\<rparr>)
        (one_shot OnRequestNext (AwaitReplySend secs)) (Suc (Suc (length (fc_entries chain)))) w1"
    by auto
  show ?thesis
    unfolding body using w1
    by (simp add: cs_apply_def one_shot_def cs_await_reply_def try_io_def ret_def
        cs_send_run emit_reliable sleep_secs_run)
qed

lemma cs_done_run:
  "reliable w \<Longrightarrow> \<exists>w'. reliable w' \<and> wire_out w' = wire_out w \<and>
     serve_loop (cs_body t fixture rules) [Ok CsDoneRequest] s w = (Ok (s\<lparr>cs_st := CsDone\<rparr>), w')"
  by (intro exI [of _ "logged t (cs_receive_event CsDoneRequest (cs_st s) CsDone) w"])
    (simp add: cs_body_eq try_io_def emit_reliable ret_def)

lemma cs_finish_run:
  "reliable w \<Longrightarrow> \<exists>summary w'. cs_finish t s w = (Ok summary, w') \<and> wire_out w' = wire_out w \<and>
     css_headers_served summary = headers_served s \<and> css_await_triggered summary = await_triggered s"
  by (simp add: cs_finish_def try_io_def elapsed_ms_run emit_reliable ret_def Let_def)

section \<open>Properties\<close>

lemma honest_session:
  assumes "reliable w" "chain_tip chain = Ok tip"
    and "find_intersect (cursor_new chain) ps = Ok (Some i)"
    and "current_point (set_pos i (cursor_new chain)) = Ok pt"
    and "mapM_res entry_to_header_content (drop (nat i) (fc_entries chain)) = Ok hcs"
    and "k \<le> Suc (length hcs)"
  shows "\<exists>summary w'. execute_response_script t (Some chain) (generate_from_fixture chain secs)
      (map Inr (FindIntersect ps # replicate k RequestNext @ [ChainSyncDoneMsg])) w = (Ok summary, w') \<and>
    wire_out w' = wire_out w @ [CsWire (IntersectFound pt tip)]
      @ map (\<lambda>hc. CsWire (RollForward hc tip)) (take k hcs)
      @ (if k = Suc (length hcs) then [CsWire AwaitReply] else []) \<and>
    css_headers_served summary = of_nat (min k (length hcs))"
proof -
  let ?rules = "generate_from_fixture chain secs"
  let ?body = "cs_body t (Some chain) ?rules"
  let ?cu = "set_pos i (cursor_new chain)"
  let ?w0 = "logged t (cs_started_event (Some chain) ?rules) w"
  have w0: "reliable ?w0" "wire_out ?w0 = wire_out w" using assms(1) by simp_all
  from serve_intersect [OF w0(1) assms(2-4), of t secs] w0 obtain s1 w1 where s1:
    "?body (CsFindIntersect ps) (cs_session_start (Some chain)) ?w0 = (Ok (s1, False), w1)"
    "reliable w1" "wire_out w1 = wire_out w @ [CsWire (IntersectFound pt tip)]"
    "cs_cursor s1 = Some ?cu" "cs_rule_idx s1 = 1" "headers_served s1 = 0" by auto
  have i: "0 \<le> i" "i \<le> int (length (fc_entries chain))"
    using find_intersect_bounds [OF assms(3)] by (simp_all add: cursor_new_def)
  have un: "unserved ?cu = drop (nat i) (fc_entries chain)" by (simp add: unserved_def cursor_new_def)
  have len: "length hcs = length (unserved ?cu)" using mapM_res_length [OF assms(5)] un by simp
  have ctip: "cursor_tip ?cu = Ok tip" using assms(2) by (simp add: cursor_tip_def cursor_new_def)
  define j where "j = min k (length hcs)"
  let ?last = "replicate (k - j) (Ok CsRequestNext) @ [Ok CsDoneRequest]"
  have j: "j \<le> length (unserved ?cu)" "cs_rule_idx s1 + j \<le> Suc (length (fc_entries chain))"
    using len un s1(5) by (simp_all add: j_def)
  have pos: "0 \<le> cu_pos ?cu" "1 \<le> cs_rule_idx s1" using i(1) s1(5) by simp_all
  from assms(5) have hcs: "mapM_res entry_to_header_content (unserved ?cu) = Ok hcs" by (simp add: un)
  from serve_headers [OF s1(2,4) pos(1) ctip hcs j(1) pos(2) j(2), of t secs ?last]
  obtain s2 w2 cu2 where s2:
    "serve_loop ?body (replicate j (Ok CsRequestNext) @ ?last) s1 w1 = serve_loop ?body ?last s2 w2"
    "reliable w2" "wire_out w2 = wire_out w1 @ map (\<lambda>hc. CsWire (RollForward hc tip)) (take j hcs)"
    "cs_cursor s2 = Some cu2" "0 \<le> cu_pos cu2" "unserved cu2 = drop j (unserved ?cu)"
    "cu_chain cu2 = cu_chain ?cu" "cs_rule_idx s2 = 1 + j" "headers_served s2 = of_nat j"
    unfolding s1(5,6) by auto
  have inbox: "map cs_recv_request (map Inr (FindIntersect ps # replicate k RequestNext @ [ChainSyncDoneMsg])) =
      Ok (CsFindIntersect ps) # replicate j (Ok CsRequestNext) @ ?last"
    by (simp add: replicate_add [symmetric] j_def)
  have "\<exists>s3 w3. serve_loop ?body ?last s2 w2 = (Ok s3, w3) \<and> reliable w3 \<and>
      wire_out w3 = wire_out w2 @ (if k = Suc (length hcs) then [CsWire AwaitReply] else []) \<and>
      headers_served s3 = of_nat j"
  proof (cases "k = Suc (length hcs)")
    case True
    then have j: "j = length hcs" "k - j = 1" by (simp_all add: j_def)
    have "unserved cu2 = []" "cursor_tip cu2 = Ok tip" "cs_rule_idx s2 \<le> Suc (length (fc_entries chain))"
      using s2(6,7,8) j len un ctip by (simp_all add: cursor_tip_def)
    from serve_await [OF s2(2,4,5) this(1,2) _ this(3), of t secs] s2(8)
    obtain s3 w3 where s3: "?body CsRequestNext s2 w2 = (Ok (s3, False), w3)" "reliable w3"
      "wire_out w3 = wire_out w2 @ [CsWire AwaitReply]" "headers_served s3 = headers_served s2" by auto
    from cs_done_run [OF s3(2), of t "Some chain" ?rules s3] s3 s2(9) True j(2) show ?thesis
      by (auto simp: try_io_def)
  next
    case False
    with assms(6) have "k - j = 0" by (simp add: j_def)
    with cs_done_run [OF s2(2), of t "Some chain" ?rules s2] s2(9) False show ?thesis by auto
  qed
  then obtain s3 w3 where s3: "serve_loop ?body ?last s2 w2 = (Ok s3, w3)" "reliable w3"
      "wire_out w3 = wire_out w2 @ (if k = Suc (length hcs) then [CsWire AwaitReply] else [])"
      "headers_served s3 = of_nat j" by blast
  from cs_finish_run [OF s3(2), of t s3] obtain summary w4 where fin: "cs_finish t s3 w3 = (Ok summary, w4)"
    "wire_out w4 = wire_out w3" "css_headers_served summary = headers_served s3" by blast
  have run: "execute_response_script t (Some chain) ?rules
      (map Inr (FindIntersect ps # replicate k RequestNext @ [ChainSyncDoneMsg])) w = (Ok summary, w4)"
    unfolding execute_response_script_def inbox
    using assms(1) s1(1) s2(1) s3(1) fin(1) by (simp add: try_io_def emit_reliable)
  have "take j hcs = take k hcs" by (simp add: j_def min_def)
  with run fin s3 s2(3) s1(3) show ?thesis by (auto simp: j_def)
qed

text \<open>C2: An honest session serves the fixture: to a client that finds its intersection at position
  \<open>i\<close>, asks for \<open>k\<close> headers (at most one more than there are after \<open>i\<close>) and leaves, the
  server of the generated script sends the intersection, then the first \<open>k\<close> headers after it in
  chain order, each once, then \<open>AwaitReply\<close> if the client asked past the tip. The summary counts
  the headers that were sent.\<close>

theorem honest_session_serves_fixture:
  assumes "reliable w" "chain_tip chain = Ok tip"
    and "find_intersect (cursor_new chain) ps = Ok (Some i)"
    and "current_point (set_pos i (cursor_new chain)) = Ok pt"
    and "mapM_res entry_to_header_content (drop (nat i) (fc_entries chain)) = Ok hcs"
    and "k \<le> Suc (length hcs)"
  shows "\<exists>summary w'. execute_response_script t (Some chain) (generate_from_fixture chain secs)
      (map Inr (FindIntersect ps # replicate k RequestNext @ [ChainSyncDoneMsg])) w = (Ok summary, w') \<and>
    wire_out w' = wire_out w @ [CsWire (IntersectFound pt tip)]
      @ map (\<lambda>hc. CsWire (RollForward hc tip)) (take k hcs)
      @ (if k = Suc (length hcs) then [CsWire AwaitReply] else []) \<and>
    css_headers_served summary = of_nat (min k (length hcs))"
  using assms by (rule honest_session)

theorem honest_session_serves_fixture_witness:
  "\<exists>chain summary w'. execute_response_script tracer_open (Some chain) (generate_from_fixture chain 0)
      (map Inr [FindIntersect [Origin], RequestNext, RequestNext, ChainSyncDoneMsg]) fresh_world = (Ok summary, w') \<and>
    wire_out w' = [CsWire (IntersectFound Origin (Tip (Specific 9 [1]) 1)),
      CsWire (RollForward \<lparr>hc_variant = 6, hc_cbor = [0x80]\<rparr> (Tip (Specific 9 [1]) 1)), CsWire AwaitReply]"
proof -
  let ?e = "\<lparr>fe_slot = 9, fe_block_hash = encode_hex [1], fe_block_number = 1,
    fe_cbor_hex = encode_hex [0x80], fe_variant = 6\<rparr>"
  let ?chain = "\<lparr>fc_anchor = Origin, fc_entries = [?e]\<rparr>"
  have tip: "chain_tip ?chain = Ok (Tip (Specific 9 [1]) 1)"
    using decode_encode_hex(3) [of "[1]"] by (simp add: chain_tip_def del: encode_hex_simps)
  have i: "find_intersect (cursor_new ?chain) [Origin] = Ok (Some 0)"
    by (simp add: point_to_pos_def cursor_new_def)
  have pt: "current_point (set_pos 0 (cursor_new ?chain)) = Ok Origin"
    by (simp add: current_point_def cursor_new_def)
  have h: "mapM_res entry_to_header_content (drop (nat 0) (fc_entries ?chain)) = Ok [\<lparr>hc_variant = 6, hc_cbor = [0x80]\<rparr>]"
    using decode_encode_skip [of "[0x80]"] by (simp add: entry_to_header_content_def del: encode_hex_simps)
  from honest_session_serves_fixture [OF reliable_fresh_world(1) tip i pt h, of 2 tracer_open 0]
  show ?thesis
    by (intro exI [of _ ?chain]) (auto simp: numeral_2_eq_2 reliable_fresh_world)
qed

text \<open>C17: Whatever the client sends and whatever fails, the rules that a Chain-Sync session applies are
  applied in script order, and a rule that is not repeatable is applied at most once: the rule
  indices in the session's trace increase strictly except at repeatable rules.\<close>

theorem chain_sync_rules_in_order:
  assumes "length rules < 2 ^ 64"
    and "execute_response_script t fixture rules inbox w = (res, w')"
  shows "\<exists>es. trace_file w' = trace_file w @ es \<and> in_script_order rules (applied_rules es)"
proof -
  have rules: "take (2 ^ 64 - 1) rules = rules" using assms(1) by simp
  have start: "keeps quiet (emit t (cs_started_event fixture rules))"
    by (rule quiet_emit) (simp add: cs_started_event_def)
  have finish: "keeps quiet (cs_finish t s)" for s
    unfolding cs_finish_def Let_def by (auto intro!: quiet_rules)
  show ?thesis
    by (rule cs.session_in_order [of _ _ t fixture rules, unfolded rules,
          OF start finish assms(2) [unfolded execute_response_script_def]])
qed

theorem chain_sync_rules_in_order_witness:
  "\<exists>es. trace_file (snd (execute_response_script tracer_open None [one_shot OnAny (WaitSend 1), one_shot OnAny DisconnectSend]
      [Inr RequestNext, Inr RequestNext] fresh_world)) = es \<and>
    in_script_order [one_shot OnAny (WaitSend 1), one_shot OnAny DisconnectSend] (applied_rules es)"
proof -
  let ?rules = "[one_shot OnAny (WaitSend 1), one_shot OnAny DisconnectSend]"
  obtain res w' where run: "execute_response_script tracer_open None ?rules
      [Inr RequestNext, Inr RequestNext] fresh_world = (res, w')" by fastforce
  from chain_sync_rules_in_order [OF _ run] run show ?thesis by simp
qed

text \<open>A request that no remaining rule matches ends the session with an error that names the
  request and the script's length; nothing is sent for it.\<close>

theorem unmatched_request_fails:
  assumes "reliable w" "request \<noteq> CsDoneRequest"
    and "\<forall>j. cs_rule_idx s \<le> j \<and> j < length rules \<longrightarrow> \<not> cs_matches_on request (sr_on (rules ! j))"
  shows "\<exists>w'. cs_body t fixture rules request s w = (anyhow (cs_no_matching_rule request rules), w') \<and>
    wire_out w' = wire_out w"
proof -
  have "next_rule (cs_matches_on request) rules (cs_rule_idx s) = None"
    using assms(3) by (simp add: next_rule_None_iff)
  with assms(1,2) show ?thesis
    by (simp add: cs_body_eq try_io_def emit_reliable bail_def)
qed

theorem unmatched_request_fails_witness:
  "\<exists>w'. cs_body tracer_open None [one_shot OnFindIntersect DisconnectSend] CsRequestNext (cs_session_start None) fresh_world =
      (anyhow (cs_no_matching_rule CsRequestNext [one_shot OnFindIntersect DisconnectSend]), w') \<and>
    wire_out w' = wire_out fresh_world"
  by (rule unmatched_request_fails) (simp_all add: one_shot_def cs_matches_on_def)

text \<open>With the cursor at the tip the server of a generated script sends \<open>AwaitReply\<close> but tracks the
  protocol state \<open>Idle\<close>; the events it logs afterwards start from a state the protocol is not in.\<close>

theorem cursor_advance_at_tip_tracks_idle:
  assumes "reliable w" "cs_cursor s = Some cu" "advance cu = (None, cu')" "cursor_tip cu = Ok tip"
    and "cs_rule_idx s < length rules" "rules ! cs_rule_idx s = one_shot OnRequestNext CursorAdvance"
  shows "\<exists>s' w'. cs_body t fixture rules CsRequestNext s w = (Ok (s', False), w') \<and>
    wire_out w' = wire_out w @ [CsWire AwaitReply] \<and> cs_st s' = CsIdle"
proof -
  have "next_rule (cs_matches_on CsRequestNext) rules (cs_rule_idx s) =
      Some (cs_rule_idx s, one_shot OnRequestNext CursorAdvance, Suc (cs_rule_idx s))"
    using next_rule_here [OF assms(5), of "cs_matches_on CsRequestNext"] assms(6)
    by (simp add: one_shot_def cs_matches_on_def)
  from cs_body_run [OF assms(1) _ this, of t fixture] obtain w1 where "reliable w1" "wire_out w1 = wire_out w"
    "cs_body t fixture rules CsRequestNext s w =
      cs_apply t fixture CsRequestNext (s\<lparr>cs_st := after_receive (cs_st s) CsRequestNext\<rparr>)
        (one_shot OnRequestNext CursorAdvance) (Suc (cs_rule_idx s)) w1" by auto
  with assms(2-4) show ?thesis
    by (simp add: cs_apply_def one_shot_def cs_cursor_advance_def try_io_def lift_res_def ret_def
        cs_send_run emit_reliable)
qed

theorem cursor_advance_at_tip_tracks_idle_witness:
  "\<exists>s' w'. cs_body tracer_open None [one_shot OnRequestNext CursorAdvance] CsRequestNext
      (cs_session_start (Some \<lparr>fc_anchor = Origin, fc_entries = []\<rparr>)) fresh_world =
      (Ok (s', False), w') \<and> wire_out w' = wire_out fresh_world @ [CsWire AwaitReply] \<and> cs_st s' = CsIdle"
  by (rule cursor_advance_at_tip_tracks_idle
      [where cu = "cursor_new \<lparr>fc_anchor = Origin, fc_entries = []\<rparr>" and tip = "Tip Origin 0"
        and cu' = "set_pos 0 (cursor_new \<lparr>fc_anchor = Origin, fc_entries = []\<rparr>)"])
    (simp_all add: cs_session_start_def cursor_new_def advance_def cursor_tip_def chain_tip_def set_pos_def Let_def)

end
