(* ===== verification/ValidateLaws.thy ===== *)
theory ValidateLaws
  imports Validate
begin

text \<open>
  What a scenario without validation errors promises: connection names are opened before they are
  used, every \<open>connect\<close> has an address, every \<open>as_peer\<close> names a declared peer, wherever it is
  nested, and the clock of the declared network can advance.
\<close>

section \<open>Connection names\<close>

definition opened :: "(step_def \<Rightarrow> bool) \<Rightarrow> (step_def \<Rightarrow> bool) \<Rightarrow> step_def list \<Rightarrow> bool" where
  "opened opens closes ss \<longleftrightarrow> (\<exists>a s b. ss = a @ s # b \<and> opens s \<and> (\<forall>t \<in> set b. \<not> closes t))"

definition client_open :: "step_def list \<Rightarrow> string \<Rightarrow> bool" where
  "client_open ss n \<longleftrightarrow> opened (\<lambda>s. sd_kind s = Connect \<and> as_name s = n)
     (\<lambda>s. sd_kind s = Disconnect \<and> on_name s = n) ss"

definition listener_open :: "step_def list \<Rightarrow> string \<Rightarrow> bool" where
  "listener_open ss n \<longleftrightarrow> opened (\<lambda>s. sd_kind s = Listen \<and> as_name s = n)
     (\<lambda>s. sd_kind s = CloseListener \<and> on_name s = n) ss"

definition server_open :: "step_def list \<Rightarrow> string \<Rightarrow> bool" where
  "server_open ss n \<longleftrightarrow> opened (\<lambda>s. sd_kind s = AcceptHandshake \<and> as_name s = n) (\<lambda>s. False) ss"

text \<open>A step's names fit the steps before it.\<close>

definition names_fit :: "step_def list \<Rightarrow> step_def \<Rightarrow> bool" where
  "names_fit before s \<longleftrightarrow> (case sd_kind s of
     Connect \<Rightarrow> \<not> client_open before (as_name s)
   | Listen \<Rightarrow> \<not> listener_open before (as_name s)
   | AcceptHandshake \<Rightarrow> listener_open before (on_name s) \<and> \<not> server_open before (as_name s)
   | CloseListener \<Rightarrow> listener_open before (on_name s)
   | k \<Rightarrow> (uses_client k \<or> k = Disconnect \<longrightarrow> client_open before (on_name s)) \<and>
         (uses_server k \<longrightarrow> server_open before (on_name s)))"

lemma opened_Nil [simp]: "\<not> opened p q []"
  by (simp add: opened_def)

lemma opened_snoc [simp]: "opened p q (ss @ [s]) \<longleftrightarrow> p s \<or> opened p q ss \<and> \<not> q s"
proof
  assume "opened p q (ss @ [s])"
  then obtain a x b where ab: "ss @ [s] = a @ x # b" "p x" "\<forall>t \<in> set b. \<not> q t"
    by (auto simp: opened_def)
  then show "p s \<or> opened p q ss \<and> \<not> q s"
    by (cases b rule: rev_cases) (auto simp: opened_def)
next
  assume "p s \<or> opened p q ss \<and> \<not> q s"
  then show "opened p q (ss @ [s])"
  proof
    assume "p s"
    then show ?thesis unfolding opened_def by (intro exI [of _ ss] exI [of _ s] exI [of _ "[]"]) simp
  next
    assume asm: "opened p q ss \<and> \<not> q s"
    then obtain a x b where "ss = a @ x # b" "p x" "\<forall>t \<in> set b. \<not> q t"
      by (auto simp: opened_def)
    with asm show ?thesis unfolding opened_def
      by (intro exI [of _ a] exI [of _ x] exI [of _ "b @ [s]"]) auto
  qed
qed

definition names_after :: "step_def list \<Rightarrow> open_names" where
  "names_after ss = \<lparr>open_clients = Collect (client_open ss), open_listeners = Collect (listener_open ss),
     open_servers = Collect (server_open ss)\<rparr>"

lemmas open_defs = names_after_def client_open_def listener_open_def server_open_def

lemma names_after_Nil: "names_after [] = no_open_names"
  by (simp add: open_defs no_open_names_def)

lemma check_names_after: "snd (check_names pos s (names_after ss)) = names_after (ss @ [s])"
  by (cases "sd_kind s") (auto simp: check_names_def Let_def open_defs uses_client_def uses_server_def)

lemma err_if_Nil [simp]: "err_if b m = [] \<longleftrightarrow> \<not> b"
  by (simp add: err_if_def)

lemma check_names_Nil_iff: "fst (check_names pos s (names_after ss)) = [] \<longleftrightarrow> names_fit ss s"
  by (cases "sd_kind s")
    (simp_all add: check_names_def Let_def names_after_def names_fit_def uses_client_def uses_server_def)

lemma check_all_names_Nil_iff:
  "check_all_names i ss (names_after before) = [] \<longleftrightarrow>
     (\<forall>j < length ss. names_fit (before @ take j ss) (ss ! j))"
proof (induction ss arbitrary: i before)
  case Nil
  then show ?case by simp
next
  case (Cons s ss)
  have "check_all_names i (s # ss) (names_after before) = [] \<longleftrightarrow>
      names_fit before s \<and> check_all_names (Suc i) ss (names_after (before @ [s])) = []"
    by (simp add: case_prod_beta check_names_after check_names_Nil_iff)
  then show ?case unfolding Cons.IH by (auto simp: nth_Cons' less_Suc_eq_0_disj take_Cons')
qed

text \<open>C20: Validation finds no fault with the connection names of a step list exactly when every
  name a step uses was opened by an earlier step and not closed since, and no open name is opened
  a second time.\<close>

theorem connection_names_checked:
  "validate_connection_names ss = [] \<longleftrightarrow> (\<forall>i < length ss. names_fit (take i ss) (ss ! i))"
  using check_all_names_Nil_iff [of 0 ss "[]"] by (simp add: validate_connection_names_def names_after_Nil)

definition bare_scenario :: "network option \<Rightarrow> step_def list \<Rightarrow> scenario" where
  "bare_scenario net ss = \<lparr>sc_name = [], sc_description = None, sc_target_address = None, sc_network_magic = 0,
     sc_trace_output_path = [], sc_expected_outcome = None, sc_network = net, sc_steps = ss,
     sc_sut_genesis_time_unix = None, sc_sut_slot_duration_ms = None\<rparr>"

theorem connection_names_checked_witness:
  "names_fit [plain_step Connect] (plain_step ChainSync) \<and> \<not> names_fit [] (plain_step ChainSync)"
proof -
  have "validate_connection_names [plain_step Connect, plain_step ChainSync] = []"
    by (simp add: validate_connection_names_def check_names_def no_open_names_def plain_step_def
      err_if_def uses_client_def as_name_def on_name_def)
  then have "names_fit [plain_step Connect] (plain_step ChainSync)"
    unfolding connection_names_checked by (auto dest: spec [of _ 1])
  moreover have "\<not> names_fit [] (plain_step ChainSync)"
    by (simp add: names_fit_def plain_step_def uses_client_def client_open_def)
  ultimately show ?thesis by blast
qed

section \<open>Nested steps\<close>

inductive within :: "step_def \<Rightarrow> step_def list \<Rightarrow> bool" where
  within_here: "s \<in> set ss \<Longrightarrow> within s ss"
| within_body: "t \<in> set ss \<Longrightarrow> within s (body_steps t) \<Longrightarrow> within s ss"
| within_branch: "t \<in> set ss \<Longrightarrow> b \<in> set (branch_steps t) \<Longrightarrow> within s b \<Longrightarrow> within s ss"

lemma within_Nil [simp]: "\<not> within s []"
  by (auto elim: within.cases)

lemma within_Cons:
  "within s (t # ss) \<longleftrightarrow> s = t \<or> within s (body_steps t) \<or> (\<exists>b \<in> set (branch_steps t). within s b) \<or> within s ss"
  (is "?l \<longleftrightarrow> ?r")
proof
  assume ?l
  then show ?r by (cases rule: within.cases) (auto intro: within.intros)
next
  assume ?r
  moreover have "within s (t # ss)" if "within s ss"
    using that by (cases rule: within.cases) (auto intro: within.intros)
  ultimately show ?l by (auto intro: within.intros)
qed

definition peer_declared :: "network option \<Rightarrow> step_def \<Rightarrow> bool" where
  "peer_declared net s \<longleftrightarrow> (case param ''as_peer'' s of
     Some (JString x) \<Rightarrow> (\<exists>n. net = Some n \<and> x \<in> peer_id ` set (net_peers n))
   | _ \<Rightarrow> True)"

lemma as_peer_errors_Nil: "as_peer_errors net i s = [] \<longleftrightarrow> peer_declared net s"
  by (auto simp: as_peer_errors_def peer_declared_def list_ex_iff split: option.split json.split)

text \<open>No \<open>as_peer\<close> error is reported exactly when every step that names a peer, at any depth
  of bodies and branches, names one that the network block declares.\<close>

theorem as_peer_refs_checked:
  "walk_as_peer_refs net i ss = [] \<longleftrightarrow> (\<forall>s. within s ss \<longrightarrow> peer_declared net s)"
  by (induction net i ss rule: walk_as_peer_refs.induct)
    (auto simp: as_peer_errors_Nil within_Cons)

theorem as_peer_refs_checked_witness:
  "\<not> (\<forall>s. within s [plain_step Repeat\<lparr>sd_raw_params := JObject [(''body'',
      JArray [JObject [(''as_peer'', JString ''x''), (''kind'', JString ''serve_chain_sync'')]])]\<rparr>]
    \<longrightarrow> peer_declared None s)"
proof -
  have "walk_as_peer_refs None 0 [plain_step Repeat\<lparr>sd_raw_params := JObject [(''body'',
      JArray [JObject [(''as_peer'', JString ''x''), (''kind'', JString ''serve_chain_sync'')]])]\<rparr>] \<noteq> []"
    by (simp add: plain_step_def body_steps_def param_def steps_from_value_def step_def_from_value_def Let_def
      take_field_def as_peer_errors_def step_kind_from_value_def step_kind_of_name_def all_step_kinds_def)
  then show ?thesis unfolding as_peer_refs_checked .
qed

section \<open>Connect addresses\<close>

definition lacks_address :: "step_def \<Rightarrow> bool" where
  "lacks_address s \<longleftrightarrow> sd_kind s = Connect \<and> \<not> has_param ''target_address'' s"

abbreviation some_without_own :: "(usize \<times> bool) list \<Rightarrow> bool" where
  "some_without_own out \<equiv> list_ex (\<lambda>(_, has_own). \<not> has_own) out"

lemma fold_collect:
  assumes "\<And>b acc. b \<in> set bs \<Longrightarrow> some_without_own (snd (f b acc)) \<longleftrightarrow> some_without_own (snd acc) \<or> q b"
  shows "some_without_own (snd (fold f bs acc)) \<longleftrightarrow> some_without_own (snd acc) \<or> (\<exists>b \<in> set bs. q b)"
  using assms
proof (induction bs arbitrary: acc)
  case (Cons b bs)
  then show ?case by simp
qed simp

lemma collect_connect_steps_iff:
  "some_without_own (snd (collect_connect_steps ss acc)) \<longleftrightarrow>
     some_without_own (snd acc) \<or> (\<exists>s. within s ss \<and> lacks_address s)"
proof (induction ss acc rule: collect_connect_steps.induct)
  case (1 acc)
  then show ?case by simp
next
  case (2 s ss counter out)
  note IH = 2
  let ?acc1 = "(Suc counter, if sd_kind s = Connect then out @ [(counter, has_param ''target_address'' s)] else out)"
  have one: "some_without_own (snd ?acc1) \<longleftrightarrow> some_without_own out \<or> lacks_address s"
    by (auto simp: lacks_address_def)
  have body: "some_without_own (snd (collect_connect_steps (body_steps s) ?acc1)) \<longleftrightarrow>
      some_without_own (snd ?acc1) \<or> (\<exists>x. within x (body_steps s) \<and> lacks_address x)"
    by (rule IH(1) [OF refl])
  have branches: "some_without_own (snd (fold collect_connect_steps (branch_steps s) acc2)) \<longleftrightarrow>
      some_without_own (snd acc2) \<or> (\<exists>b \<in> set (branch_steps s). \<exists>x. within x b \<and> lacks_address x)"
    if "acc2 = collect_connect_steps (body_steps s) ?acc1" for acc2
    by (rule fold_collect) (rule IH(2) [OF refl that])
  show ?case
    unfolding collect_connect_steps.simps Let_def IH(3) [OF refl refl refl] branches [OF refl] body one
    by (auto simp: within_Cons)
qed

text \<open>The address check passes exactly when the scenario has a target address or every
  \<open>connect\<close> step, at any depth of bodies and branches, has its own.\<close>

theorem connect_addresses_checked:
  "validate_connect_addresses sc = [] \<longleftrightarrow>
     sc_target_address sc \<noteq> None \<or>
     (\<forall>s. within s (sc_steps sc) \<and> sd_kind s = Connect \<longrightarrow> has_param ''target_address'' s)"
  using collect_connect_steps_iff [of "sc_steps sc" "(0, [])"]
  by (auto simp: validate_connect_addresses_def Let_def lacks_address_def)

theorem connect_addresses_checked_witness:
  "\<not> (\<exists>s. within s [plain_step Handshake] \<and> sd_kind s = Connect \<and> \<not> has_param ''target_address'' s) \<and>
   (\<exists>s. within s [plain_step Connect] \<and> sd_kind s = Connect \<and> \<not> has_param ''target_address'' s)"
proof -
  have "validate_connect_addresses (bare_scenario None [plain_step Handshake]) = []"
    "validate_connect_addresses (bare_scenario None [plain_step Connect]) \<noteq> []"
    by (simp_all add: validate_connect_addresses_def bare_scenario_def plain_step_def body_steps_def
      branch_steps_def param_def has_param_def err_if_def)
  then show ?thesis unfolding connect_addresses_checked by (simp add: bare_scenario_def)
qed

section \<open>The declared network\<close>

lemma first_descent_None: "first_descent i xs = None \<longleftrightarrow> sorted_wrt (<) xs"
proof (induction i xs rule: first_descent.induct)
  case (1 i a b xs)
  have "sorted_wrt (<) (a # b # xs) \<longleftrightarrow> a < b \<and> sorted_wrt (<) (b # xs)"
    by (rule sorted_wrt2) (rule transp_on_less)
  moreover have "b \<le> a \<longleftrightarrow> \<not> a < b" by (simp add: not_less)
  ultimately show ?case using 1 by (simp del: sorted_wrt.simps)
qed simp_all

lemma production_rule_checked:
  assumes "production_rule_errors pos start r = []"
  shows "slots_increase r \<and> rule_context_of r \<noteq> Panic"
  using assms
proof (cases r)
  case (BrokenPrevHash f i bs wh)
  with assms have "list_all is_ascii_hexdigit wh" "length wh = 2 * 32"
    by (auto simp: wrong_hash_errors_def list_all_iff list_ex_iff)
  then obtain bytes where "decode_hex_at wh = Ok bytes"
    using decode_hexdigits unfolding decode_hex_at_def by blast
  with BrokenPrevHash show ?thesis by simp
qed (auto simp: at_slots_errors_def first_descent_None split: if_splits option.splits)

definition peer_checked :: "u64 option \<Rightarrow> peer \<Rightarrow> bool" where
  "peer_checked start p \<longleftrightarrow> has_content p \<and> (case production_rule p of None \<Rightarrow> True
     | Some r \<Rightarrow> production_rule_errors (''network.peers['' @ quoted (peer_id p) @ '']'') start r = [])"

lemma peer_errors_Nil: "peer_errors start seen p = [] \<longleftrightarrow> peer_id p \<notin> seen \<and> peer_checked start p"
  by (cases "production_rule p") (simp_all add: peer_errors_def peer_checked_def)

lemma peers_checked:
  "peers_errors start seen ps = [] \<longleftrightarrow>
     (\<forall>p \<in> set ps. peer_id p \<notin> seen \<and> peer_checked start p) \<and> distinct (map peer_id ps)"
proof (induction ps arbitrary: seen)
  case (Cons p ps)
  show ?case unfolding peers_errors.simps append_is_Nil_conv peer_errors_Nil Cons.IH by (auto simp: image_iff)
qed simp

lemma validate_Ok:
  assumes "validate sc = Ok ()"
  shows "validate_network_declaration sc = []" "validate_connection_names (sc_steps sc) = []"
    "validate_connect_addresses sc = []" "walk_as_peer_refs (sc_network sc) 0 (sc_steps sc) = []"
proof -
  from assms have "validation_errors sc = Ok []"
    by (cases "validation_errors sc") (simp_all add: validate_def split: if_splits)
  then show "validate_network_declaration sc = []" "validate_connection_names (sc_steps sc) = []"
    "validate_connect_addresses sc = []" "walk_as_peer_refs (sc_network sc) 0 (sc_steps sc) = []"
    by (simp_all add: validation_errors_def case_prod_beta)
qed

text \<open>C21: The clock of a validated network can always advance: whatever chains its peers have
  grown, the production rules it declares run to completion without a panic between any two slots
  that leave room for one interval below the 64-bit bound.\<close>

theorem validated_network_advances:
  assumes "validate sc = Ok ()" "sc_network sc = Some net"
    and "map fst peers = map peer_id (net_peers net)"
    and "map (ps_production_rule \<circ> snd) peers = map production_rule (net_peers net)"
    and "\<forall>p \<in> set (net_peers net). \<forall>r. production_rule p = Some r \<longrightarrow> unat (old + 1) + rule_interval r < 2 ^ 64"
    and "unat new < 2 ^ 64 - 1"
  shows "\<exists>evs peers'. apply_production_rules h peers old new = Some (Ok (evs, peers'))"
proof -
  from validate_Ok(1) [OF assms(1)] assms(2) have chk: "peers_errors (start_slot net) {} (net_peers net) = []"
    by (simp add: validate_network_declaration_def)
  then have dist: "distinct (map fst peers)" unfolding assms(3) peers_checked by blast
  have "peer_ready old new (snd x)" if x: "x \<in> set peers" for x
  proof -
    from x have "(ps_production_rule \<circ> snd) x \<in> set (map production_rule (net_peers net))"
      unfolding assms(4) [symmetric] by (simp only: set_map imageI)
    then obtain p where p: "p \<in> set (net_peers net)" "ps_production_rule (snd x) = production_rule p"
      by auto
    show ?thesis
    proof (cases "production_rule p")
      case None
      with p(2) show ?thesis by (simp add: peer_ready_def)
    next
      case (Some r)
      have "peer_checked (start_slot net) p" using chk p(1) unfolding peers_checked by blast
      then have "production_rule_errors (''network.peers['' @ quoted (peer_id p) @ '']'') (start_slot net) r = []"
        unfolding peer_checked_def Some by simp
      then have "slots_increase r \<and> rule_context_of r \<noteq> Panic" by (rule production_rule_checked)
      moreover have "unat (old + 1) + rule_interval r < 2 ^ 64" using assms(5) p(1) Some by blast
      ultimately show ?thesis
        unfolding peer_ready_def p(2) Some range_ok_def option.case using assms(6) by blast
    qed
  qed
  then show ?thesis using apply_production_rules_eq [OF dist, of old new h] by blast
qed

theorem validated_network_advances_witness:
  "\<exists>evs peers'. apply_production_rules id [(''a'', peer_state_new\<lparr>ps_production_rule := Some (EveryNSlots 1 2)\<rparr>)] 0 9
     = Some (Ok (evs, peers'))"
proof (rule validated_network_advances)
  let ?net = "\<lparr>net_peers = [\<lparr>peer_id = ''a'', chain_sync_fixture = None, block_fetch_fixture = None,
    peer_description = None, production_rule = Some (EveryNSlots 1 2)\<rparr>], start_slot = None, slot_length_ms = None\<rparr>"
  show "validate (bare_scenario (Some ?net) []) = Ok ()"
    by (simp add: validate_def validation_errors_def bare_scenario_def mixing_errors_def err_if_def
      validate_connection_names_def validate_connect_addresses_def validate_network_declaration_def
      peer_errors_def has_content_def interval_errors_def start_errors_def)
  show "sc_network (bare_scenario (Some ?net) []) = Some ?net" by (simp add: bare_scenario_def)
qed (simp_all add: peer_state_new_def)

end
