(* ===== verification/RunnerLaws.thy ===== *)
theory RunnerLaws
  imports RunLoop PeerLaws ChainSyncLaws ValidateLaws
begin

text \<open>
  Facts on the runner: the clock, the peers' chains, the assertions of a step, what a step's
  bookkeeping reports, the verdict of a run, and what a \<open>serve_chain_sync as_peer\<close> sends.
\<close>

text \<open>An environment without files, for the concrete instances.\<close>

definition bare_env :: env where
  "bare_env = \<lparr>parse_json = (\<lambda>_. anyhow ''no json''), render_json = (\<lambda>_. []), read_lines = (\<lambda>_. None), blake2b_256 = id,
     resolve_address = (\<lambda>_. Inr []), dial = (\<lambda>_ _. Inl ''refused''), bind_address = (\<lambda>_. None), accept = (\<lambda>_. None),
     write_error = (\<lambda>_. None), version_keys = (\<lambda>_. [])\<rparr>"

section \<open>Running steps\<close>

lemma run_steps_simps [run_simps]:
  "asks f s = Some (Ok (f (fst s)), s)"
  "io_run i (rn, w) = Some (fst (i w), rn, snd (i w))"
  by (simp_all add: asks_def io_run_def split_beta)

lemma do_emit_reliable [run_simps]: "reliable w \<Longrightarrow> do_emit t e (rn, w) = Some (Ok (), rn, logged t e w)"
  by (simp add: do_emit_def run_simps)

lemma try_emit_reliable [run_simps]: "reliable w \<Longrightarrow> try_emit t e (rn, w) = Some (Ok (), rn, logged t e w)"
  by (simp add: try_emit_def run_simps)

definition logged_all :: "tracer \<Rightarrow> trace_event list \<Rightarrow> world \<Rightarrow> world" where
  "logged_all t es w = fold (logged t) es w"

lemma logged_all_simps [simp]:
  "logged_all t [] w = w" "logged_all t (e # es) w = logged_all t es (logged t e w)"
  by (simp_all add: logged_all_def)

lemma logged_all_append: "logged_all t (es @ es') w = logged_all t es' (logged_all t es w)"
  by (simp add: logged_all_def)

lemma logged_all_fields [simp]:
  "reliable (logged_all t es w) = reliable w" "slot_cell (logged_all t es w) = slot_cell w"
  "wire_out (logged_all t es w) = wire_out w"
  "trace_file (logged_all t es w) = trace_file w @ map (stamp t (slot_cell w)) es"
  "event_buffer (logged_all t es w) =
     event_buffer w @ map (\<lambda>e. trace_event_to_value (stamp t (slot_cell w) e)) es"
  by (induction es arbitrary: w) simp_all

lemma try_emit_all_reliable [run_simps]:
  "reliable w \<Longrightarrow> try_emit_all t es (rn, w) = Some (Ok (), rn, logged_all t es w)"
  by (induction es arbitrary: w) (simp_all add: run_simps)

section \<open>The clock\<close>

definition production_trace :: "production_event list \<Rightarrow> trace_event list" where
  "production_trace evs = concat (map (\<lambda>ev. production_fired_event ev #
     (if pe_skipped ev then [] else [production_extended_event ev])) evs)"

lemma emit_production_events_reliable [run_simps]:
  "reliable w \<Longrightarrow> emit_production_events t evs w = (Ok (), logged_all t (production_trace evs) w)"
  by (induction evs arbitrary: w) (simp_all add: production_trace_def run_simps)

definition slot_advanced_event :: "u64 \<Rightarrow> u64 \<Rightarrow> string \<Rightarrow> trace_event" where
  "slot_advanced_event a b reason = with_slot b (new_event SlotAdvanced Internal (jobj
       [(''from_slot'', jnum a), (''to_slot'', jnum b), (''reason'', JString reason)]))"

lemma emit_slot_advanced_reliable [run_simps]:
  "reliable w \<Longrightarrow> emit_slot_advanced t a b reason w = (Ok (), logged t (slot_advanced_event a b reason) w)"
  by (simp add: emit_slot_advanced_def slot_advanced_event_def run_simps)

lemma reliable_slot [simp]: "reliable (w\<lparr>slot_cell := n\<rparr>) = reliable w"
  by (simp add: reliable_def)

lemma advance_to_slot_run:
  assumes "reliable w" "rn_current_slot rn = Some h" "sp_slot params = Some new" "slot_cell w < new"
    and "apply_production_rules (blake2b_256 e) (rn_peers rn) (slot_cell w) new = Some (Ok (evs, peers))"
  shows "advance_to_slot e t params (rn, w) = Some (Ok (), rn\<lparr>rn_peers := peers\<rparr>,
    logged_all t (slot_advanced_event (slot_cell w) new ''advance_to_slot'' # production_trace evs)
      (w\<lparr>slot_cell := new\<rparr>))"
  using assms by (simp add: advance_to_slot_def load_slot_def store_slot_def produce_def run_simps not_le)

text \<open>A successful \<open>advance_to_slot\<close> puts the clock on the requested later slot, runs the
  production rules exactly over the slots in between, and traces the advance and then every event
  of production, all stamped with the new slot.\<close>

theorem advance_to_slot_moves_clock:
  assumes "reliable w" "rn_current_slot rn = Some h" "tc_current_slot t = Some h'"
    and "sp_slot params = Some new" "slot_cell w < new"
    and "distinct (map fst (rn_peers rn))" "\<forall>p \<in> set (rn_peers rn). peer_ready (slot_cell w) new (snd p)"
  shows "\<exists>evs peers w'. apply_production_rules (blake2b_256 e) (rn_peers rn) (slot_cell w) new = Some (Ok (evs, peers)) \<and>
    advance_to_slot e t params (rn, w) = Some (Ok (), rn\<lparr>rn_peers := peers\<rparr>, w') \<and> slot_cell w' = new \<and>
    trace_file w' = trace_file w @ map (stamp t new)
      (slot_advanced_event (slot_cell w) new ''advance_to_slot'' # production_trace evs) \<and>
    (\<forall>ev \<in> set (drop (length (trace_file w)) (trace_file w')). te_slot ev = Some new)"
proof -
  obtain evs peers where p: "apply_production_rules (blake2b_256 e) (rn_peers rn) (slot_cell w) new = Some (Ok (evs, peers))"
    using apply_production_rules_eq [OF assms(6,7)] by blast
  have slot: "te_slot (stamp t new x) = Some new" if "te_slot x = None \<or> te_slot x = Some new" for x
    using that assms(3) by (auto simp: stamp_def Let_def)
  have none: "te_slot x = None" if "x \<in> set (production_trace evs)" for x
    using that by (auto simp: production_trace_def production_fired_event_def production_extended_event_def
      new_event_def Let_def split: if_splits)
  show ?thesis
    using advance_to_slot_run [OF assms(1,2,4,5) p] p none
    by (auto simp: slot_advanced_event_def intro!: slot)
qed

theorem advance_to_slot_moves_clock_witness:
  "\<exists>rn' w'. advance_to_slot bare_env (tracer_open\<lparr>tc_current_slot := Some SlotHandle\<rparr>) (no_params\<lparr>sp_slot := Some 9\<rparr>)
      (runner_default\<lparr>rn_current_slot := Some SlotHandle,
         rn_peers := [(''a'', peer_state_new\<lparr>ps_production_rule := Some (EveryNSlots 1 2)\<rparr>)]\<rparr>, fresh_world)
    = Some (Ok (), rn', w') \<and> slot_cell w' = 9"
  using advance_to_slot_moves_clock [of fresh_world "runner_default\<lparr>rn_current_slot := Some SlotHandle,
       rn_peers := [(''a'', peer_state_new\<lparr>ps_production_rule := Some (EveryNSlots 1 2)\<rparr>)]\<rparr>" SlotHandle
     "tracer_open\<lparr>tc_current_slot := Some SlotHandle\<rparr>" SlotHandle "no_params\<lparr>sp_slot := Some 9\<rparr>" 9 bare_env]
  by (auto simp: fresh_world_def reliable_def peer_ready_def range_ok_def peer_state_new_def)

lemma slot_cell_emit: "slot_cell (snd (emit t e w)) = slot_cell w"
  using sess_emit [of t e] by (simp add: keeps_def session_extends_def)

lemma sess_emit_production: "keeps session_extends (emit_production_events t evs)"
  by (induction evs) (auto intro!: sess_rules)

lemma sess_emit_slot_advanced: "keeps session_extends (emit_slot_advanced t a b reason)"
  unfolding emit_slot_advanced_def by (rule sess_emit)

definition chains_extend :: "peers \<Rightarrow> peers \<Rightarrow> bool" where
  "chains_extend ps qs \<longleftrightarrow> map fst qs = map fst ps \<and>
     (\<forall>k p. map_of ps k = Some p \<longrightarrow> (\<exists>q. map_of qs k = Some q \<and> extends_peer p q))"

lemma chains_extend_refl [simp]: "chains_extend ps ps"
  by (auto simp: chains_extend_def extends_peer_refl)

lemma production_chains_extend:
  assumes "apply_production_rules h peers old new = Some (Ok (evs, peers'))"
  shows "chains_extend peers peers'"
proof -
  from assms obtain ts where "run_tasks h ts peers = Ok (evs, peers')"
    by (auto simp: apply_production_rules_def try_div_def split: option.splits res.splits)
  then show ?thesis unfolding chains_extend_def by (rule run_tasks_extends)
qed

definition grown :: "runner \<times> world \<Rightarrow> runner \<times> world \<Rightarrow> bool" where
  "grown s s' \<longleftrightarrow> slot_cell (snd s) = slot_cell (snd s') \<and> extends (snd s) (snd s') \<and>
     (\<exists>peers. chains_extend (rn_peers (fst s)) peers \<and> fst s' = (fst s)\<lparr>rn_peers := peers\<rparr>)"

lemma same_peers [simp]: "\<exists>peers. chains_extend (rn_peers rn) peers \<and> rn = rn\<lparr>rn_peers := peers\<rparr>"
  by (intro exI [of _ "rn_peers rn"]) simp

lemma io_run_grown:
  assumes "keeps session_extends m" "io_run m s = Some (r, s')"
  shows "grown s s'"
proof -
  obtain rn w where s: "s = (rn, w)" by (cases s)
  obtain x w' where "m w = (x, w')" by (cases "m w")
  with assms s keepsD [OF assms(1), of w x w'] show ?thesis
    by (auto simp: io_run_def grown_def session_extends_def)
qed

lemma chains_extend_trans:
  assumes "chains_extend ps qs" "chains_extend qs rs"
  shows "chains_extend ps rs"
  unfolding chains_extend_def
proof (intro conjI allI impI)
  show "map fst rs = map fst ps" using assms by (simp add: chains_extend_def)
  fix k p
  assume "map_of ps k = Some p"
  with assms(1) obtain q where q: "map_of qs k = Some q" "extends_peer p q" by (auto simp: chains_extend_def)
  with assms(2) obtain x where "map_of rs k = Some x" "extends_peer q x" by (auto simp: chains_extend_def)
  with q(2) extends_peer_trans show "\<exists>x. map_of rs k = Some x \<and> extends_peer p x" by blast
qed

lemma grown_trans:
  assumes "grown s1 s2" "grown s2 s3"
  shows "grown s1 s3"
proof -
  from assms(1) obtain p where p: "chains_extend (rn_peers (fst s1)) p" "fst s2 = (fst s1)\<lparr>rn_peers := p\<rparr>"
    by (auto simp: grown_def)
  from assms(2) obtain q where q: "chains_extend (rn_peers (fst s2)) q" "fst s3 = (fst s2)\<lparr>rn_peers := q\<rparr>"
    by (auto simp: grown_def)
  from p q have "chains_extend (rn_peers (fst s1)) q" "fst s3 = (fst s1)\<lparr>rn_peers := q\<rparr>"
    using chains_extend_trans [OF p(1), of q] by simp_all
  with assms show ?thesis unfolding grown_def by (auto intro: extends_trans)
qed

lemma produce_grown: "produce e a b s = Some (r, s') \<Longrightarrow> grown s s'"
  by (auto simp: produce_def grown_def extends_refl split: prod.splits option.splits res.splits
      dest: production_chains_extend)

lemma production_tail_grown:
  assumes "bind_run (produce e a b) (\<lambda>evs.
      bind_run (io_run (emit_slot_advanced t a b reason)) (\<lambda>_. io_run (emit_production_events t evs))) s = Some (r, s')"
  shows "grown s s'"
  using assms unfolding bind_run_Some
  by (auto dest!: produce_grown io_run_grown [OF sess_emit_slot_advanced] io_run_grown [OF sess_emit_production]
      intro: grown_trans)

text \<open>C25: Whatever fails, \<open>advance_to_slot\<close> never turns the clock back and never shortens a chain:
  the clock stays or takes the requested later slot, it is later when the step succeeds, the trace
  only grows, and of the runner's state only the peers' chains change, by extension.\<close>

theorem advance_to_slot_monotone:
  assumes "advance_to_slot e t params (rn, w) = Some (r, rn', w')"
  shows "slot_cell w \<le> slot_cell w' \<and> (r = Ok () \<longrightarrow> slot_cell w < slot_cell w' \<and> sp_slot params = Some (slot_cell w')) \<and>
    chains_extend (rn_peers rn) (rn_peers rn') \<and> rn' = rn\<lparr>rn_peers := rn_peers rn'\<rparr> \<and> extends w w'"
proof (cases "sp_slot params")
  case None
  with assms show ?thesis by (auto simp: advance_to_slot_def bind_run_def res_run_def anyhow_def extends_refl)
next
  case (Some new)
  show ?thesis
  proof (cases "rn_current_slot rn = None \<or> new \<le> slot_cell w")
    case True
    with assms Some show ?thesis
      by (auto simp: advance_to_slot_def bind_run_def res_run_def anyhow_def load_slot_def extends_refl
          split: option.splits if_splits)
  next
    case False
    then obtain h where h: "rn_current_slot rn = Some h" and lt: "slot_cell w < new" by auto
    have "advance_to_slot e t params (rn, w) = bind_run (produce e (slot_cell w) new) (\<lambda>evs.
        bind_run (io_run (emit_slot_advanced t (slot_cell w) new ''advance_to_slot'')) (\<lambda>_.
        io_run (emit_production_events t evs))) (rn, w\<lparr>slot_cell := new\<rparr>)"
      using Some h not_le [THEN iffD2, OF lt] by (simp add: advance_to_slot_def load_slot_def store_slot_def run_simps)
    with assms have "grown (rn, w\<lparr>slot_cell := new\<rparr>) (rn', w')"
      by (intro production_tail_grown) simp
    with lt Some show ?thesis by (auto simp: grown_def extends_def)
  qed
qed

theorem advance_to_slot_monotone_witness:
  "\<exists>r rn' w'. advance_to_slot bare_env tracer_open (no_params\<lparr>sp_slot := Some 3\<rparr>)
      (runner_default\<lparr>rn_current_slot := Some SlotHandle\<rparr>, fresh_world\<lparr>slot_cell := 5\<rparr>) = Some (r, rn', w') \<and>
    5 \<le> slot_cell w'"
proof -
  obtain r rn' w' where run: "advance_to_slot bare_env tracer_open (no_params\<lparr>sp_slot := Some 3\<rparr>)
      (runner_default\<lparr>rn_current_slot := Some SlotHandle\<rparr>, fresh_world\<lparr>slot_cell := 5\<rparr>) = Some (r, rn', w')"
    by (simp add: advance_to_slot_def load_slot_def run_simps)
  from advance_to_slot_monotone [OF run] run show ?thesis by simp
qed

text \<open>A clock that is set back fires nothing.\<close>

lemma no_production_backwards:
  assumes "new < old" "old \<noteq> - 1"
  shows "apply_production_rules h peers old new = Some (Ok ([], peers))"
proof -
  have "unat old + 1 < 2 ^ 64"
    using assms(2) unat_lt64 [of old] unat_max_u64 by (metis Suc_eq_plus1 Suc_lessI add_diff_cancel_right' unsigned_word_eqI)
  then have "new < old + 1" using assms(1) by (simp add: word_less_nat_alt unat_add_small)
  then have "production_task old new p = Some (Ok None)" for p
    by (simp add: production_task_def slots_in_range_def split: option.split)
  then have "collect_tasks old new peers = Some (Ok [])"
    by (induction peers) (simp_all add: try_div_def)
  then show ?thesis by (simp add: apply_production_rules_def try_div_def)
qed



section \<open>Extending a chain\<close>

lemma push_entry_extends:
  assumes "not_above_tip (ce_slot entry) ps = Ok ()"
  shows "chain_sorted ps \<Longrightarrow> chain_sorted (push_entry entry body ps)"
    and "peer_ok ps \<Longrightarrow> peer_ok (push_entry entry body ps)"
    and "\<not> covered ps (ce_slot entry)"
proof -
  from assms show nc: "\<not> covered ps (ce_slot entry)"
    by (auto simp: not_above_tip_def covered_def split: option.splits if_splits)
  show cs: "chain_sorted (push_entry entry body ps)" if "chain_sorted ps"
    using chain_sorted_snoc [OF that nc refl] by (simp add: chain_sorted_def push_entry_def)
  show "peer_ok (push_entry entry body ps)" if "peer_ok ps"
  proof -
    from that have "chain_sorted ps" "bt_ok (ps_block_store ps)" by (simp_all add: peer_ok_def)
    then show ?thesis
      using cs by (simp add: peer_ok_def push_entry_def bt_ok_insert split: option.split)
  qed
qed



section \<open>Assertions\<close>

definition kinds_of :: "json list \<Rightarrow> string set" where
  "kinds_of events = {k. \<exists>e \<in> set events. json_get ''kind'' e = Some (JString k)}"

definition meets :: "assertions \<Rightarrow> json list \<Rightarrow> bool" where
  "meets a events \<longleftrightarrow>
     (case min_events a of None \<Rightarrow> True | Some n \<Rightarrow> n \<le> length events) \<and>
     (case must_contain_kind a of None \<Rightarrow> True | Some ks \<Rightarrow> set ks \<subseteq> kinds_of events) \<and>
     (case must_not_contain_kind a of None \<Rightarrow> True | Some ks \<Rightarrow> set ks \<inter> kinds_of events = {})"

lemma list_ex_has_kind: "list_ex (has_kind k) events \<longleftrightarrow> k \<in> kinds_of events"
  by (auto simp: list_ex_iff has_kind_def kinds_of_def)

lemma all_passed_iff: "list_all ar_passed (evaluate_assertions a events) \<longleftrightarrow> meets a events"
proof -
  have split: "list_all ar_passed (xs @ map f ks @ map g ls) \<longleftrightarrow>
      list_all ar_passed xs \<and> (\<forall>k \<in> set ks. ar_passed (f k)) \<and> (\<forall>k \<in> set ls. ar_passed (g k))" for xs f ks g ls
    by (auto simp: list_all_iff)
  show ?thesis
    unfolding evaluate_assertions_def split
    by (auto simp: meets_def list_ex_has_kind Let_def split: option.split)
qed

definition expectation_met :: "step_def \<Rightarrow> json list \<Rightarrow> bool" where
  "expectation_met step events = (case sd_expect step of None \<Rightarrow> True | Some a \<Rightarrow> meets a events)"

lemma step_results_passed: "list_all ar_passed (step_results step events) \<longleftrightarrow> expectation_met step events"
  by (simp add: step_results_def expectation_met_def all_passed_iff split: option.split)

section \<open>One step\<close>

text \<open>The world in which the executor runs, and what it hands to the assertions.\<close>

definition step_world :: "tracer \<Rightarrow> usize \<Rightarrow> step_def \<Rightarrow> refs \<Rightarrow> world \<Rightarrow> world" where
  "step_world t idx step refs w =
     logged_all t (map (reference_event idx) refs)
       ((logged t (step_started_event idx step) w)\<lparr>event_buffer := []\<rparr>)"

lemma drained [simp]:
  "reliable (w\<lparr>event_buffer := b\<rparr>) = reliable w" "trace_file (w\<lparr>event_buffer := b\<rparr>) = trace_file w"
  "slot_cell (w\<lparr>event_buffer := b\<rparr>) = slot_cell w" "wire_out (w\<lparr>event_buffer := b\<rparr>) = wire_out w"
  by (simp_all add: reliable_def)

lemma logged_drained: "(logged t e (w\<lparr>event_buffer := b\<rparr>))\<lparr>event_buffer := c\<rparr> = (logged t e w)\<lparr>event_buffer := c\<rparr>"
  by (simp add: logged_def Let_def)

lemma drain_buffer_run [run_simps]: "drain_buffer w = (Ok (event_buffer w), w\<lparr>event_buffer := []\<rparr>)"
  by (simp add: drain_buffer_def)

definition completed_outcome :: "unit res \<Rightarrow> bool \<Rightarrow> string" where
  "completed_outcome r met = (case r of Ok _ \<Rightarrow> if met then ''ok'' else ''assertion_failed'' | _ \<Rightarrow> ''error'')"

definition error_field :: "unit res \<Rightarrow> (string \<times> json) list" where
  "error_field r = (case r of Err e \<Rightarrow> [(''error'', JString (err_to_string e))] | _ \<Rightarrow> [])"

definition step_verdict :: "unit res \<Rightarrow> bool \<Rightarrow> unit res" where
  "step_verdict r met = (case r of Ok _ \<Rightarrow> if met then Ok () else Err assertion_failure | _ \<Rightarrow> r)"

lemma run_step_run:
  assumes "reliable w" "resolve_step idx step (rn_vars rn) = Ok (resolved, refs)"
    and "exec step resolved (rn, step_world t idx step refs w) = Some (r, rn', w1)"
    and "reliable w1" "r \<noteq> Panic"
  shows "run_step exec t step idx (rn, w) = Some (step_verdict r (expectation_met step (event_buffer w1)), rn',
    logged_all t (map (assertion_event idx) (step_results step (event_buffer w1))
        @ [step_completed_event idx (completed_outcome r (expectation_met step (event_buffer w1))) (error_field r)])
      (w1\<lparr>event_buffer := []\<rparr>))"
proof (cases r)
  case (Ok u)
  with assms show ?thesis
    by (simp add: run_step_def run_simps logged_drained step_world_def finish_step_def step_results_passed
        completed_outcome_def error_field_def step_verdict_def Let_def logged_all_append)
next
  case (Err e)
  with assms show ?thesis
    by (simp add: run_step_def run_simps logged_drained step_world_def finish_step_def step_results_passed
        completed_outcome_def error_field_def step_verdict_def Let_def logged_all_append)
next
  case Panic
  with assms(5) show ?thesis by simp
qed



text \<open>A reference that cannot be resolved ends the step before it is executed, and without a
  completion event: the trace has only the start of the step, and the caller gets the error.\<close>

theorem unresolved_step_is_not_executed:
  assumes "reliable w" "resolve_step idx step (rn_vars rn) = Err e"
  shows "\<exists>w'. run_step exec t step idx (rn, w) = Some (Err e, rn, w') \<and>
    trace_file w' = trace_file w @ [stamp t (slot_cell w) (step_started_event idx step)]"
  using assms by (simp add: run_step_def run_simps)

theorem unresolved_step_is_not_executed_witness:
  "\<exists>e w'. run_step exec tracer_open (plain_step Sleep\<lparr>sd_raw_params := JObject [(''duration_secs'', JString ''$x'')]\<rparr>) 0
      (runner_default, fresh_world) = Some (Err e, runner_default, w') \<and> length (trace_file w') = 1"
proof -
  let ?step = "plain_step Sleep\<lparr>sd_raw_params := JObject [(''duration_secs'', JString ''$x'')]\<rparr>"
  obtain e where "resolve_step 0 ?step (rn_vars runner_default) = Err e"
    by (simp add: resolve_step_def substitute_in_value_def step_input_def plain_step_def runner_default_def
      substitute_string_def str_contains_def str_find.simps resolve_ref_def split_once_def anyhow_def)
  from unresolved_step_is_not_executed [OF reliable_fresh_world(1) this, of exec tracer_open] show ?thesis by auto
qed

section \<open>The run\<close>

inductive all_ok :: "(step_def \<Rightarrow> usize \<Rightarrow> unit run) \<Rightarrow> usize \<Rightarrow> step_def list
    \<Rightarrow> runner \<times> world \<Rightarrow> runner \<times> world \<Rightarrow> bool" for run1 where
  all_ok_Nil: "all_ok run1 i [] s s"
| all_ok_Cons: "run1 x i s = Some (Ok (), s1) \<Longrightarrow> all_ok run1 (Suc i) xs s1 s2 \<Longrightarrow> all_ok run1 i (x # xs) s s2"

inductive_simps all_ok_simps [simp]: "all_ok run1 i [] s s'" "all_ok run1 i (x # xs) s s'"

lemma first_failure_Cons:
  "(\<exists>k s1. k < length (x # xs) \<and> all_ok run1 i (take k (x # xs)) s s1 \<and>
      run1 ((x # xs) ! k) (i + k) s1 = Some (Err e, s') \<and> m = n + of_nat k) \<longleftrightarrow>
    (\<exists>s2. run1 x i s = Some (Ok (), s2) \<and> (\<exists>k s1. k < length xs \<and> all_ok run1 (Suc i) (take k xs) s2 s1 \<and>
      run1 (xs ! k) (Suc i + k) s1 = Some (Err e, s') \<and> m = n + (1 + of_nat k))) \<or>
    run1 x i s = Some (Err e, s') \<and> m = (n :: u64)" (is "?l \<longleftrightarrow> ?r")
proof
  assume ?l
  then obtain k s1 where k: "k < length (x # xs)" "all_ok run1 i (take k (x # xs)) s s1"
    "run1 ((x # xs) ! k) (i + k) s1 = Some (Err e, s')" "m = n + of_nat k" by blast
  then show ?r by (cases k) (cases s1; auto)+
next
  assume ?r
  then show ?l
  proof (elim disjE exE conjE)
    fix s2 k s1
    assume "run1 x i s = Some (Ok (), s2)" "k < length xs" "all_ok run1 (Suc i) (take k xs) s2 s1"
      "run1 (xs ! k) (Suc i + k) s1 = Some (Err e, s')" "m = n + (1 + of_nat k)"
    then show ?l by (intro exI [of _ "Suc k"] exI [of _ s1]) (cases s2, auto)
  next
    assume "run1 x i s = Some (Err e, s')" "m = n"
    then show ?l by (intro exI [of _ 0] exI [of _ s]) simp
  qed
qed

text \<open>C11: A run executes its steps in order up to the first that fails, with no step skipped and
  none run after it: it reports as many passed steps as came before, and the error of the step
  that failed, or none exactly when all of them succeeded.\<close>

theorem run_stops_at_first_failure:
  "run_steps run1 i ss n s = Some (Ok (m, err), s') \<longleftrightarrow> (case err of
     None \<Rightarrow> all_ok run1 i ss s s' \<and> m = n + of_nat (length ss)
   | Some e \<Rightarrow> \<exists>k s1. k < length ss \<and> all_ok run1 i (take k ss) s s1 \<and>
       run1 (ss ! k) (i + k) s1 = Some (Err e, s') \<and> m = n + of_nat k)"
proof (induction ss arbitrary: i n s)
  case Nil
  then show ?case by (auto simp: res_run_def split: option.split)
next
  case (Cons x xs)
  show ?case
  proof (cases err)
    case None
    then show ?thesis
      using Cons.IH [of "Suc i" "n + 1"] by (auto simp: match_run_Some res_run_def ac_simps)
  next
    case (Some e)
    have "run_steps run1 i (x # xs) n s = Some (Ok (m, err), s') \<longleftrightarrow>
        (\<exists>s1. run1 x i s = Some (Ok (), s1) \<and> run_steps run1 (Suc i) xs (n + 1) s1 = Some (Ok (m, err), s')) \<or>
        run1 x i s = Some (Err e, s') \<and> m = n"
      using Some by (cases s') (auto simp: match_run_Some res_run_def)
    also have "\<dots> \<longleftrightarrow> (\<exists>k s1. k < length (x # xs) \<and> all_ok run1 i (take k (x # xs)) s s1 \<and>
       run1 ((x # xs) ! k) (i + k) s1 = Some (Err e, s') \<and> m = n + of_nat k)"
      unfolding first_failure_Cons using Cons.IH [of "Suc i" "n + 1"] Some by (simp add: add.assoc)
    finally show ?thesis using Some by simp
  qed
qed

theorem run_stops_at_first_failure_witness:
  "all_ok (\<lambda>x i. res_run (Ok ())) 0 [plain_step Sleep, plain_step Sleep] (runner_default, fresh_world)
     (runner_default, fresh_world)"
  using run_stops_at_first_failure [of "\<lambda>x i. res_run (Ok ())" 0 "[plain_step Sleep, plain_step Sleep]" 0
      "(runner_default, fresh_world)" 2 None "(runner_default, fresh_world)"]
  by (simp add: res_run_def match_run_def)

text \<open>C27: The verdict of a run is its last trace event: \<open>completed\<close> without failed steps when no step
  failed, and otherwise one failed step and the class of its error, after every connection that
  was still open has been closed in the trace and dropped, the listeners too.\<close>

theorem run_verdict:
  assumes "reliable w"
  shows "\<exists>rn' w'. conclude t name (passed, err) (rn, w) =
      Some (case err of None \<Rightarrow> Ok () | Some e \<Rightarrow> Err e, rn', w') \<and>
    trace_file w' = trace_file w @ map (stamp t (slot_cell w))
      ((if err = None then [] else map aborted_event (map fst (rn_server_connections rn) @ map fst (rn_connections rn)))
       @ [scenario_completed_event name passed (if err = None then 0 else 1) (env_clock w (clock_reads w))
            (case err of None \<Rightarrow> ''completed'' | Some e \<Rightarrow> outcome_of_error e)]) \<and>
    rn' = (if err = None then rn
           else rn\<lparr>rn_server_connections := [], rn_listeners := {}, rn_connections := []\<rparr>)"
proof -
  have clock: "env_clock (logged_all t es w) = env_clock w \<and> clock_reads (logged_all t es w) = clock_reads w" for es w
    by (induction es arbitrary: w) (simp_all add: logged_def Let_def)
  have fin: "emit_completed t name p f out (x, v) = Some (Ok (), x,
      logged t (scenario_completed_event name p f (env_clock v (clock_reads v)) out) (ticked v))" if "reliable v" for p f out x v
    using that by (simp add: emit_completed_def run_simps)
  show ?thesis
  proof (cases err)
    case None
    with assms fin [OF assms] show ?thesis by (simp add: conclude_def)
  next
    case (Some e)
    have "cleanup t (rn, w) = Some (Ok (), rn\<lparr>rn_server_connections := [], rn_listeners := {}, rn_connections := []\<rparr>,
        logged_all t (map aborted_event (map fst (rn_server_connections rn) @ map fst (rn_connections rn))) w)"
      using assms by (simp add: cleanup_def bind_run_def try_emit_all_reliable logged_all_append)
    with Some assms show ?thesis
      by (simp add: conclude_def run_simps fin clock)
  qed
qed

theorem run_verdict_witness:
  "\<exists>rn' w'. conclude tracer_open ''s'' (1, Some assertion_failure) (runner_default\<lparr>rn_listeners := {''l''}\<rparr>, fresh_world)
      = Some (Err assertion_failure, rn', w') \<and> rn_listeners rn' = {}"
  using run_verdict [OF reliable_fresh_world(1), of tracer_open "''s''" 1 "Some assertion_failure"
      "runner_default\<lparr>rn_listeners := {''l''}\<rparr>"] by auto

section \<open>Serving as a peer\<close>

definition visible_chain :: "peer_state \<Rightarrow> u64 \<Rightarrow> chain_entry list" where
  "visible_chain ps now = filter (\<lambda>e. ce_slot e \<le> now) (ps_chain_entries ps)"

definition tip_of_entries :: "chain_entry list \<Rightarrow> tip" where
  "tip_of_entries es = (if es = [] then Tip Origin 0
     else Tip (Specific (ce_slot (last es)) (ce_block_hash (last es))) (ce_block_number (last es)))"

definition header_of_entry :: "chain_entry \<Rightarrow> header_content" where
  "header_of_entry e = \<lparr>hc_variant = ce_variant e, hc_cbor = ce_header_cbor e\<rparr>"

lemma filtered_entries: "fc_entries (filtered_fixture_chain ps (Some now)) = map to_fixture_entry (visible_chain ps now)"
  by (simp add: filtered_fixture_chain_def visible_chain_def)

lemma filtered_tip: "chain_tip (filtered_fixture_chain ps (Some now)) = Ok (tip_of_entries (visible_chain ps now))"
  by (simp add: chain_tip_def filtered_entries tip_of_entries_def last_map to_fixture_entry_def)
    (simp add: filtered_fixture_chain_def)

lemma filtered_contents:
  "mapM_res entry_to_header_content (map to_fixture_entry es) = Ok (map header_of_entry es)"
  by (simp add: mapM_res_Ok_iff entry_to_header_content_def to_fixture_entry_def header_of_entry_def)

text \<open>C1: A connection served as a peer sends the client that peer's chain as far as the current
  slot and nothing later: from genesis, each header once, byte for byte as the peer holds it, with
  the tip of the visible chain, and \<open>AwaitReply\<close> to a client that asks past it. The connection
  then carries the peer's identity and its channel is used up.\<close>

theorem peer_served_up_to_current_slot:
  assumes "reliable w" "map_of (rn_server_connections rn) (name_or_default (sd_on_name step)) = Some sc"
    and "sv_cs_channels sc = Some (map Inr (FindIntersect [Origin] # replicate k RequestNext @ [ChainSyncDoneMsg]))"
    and "json_get ''responses'' (sd_raw_params step) = None" "sp_as_peer params = Some pid"
    and "rn_network rn = Some net" "pid \<in> peer_id ` set (net_peers net)" "rn_current_slot rn = Some h"
    and "map_of (rn_peers rn) pid = Some ps" "ps_chain_entries ps \<noteq> []"
    and "k \<le> Suc (length (visible_chain ps (slot_cell w)))"
  shows "\<exists>rn' w'. serve_chain_sync e t step params (rn, w) = Some (Ok (), rn', w') \<and>
    wire_out w' = wire_out w @ [CsWire (IntersectFound Origin (tip_of_entries (visible_chain ps (slot_cell w))))]
      @ map (\<lambda>x. CsWire (RollForward (header_of_entry x) (tip_of_entries (visible_chain ps (slot_cell w)))))
          (take k (visible_chain ps (slot_cell w)))
      @ (if k = Suc (length (visible_chain ps (slot_cell w))) then [CsWire AwaitReply] else []) \<and>
    map_of (rn_server_connections rn') (name_or_default (sd_on_name step)) =
      Some (sc\<lparr>sv_cs_channels := None, sv_peer_id := Some pid\<rparr>)"
proof -
  let ?vis = "visible_chain ps (slot_cell w)"
  let ?chain = "filtered_fixture_chain ps (Some (slot_cell w))"
  let ?rules = "generate_from_fixture ?chain (await_at_tip params)"
  obtain p where p: "lookup_peer (rn_network rn) pid = Ok p"
  proof -
    have "find (\<lambda>p. peer_id p = pid) (net_peers net) \<noteq> None" using assms(7) by (auto simp: find_None_iff)
    then show ?thesis using that assms(6) by (auto simp: lookup_peer_def)
  qed
  have src: "chain_sync_source e (rn\<lparr>rn_server_connections := cs\<rparr>) w params = Ok (Some ?chain)" for cs
    using assms p by (simp add: chain_sync_source_def peer_with_state_def current_slot_of_def)
  have script: "chain_sync_script e step params (Some ?chain) = Ok ?rules"
    using assms(4) by (simp add: chain_sync_script_def)
  have pos: "find_intersect (cursor_new ?chain) [Origin] = Ok (Some 0)"
    by (simp add: point_to_pos_def cursor_new_def filtered_fixture_chain_def)
  have pt: "current_point (set_pos 0 (cursor_new ?chain)) = Ok Origin"
    by (simp add: current_point_def cursor_new_def set_pos_def filtered_fixture_chain_def)
  have hcs: "mapM_res entry_to_header_content (drop (nat 0) (fc_entries ?chain)) = Ok (map header_of_entry ?vis)"
    by (simp add: filtered_entries filtered_contents)
  obtain summary w' where run: "execute_response_script (for_peer_opt t (Some pid)) (Some ?chain) ?rules
      (map Inr (FindIntersect [Origin] # replicate k RequestNext @ [ChainSyncDoneMsg])) w = (Ok summary, w')"
    "wire_out w' = wire_out w @ [CsWire (IntersectFound Origin (tip_of_entries ?vis))]
      @ map (\<lambda>hc. CsWire (RollForward hc (tip_of_entries ?vis))) (take k (map header_of_entry ?vis))
      @ (if k = Suc (length (map header_of_entry ?vis)) then [CsWire AwaitReply] else [])"
    using honest_session [OF assms(1) filtered_tip pos pt hcs, of k "for_peer_opt t (Some pid)" "await_at_tip params"]
      assms(11) by auto
  show ?thesis
    using assms(2,3,5) p src script run
    by (simp add: serve_chain_sync_def checked_out_def take_identity_def run_session_def try_io_def lift_res_def
      ret_def Let_def take_map comp_def update_conv')
qed

theorem peer_served_up_to_current_slot_witness:
  "\<exists>rn rn' w'. serve_chain_sync bare_env tracer_open (plain_step ServeChainSync) (no_params\<lparr>sp_as_peer := Some ''p''\<rparr>)
      (rn, fresh_world\<lparr>slot_cell := 5\<rparr>) = Some (Ok (), rn', w') \<and>
    wire_out w' = [CsWire (IntersectFound Origin (Tip (Specific 3 [1]) 0)),
      CsWire (RollForward \<lparr>hc_variant = 6, hc_cbor = [2]\<rparr> (Tip (Specific 3 [1]) 0)), CsWire AwaitReply]"
proof -
  let ?ps = "peer_state_new\<lparr>ps_chain_entries :=
    [\<lparr>ce_slot = 3, ce_block_hash = [1], ce_block_number = 0, ce_header_cbor = [2], ce_variant = 6\<rparr>,
     \<lparr>ce_slot = 8, ce_block_hash = [3], ce_block_number = 1, ce_header_cbor = [4], ce_variant = 6\<rparr>]\<rparr>"
  let ?net = "\<lparr>net_peers = [\<lparr>peer_id = ''p'', chain_sync_fixture = None, block_fetch_fixture = None,
    peer_description = None, production_rule = None\<rparr>], start_slot = Some 5, slot_length_ms = None\<rparr>"
  let ?sc = "\<lparr>sv_cs_channels = Some (map Inr [FindIntersect [Origin], RequestNext, RequestNext, ChainSyncDoneMsg]),
    sv_bf_channels = None, sv_ts_channels = None,
    sv_ln_channels = None, sv_lf_channels = None, sv_ka_handle = True, sv_peer_id = None\<rparr>"
  let ?rn = "runner_default\<lparr>rn_server_connections := [(''default'', ?sc)], rn_network := Some ?net,
    rn_current_slot := Some SlotHandle, rn_peers := [(''p'', ?ps)]\<rparr>"
  let ?w = "fresh_world\<lparr>slot_cell := 5\<rparr>"
  have vis: "visible_chain ?ps (slot_cell ?w) =
    [\<lparr>ce_slot = 3, ce_block_hash = [1], ce_block_number = 0, ce_header_cbor = [2], ce_variant = 6\<rparr>]"
    by (simp add: visible_chain_def)
  have name: "name_or_default (sd_on_name (plain_step ServeChainSync)) = ''default''"
    by (simp add: name_or_default_def plain_step_def)
  from peer_served_up_to_current_slot [of ?w ?rn "plain_step ServeChainSync" ?sc 2
      "no_params\<lparr>sp_as_peer := Some ''p''\<rparr>" "''p''" ?net SlotHandle ?ps bare_env tracer_open]
  show ?thesis
    unfolding vis name
    by - (rule exI [of _ ?rn], auto simp: tip_of_entries_def header_of_entry_def plain_step_def numeral_2_eq_2)
qed

text \<open>A peer without blocks, although it names its chain, cannot be served without a script: the step
  fails and asks for the parameter that it was given, and the channel is gone.\<close>

theorem empty_peer_cannot_be_served:
  assumes "map_of (rn_server_connections rn) (name_or_default (sd_on_name step)) = Some sc"
    and "sv_cs_channels sc = Some inbox" "json_get ''responses'' (sd_raw_params step) = None"
    and "sp_as_peer params = Some pid" "lookup_peer (rn_network rn) pid = Ok p"
    and "map_of (rn_peers rn) pid = Some ps" "ps_chain_entries ps = []"
  shows "\<exists>rn'. serve_chain_sync e t step params (rn, w) =
    Some (anyhow ''serve_chain_sync: fixture_path or as_peer is required when responses is not set'', rn', w)"
  using assms
  by (simp add: serve_chain_sync_def checked_out_def take_identity_def run_session_def chain_sync_source_def
    peer_with_state_def chain_tip_slot_def chain_sync_script_def try_io_def lift_res_def anyhow_def Let_def)

theorem empty_peer_cannot_be_served_witness:
  "\<exists>rn rn'. is_ok (lookup_peer (rn_network rn) ''p'') \<and>
    serve_chain_sync e tracer_open (plain_step ServeChainSync) (no_params\<lparr>sp_as_peer := Some ''p''\<rparr>) (rn, fresh_world) =
    Some (anyhow ''serve_chain_sync: fixture_path or as_peer is required when responses is not set'', rn', fresh_world)"
proof -
  let ?net = "\<lparr>net_peers = [\<lparr>peer_id = ''p'', chain_sync_fixture = None, block_fetch_fixture = None,
    peer_description = None, production_rule = None\<rparr>], start_slot = Some 5, slot_length_ms = None\<rparr>"
  let ?sc = "\<lparr>sv_cs_channels = Some [], sv_bf_channels = None, sv_ts_channels = None,
    sv_ln_channels = None, sv_lf_channels = None, sv_ka_handle = True, sv_peer_id = None\<rparr>"
  let ?rn = "runner_default\<lparr>rn_server_connections := [(''default'', ?sc)], rn_network := Some ?net,
    rn_peers := [(''p'', peer_state_new)]\<rparr>"
  have p: "lookup_peer (rn_network ?rn) ''p'' = Ok (hd (net_peers ?net))" by (simp add: lookup_peer_def)
  from empty_peer_cannot_be_served [OF _ _ _ _ p, of "plain_step ServeChainSync" ?sc "[]"
      "no_params\<lparr>sp_as_peer := Some ''p''\<rparr>" peer_state_new e tracer_open fresh_world]
  show ?thesis using p
    by - (rule exI [of _ ?rn], auto simp: name_or_default_def plain_step_def peer_state_new_def)
qed

section \<open>Relations that every run keeps\<close>

text \<open>The contract of the bookkeeping: a preorder on states that a single emission, a drain and a clock
  reading respect.\<close>

locale step_bookkeeping = step_preorder R for R :: "runner \<times> world \<Rightarrow> runner \<times> world \<Rightarrow> bool" +
  assumes emits: "run_keeps R (do_emit t e)"
    and reads: "run_keeps R (io_run drain_buffer)" "run_keeps R (io_run elapsed_ms)"
begin

lemma run_keeps_asks: "run_keeps R (asks f)"
  by (simp add: run_keeps_def asks_def refl)

lemma run_keeps_try_emit: "run_keeps R (try_emit t e)"
proof -
  have "R s s'" if "try_emit t e s = Some (r, s')" for s r s'
  proof -
    obtain rn w where s: "s = (rn, w)" by (cases s)
    obtain x w' where em: "emit t e w = (x, w')" by (cases "emit t e w")
    then have "R (rn, w) (rn, w')" using emits [of t e] by (simp add: run_keeps_def do_emit_def io_run_def)
    moreover have "s' = (rn, w')"
      using that em unfolding s by (cases x) (simp_all add: try_emit_def io_run_def ignore_io_def ret_def)
    ultimately show ?thesis using s by simp
  qed
  then show ?thesis by (simp add: run_keeps_def)
qed

lemma run_keeps_try_emit_all: "run_keeps R (try_emit_all t es)"
  by (induction es) (simp_all add: run_keeps_res run_keeps_bind run_keeps_try_emit)

lemma run_keeps_finish: "run_keeps R (finish_step t idx r ok)"
  unfolding finish_step_def by (cases r) (auto intro!: run_keeps_bind emits run_keeps_try_emit run_keeps_res)

lemma run_keeps_step:
  assumes "\<And>step resolved. run_keeps R (exec step resolved)"
  shows "run_keeps R (run_step exec t step idx)"
  unfolding run_step_def Let_def case_prod_beta
  by (intro run_keeps_bind run_keeps_match assms emits reads run_keeps_res run_keeps_asks run_keeps_try_emit_all run_keeps_finish)

lemma run_keeps_steps: "(\<And>x i. run_keeps R (run1 x i)) \<Longrightarrow> run_keeps R (run_steps run1 i ss n)"
  by (induction ss arbitrary: i n) (auto intro!: run_keeps_match run_keeps_res split: sum.split)

lemma run_keeps_body: "(\<And>x i. run_keeps R (run1 x i)) \<Longrightarrow> run_keeps R (run_body run1 t it i ss)"
  by (induction ss arbitrary: i) (auto intro!: run_keeps_match run_keeps_res run_keeps_bind emits split: sum.split)

lemma run_keeps_repeat: "(\<And>x i. run_keeps R (run1 x i)) \<Longrightarrow> run_keeps R (repeat_loop run1 t n_times body n it)"
  by (induction n arbitrary: it) (auto intro!: run_keeps_bind run_keeps_res emits run_keeps_body)

lemma run_keeps_repeat_step: "(\<And>x i. run_keeps R (run1 x i)) \<Longrightarrow> run_keeps R (repeat_step render run1 t step resolved)"
  unfolding repeat_step_def by (intro run_keeps_bind run_keeps_res run_keeps_repeat)

end

text \<open>For whole runs the relation also has to ignore the runner's own updates and the clock.\<close>

locale run_preorder = step_bookkeeping R for R :: "runner \<times> world \<Rightarrow> runner \<times> world \<Rightarrow> bool" +
  assumes local: "R (rn, w) (rn', w)"
    and stores: "R (rn, w) (rn, w\<lparr>slot_cell := n\<rparr>)"
begin

lemma run_keeps_local: "(\<And>rn w r s'. f (rn, w) = Some (r, s') \<Longrightarrow> snd s' = w) \<Longrightarrow> run_keeps R f"
  unfolding run_keeps_def using local by (metis prod.collapse)

lemma run_keeps_cleanup: "run_keeps R (cleanup t)"
  unfolding cleanup_def by (intro run_keeps_bind run_keeps_local run_keeps_try_emit_all) auto

lemma run_keeps_conclude: "run_keeps R (conclude t name r)"
  unfolding conclude_def emit_completed_def
  by (auto intro!: run_keeps_bind run_keeps_cleanup reads run_keeps_try_emit run_keeps_res split: prod.split option.split)

lemma run_keeps_store: "run_keeps R (store_slot n)"
  by (rule run_keepsI) (auto simp: store_slot_def stores split: prod.splits)

lemma run_keeps_scenario:
  assumes "\<And>t target magic step resolved. run_keeps R (exec t target magic step resolved)"
    and "\<And>t net. run_keeps R (io_run (declare_network e t net))"
  shows "run_keeps R (run_scenario e now exec sr)"
  unfolding run_scenario_def Let_def
  by (intro run_keeps_bind run_keeps_steps run_keeps_step assms emits run_keeps_conclude)
    (auto intro!: run_keeps_res run_keeps_local run_keeps_store split: option.split)

end

lemma io_run_extends: "keeps extends m \<Longrightarrow> run_keeps (\<lambda>s s'. extends (snd s) (snd s')) (io_run m)"
  by (auto simp: run_keeps_def keeps_def io_run_def split: prod.splits) (metis snd_conv)

lemma ext_init_peers: "keeps extends (init_peers e t ps m)"
  by (induction ps arbitrary: m) (auto intro!: ext_rules)

lemma ext_declare_network: "keeps extends (declare_network e t net)"
  unfolding declare_network_def by (auto intro!: ext_rules ext_init_peers split: option.split)

interpretation trace_run: run_preorder "\<lambda>s s'. extends (snd s) (snd s')"
proof unfold_locales
  show "extends (snd (s :: runner \<times> world)) (snd s)" for s by (rule extends_refl)
  show "extends (snd s1) (snd s3)" if "extends (snd s1) (snd s2)" "extends (snd s2) (snd s3)"
    for s1 s2 s3 :: "runner \<times> world" using that by (rule extends_trans)
  show "run_keeps (\<lambda>s s'. extends (snd s) (snd s')) (do_emit t e)" for t e
    unfolding do_emit_def by (intro io_run_extends ext_rules)
  show "run_keeps (\<lambda>s s'. extends (snd s) (snd s')) (io_run drain_buffer)"
    by (intro io_run_extends ext_rules)
  show "run_keeps (\<lambda>s s'. extends (snd s) (snd s')) (io_run elapsed_ms)"
    by (intro io_run_extends ext_rules)
qed (simp_all add: extends_def)

end
