(* ===== verification/BlockFetchLaws.thy ===== *)
theory BlockFetchLaws
  imports BlockFetchServer PeerState
begin

text \<open>
  What the Block-Fetch server promises: the contract of a scripted body, the shape of a streamed
  batch, the answer to a range request over a peer's block store, and what the generated scripts
  do.
\<close>

section \<open>The contract\<close>

lemma quiet_bf_send: "keeps quiet (bf_send m)" "keeps quiet (bf_send_raw bs)"
  by (simp_all add: bf_send_def bf_send_raw_def quiet_send_wire)

lemma quiet_bf_sent: "kind \<noteq> ResponseRuleApplied \<Longrightarrow> keeps quiet (emit t (bf_sent kind a b ps))"
  by (rule quiet_emit) (simp add: bf_sent_def)

lemma quiet_bf_put_block: "keeps quiet (bf_put_block t body slot hash n s)"
  by (auto simp: bf_put_block_def intro!: quiet_rules quiet_bf_send quiet_bf_sent)

lemma quiet_bf_put_blocks: "keeps quiet (bf_put_blocks t es s)"
  by (induction t es s rule: bf_put_blocks.induct) (auto intro!: quiet_rules quiet_bf_put_block)

lemma quiet_bf_single: "keeps quiet (bf_execute_single t fixture request send s)"
  by (cases send)
    (auto simp: bf_no_blocks_def bf_start_batch_def bf_block_def bf_batch_done_def bf_stream_batch_def
      bf_raw_bytes_def intro!: quiet_rules quiet_bf_send quiet_bf_sent quiet_bf_put_block quiet_bf_put_blocks
      split: option.split prod.split)

lemma quiet_bf_sequence: "keeps quiet (bf_execute_sequence t fixture request sends s)"
  by (induction t fixture request sends s rule: bf_execute_sequence.induct)
    (auto intro!: quiet_rules quiet_bf_single)

lemma quiet_bf_send_rule: "keeps quiet (bf_execute_send t fixture request send s)"
  by (cases send) (simp_all add: bf_execute_send_def quiet_bf_single quiet_bf_sequence del: bf_execute_single.simps)

definition same_rule :: "bf_session \<Rightarrow> bf_session \<Rightarrow> bool" where
  "same_rule s s' \<longleftrightarrow> bf_rule_idx s' = bf_rule_idx s"

lemma same_rule_refl [simp]: "same_rule s s"
  by (simp add: same_rule_def)

lemma gives_chain:
  assumes "gives (\<lambda>x. same_rule s (f x)) m" "\<And>x. same_rule s (f x) \<Longrightarrow> gives P (k x)"
  shows "gives P (try_io m k)"
  using assms by (auto simp: gives_def try_io_def split: prod.splits res.splits) blast

lemma gives_bf_put_block: "gives (same_rule s) (bf_put_block t body slot hash n s)"
  by (auto simp: bf_put_block_def same_rule_def intro!: gives_rules)

lemma gives_bf_put_blocks: "gives (same_rule s) (bf_put_blocks t es s)"
proof (induction t es s rule: bf_put_blocks.induct)
  case (1 t s)
  then show ?case by (auto simp: same_rule_def intro!: gives_rules)
next
  case (2 t body slot hash es s)
  have "gives (same_rule s) (bf_put_blocks t es s')" if "same_rule s s'" for s'
    using 2 [of s'] that by (simp add: gives_def same_rule_def)
  then show ?case
    by (simp, intro gives_chain [where f = "\<lambda>x. x" and s = s] gives_bf_put_block) simp
qed

lemma gives_bf_simple:
  "gives (\<lambda>x. same_rule s (snd x)) (bf_no_blocks t s)"
  "gives (\<lambda>x. same_rule s (snd x)) (bf_start_batch t s)"
  "gives (\<lambda>x. same_rule s (snd x)) (bf_batch_done t n s)"
  "gives (\<lambda>x. same_rule s (snd x)) (bf_raw_bytes t bs s)"
  by (auto simp: bf_no_blocks_def bf_start_batch_def bf_batch_done_def bf_raw_bytes_def same_rule_def
      intro!: gives_rules)

lemma gives_bf_block: "gives (\<lambda>x. same_rule s (snd x)) (bf_block t source s)"
  unfolding bf_block_def
  by (rule gives_try_io, rule gives_chain [where f = "\<lambda>x. x" and s = s])
    (auto intro!: gives_bf_put_block gives_ret)

lemma same_rule_trans: "same_rule a b \<Longrightarrow> gives (\<lambda>x. same_rule b (f x)) m \<Longrightarrow> gives (\<lambda>x. same_rule a (f x)) m"
  by (simp add: same_rule_def gives_def)

lemma gives_bf_stream: "gives (\<lambda>x. same_rule s (snd x)) (bf_stream_batch t fixture request sources s)"
  unfolding bf_stream_batch_def
proof (rule gives_try_io, rule gives_case_option)
  fix entries :: "(bytes \<times> u64 \<times> string) list"
  show "gives (\<lambda>x. same_rule s (snd x)) (if entries = [] then bf_no_blocks t s
      else try_io (bf_start_batch t s) (\<lambda>(_, s1). try_io (bf_put_blocks t entries s1) (\<lambda>s2.
           bf_batch_done t (of_nat (length entries)) s2)))"
  proof (rule gives_if [OF gives_bf_simple(1)], rule gives_chain [OF gives_bf_simple(2)], clarsimp)
    fix s1 assume s1: "same_rule s s1"
    show "gives (\<lambda>x. same_rule s (snd x)) (try_io (bf_put_blocks t entries s1) (\<lambda>s2.
           bf_batch_done t (of_nat (length entries)) s2))"
    proof (rule gives_chain [where f = "\<lambda>x. x" and s = s])
      show "gives (same_rule s) (bf_put_blocks t entries s1)"
        using gives_bf_put_blocks [of s1] s1 by (simp add: same_rule_def gives_def)
    next
      fix s2 assume "same_rule s s2"
      then show "gives (\<lambda>x. same_rule s (snd x)) (bf_batch_done t (of_nat (length entries)) s2)"
        by (rule same_rule_trans) (rule gives_bf_simple)
    qed
  qed
qed (rule gives_bf_simple)

lemma gives_bf_single: "gives (\<lambda>x. same_rule s (snd x)) (bf_execute_single t fixture request send s)"
  by (cases send)
    (auto intro!: gives_bf_simple gives_bf_block gives_bf_stream gives_rules)

lemma gives_bf_sequence: "gives (\<lambda>x. same_rule s (snd x)) (bf_execute_sequence t fixture request sends s)"
proof (induction sends arbitrary: s)
  case Nil
  then show ?case by (auto simp: same_rule_def intro!: gives_rules)
next
  case (Cons sub subs)
  have "gives (\<lambda>x. same_rule s (snd x)) (bf_execute_sequence t fixture request subs s')" if "same_rule s s'" for s'
    using that Cons.IH by (rule same_rule_trans)
  then show ?case
    by (auto intro!: gives_chain [OF gives_bf_single] gives_ret split: prod.split)
qed

lemma gives_bf_send_rule: "gives (\<lambda>x. same_rule s (snd x)) (bf_execute_send t fixture request send s)"
  by (cases send) (simp_all add: bf_execute_send_def gives_bf_single gives_bf_sequence del: bf_execute_single.simps)

definition bf_apply ::
    "tracer \<Rightarrow> block_fixture_chain option \<Rightarrow> bf_request \<Rightarrow> bf_session \<Rightarrow> script_rule \<Rightarrow> usize \<Rightarrow> (bf_session \<times> bool) io" where
  "bf_apply t fixture request s1 rule rule_idx =
     try_io (bf_execute_send t fixture request (sr_send rule)
         (s1\<lparr>bf_rule_idx := rule_idx, bf_rules_applied := bf_rules_applied s1 + 1\<rparr>)) (\<lambda>(finished, s3).
       ret (s3, finished))"

definition bf_requested :: "bf_request \<Rightarrow> bf_session \<Rightarrow> bf_session" where
  "bf_requested request s = s\<lparr>bf_st := bf_after_receive request, range_requests := range_requests s + 1\<rparr>"

lemma bf_body_eq:
  "bf_body t fixture rules request s =
     try_io (emit t (bf_receive_event request (bf_st s) (bf_after_receive request))) (\<lambda>_.
       if request = BfClientDone then ret (s\<lparr>bf_st := bf_after_receive request\<rparr>, True)
       else case next_rule (bf_matches_on request) rules (bf_rule_idx s) of
         None \<Rightarrow> bail (bf_no_matching_rule request rules)
       | Some (pos, rule, idx) \<Rightarrow> try_io (emit t (rule_applied_event pos rule)) (\<lambda>_.
           bf_apply t fixture request (bf_requested request s) rule idx))"
  by (simp add: bf_body_def bf_apply_def bf_requested_def Let_def cong: option.case_cong)

lemma bf_receive_kind: "te_kind (bf_receive_event request a b) \<noteq> ResponseRuleApplied"
  by (cases request) (simp_all add: bf_receive_event_def)

lemma quiet_bf_apply: "keeps quiet (bf_apply t fixture request s1 rule idx)"
  unfolding bf_apply_def
  by (intro quiet.keeps_try_io quiet_bf_send_rule quiet.keeps_case_prod quiet.keeps_ret)

lemma gives_bf_apply: "gives (\<lambda>x. bf_rule_idx (fst x) = idx) (bf_apply t fixture request s1 rule idx)"
  unfolding bf_apply_def
  by (rule gives_chain [OF gives_bf_send_rule]) (auto simp: same_rule_def intro!: gives_rules)

interpretation bf: script_server bf_rule_idx "bf_body t fixture (take (2 ^ 64 - 1) rules)" "take (2 ^ 64 - 1) rules"
  for t fixture rules
proof unfold_locales
  fix r s w res w'
  let ?rules = "take (2 ^ 64 - 1) rules"
  assume run: "bf_body t fixture ?rules r s w = (res, w')"
  have len: "length ?rules < 2 ^ 64" by (simp add: min_def)
  show "\<exists>es. trace_file w' = trace_file w @ es \<and>
      (case res of
         Ok (s', _) \<Rightarrow> rule_step ?rules (bf_rule_idx s) (applied_rules es) (bf_rule_idx s')
       | _ \<Rightarrow> (\<exists>j. rule_step ?rules (bf_rule_idx s) (applied_rules es) j))"
    by (rule scripted_body [where rule_index = bf_rule_idx,
          OF bf_receive_kind len quiet_bf_apply gives_bf_apply _ run [unfolded bf_body_eq]])
      simp
qed

section \<open>Runs in a reliable world\<close>

lemma bf_send_run: "reliable w \<Longrightarrow> bf_send m w = (Ok (), put_wire (BfWire m) w)"
  by (simp add: bf_send_def send_wire_reliable)

lemma bf_no_blocks_run:
  "reliable w \<Longrightarrow> \<exists>w'. bf_no_blocks t s w =
     (Ok (False, s\<lparr>bf_st := BfIdle, no_blocks_responses := no_blocks_responses s + 1\<rparr>), w') \<and>
     reliable w' \<and> wire_out w' = wire_out w @ [BfWire NoBlocks]"
  by (simp add: bf_no_blocks_def try_io_def bf_send_run emit_reliable ret_def)

lemma bf_start_batch_run:
  "reliable w \<Longrightarrow> \<exists>w'. bf_start_batch t s w = (Ok (False, s\<lparr>bf_st := BfStreaming\<rparr>), w') \<and>
     reliable w' \<and> wire_out w' = wire_out w @ [BfWire StartBatch]"
  by (simp add: bf_start_batch_def try_io_def bf_send_run emit_reliable ret_def)

lemma bf_batch_done_run:
  "reliable w \<Longrightarrow> \<exists>w'. bf_batch_done t n s w = (Ok (False, s\<lparr>bf_st := BfIdle\<rparr>), w') \<and>
     reliable w' \<and> wire_out w' = wire_out w @ [BfWire BatchDone]"
  by (simp add: bf_batch_done_def try_io_def bf_send_run emit_reliable ret_def)

lemma bf_put_blocks_run:
  "reliable w \<Longrightarrow> \<exists>w'. bf_put_blocks t es s w =
     (Ok (s\<lparr>blocks_served := blocks_served s + of_nat (length es)\<rparr>), w') \<and>
     reliable w' \<and> wire_out w' = wire_out w @ map (\<lambda>(body, _). BfWire (Block body)) es"
proof (induction es arbitrary: s w)
  case Nil
  then show ?case by (simp add: ret_def)
next
  case (Cons e es)
  obtain body slot hash where e: "e = (body, slot, hash)" by (cases e)
  let ?s = "s\<lparr>blocks_served := blocks_served s + 1\<rparr>"
  from Cons.prems obtain w1 where w1: "bf_put_block t body slot hash (length body) s w = (Ok ?s, w1)"
    "reliable w1" "wire_out w1 = wire_out w @ [BfWire (Block body)]"
    by (simp add: bf_put_block_def try_io_def bf_send_run emit_reliable ret_def)
  from Cons.IH [OF w1(2), of ?s] w1 e show ?case
    by (auto simp: try_io_def ac_simps)
qed

lemma bf_stream_batch_run:
  assumes "reliable w" "stream_entries fixture request sources = Ok (Some es)" "es \<noteq> []"
  shows "\<exists>w'. bf_stream_batch t fixture request sources s w =
     (Ok (False, s\<lparr>bf_st := BfIdle, blocks_served := blocks_served s + of_nat (length es)\<rparr>), w') \<and>
     reliable w' \<and> wire_out w' = wire_out w @ [BfWire StartBatch]
       @ map (\<lambda>(body, _). BfWire (Block body)) es @ [BfWire BatchDone]"
proof -
  let ?s1 = "s\<lparr>bf_st := BfStreaming\<rparr>"
  let ?s2 = "?s1\<lparr>blocks_served := blocks_served ?s1 + of_nat (length es)\<rparr>"
  from bf_start_batch_run [OF assms(1), of t s] obtain w1 where
    w1: "bf_start_batch t s w = (Ok (False, ?s1), w1)" "reliable w1" "wire_out w1 = wire_out w @ [BfWire StartBatch]"
    by blast
  from bf_put_blocks_run [OF w1(2), of t es ?s1] obtain w2 where
    w2: "bf_put_blocks t es ?s1 w1 = (Ok ?s2, w2)" "reliable w2"
    "wire_out w2 = wire_out w1 @ map (\<lambda>(body, _). BfWire (Block body)) es" by blast
  from bf_batch_done_run [OF w2(2), of t "of_nat (length es)" ?s2] w1 w2 assms show ?thesis
    by (auto simp: bf_stream_batch_def try_io_def lift_res_def)
qed

lemma bf_body_run:
  assumes "reliable w" "request \<noteq> BfClientDone"
    and "next_rule (bf_matches_on request) rules (bf_rule_idx s) = Some (pos, rule, idx)"
  shows "\<exists>w1. reliable w1 \<and> wire_out w1 = wire_out w \<and>
    bf_body t fixture rules request s w = bf_apply t fixture request (bf_requested request s) rule idx w1"
proof -
  let ?w1 = "logged t (rule_applied_event pos rule)
    (logged t (bf_receive_event request (bf_st s) (bf_after_receive request)) w)"
  have "bf_body t fixture rules request s w = bf_apply t fixture request (bf_requested request s) rule idx ?w1"
    using assms by (simp add: bf_body_eq try_io_def emit_reliable)
  then show ?thesis using assms(1) by (intro exI [of _ ?w1]) simp
qed

text \<open>The bodies that a store has in a range of keys.\<close>

definition stored_between :: "u64 \<times> bytes \<Rightarrow> u64 \<times> bytes \<Rightarrow> block_store \<Rightarrow> block_store" where
  "stored_between lo hi store =
     (if lo \<in> fst ` set store \<and> hi \<in> fst ` set store \<and> lo \<le> hi
      then filter (\<lambda>kv. lo \<le> fst kv \<and> fst kv \<le> hi) store else [])"

lemma entries_of_store:
  "mapM_res (\<lambda>e. entry_of_source (BFixtureEntry e)) (map entry_of_store kvs) =
     Ok (map (\<lambda>((s, h), b). (b, s, encode_hex h)) kvs)"
proof (induction kvs)
  case Nil
  then show ?case by simp
next
  case (Cons kv kvs)
  obtain s h b where kv: "kv = ((s, h), b)" by (cases kv) auto
  have "entry_of_source (BFixtureEntry (entry_of_store ((s, h), b))) = Ok (b, s, encode_hex h)"
    by (simp add: entry_of_source_def, simp add: entry_of_store_def)
  with Cons kv show ?case by simp
qed

lemma bf_done_run:
  "reliable w \<Longrightarrow> \<exists>w'. reliable w' \<and> wire_out w' = wire_out w \<and>
     serve_loop (bf_body t fixture rules) [Ok BfClientDone] s w = (Ok (s\<lparr>bf_st := BfDone\<rparr>), w')"
  by (intro exI [of _ "logged t (bf_receive_event BfClientDone (bf_st s) BfDone) w"])
    (simp add: bf_body_eq try_io_def emit_reliable ret_def)

lemma bf_finish_run:
  "reliable w \<Longrightarrow> \<exists>summary w'. bf_finish t s w = (Ok summary, w') \<and> wire_out w' = wire_out w \<and>
     bfs_blocks_served summary = blocks_served s \<and> bfs_range_requests summary = range_requests s \<and>
     bfs_no_blocks_responses summary = no_blocks_responses s"
  by (simp add: bf_finish_def try_io_def elapsed_ms_run emit_reliable ret_def Let_def)

section \<open>Properties\<close>

lemma stream_from_request:
  fixes store s1 h1 s2 h2
  defines "f \<equiv> Some (from_block_store store)" and "req \<equiv> BfRequestRange (Specific s1 h1) (Specific s2 h2)"
    and "kvs \<equiv> stored_between (s1, h1) (s2, h2) store"
  assumes "reliable w" "bt_ok store"
  shows "\<exists>s' w'. bf_stream_batch t f req FromRequest s w = (Ok (False, s'), w') \<and>
    wire_out w' = wire_out w @ map BfWire (if kvs = [] then [NoBlocks]
      else StartBatch # map (\<lambda>kv. Block (snd kv)) kvs @ [BatchDone]) \<and>
    blocks_served s' = blocks_served s + of_nat (length kvs) \<and> bf_st s' = BfIdle"
proof -
  let ?es = "map (\<lambda>((s, h), b). (b, s, encode_hex h)) kvs"
  have entries: "stream_entries f req FromRequest = Ok (if kvs = [] then None else Some ?es) \<or>
      (kvs = [] \<and> stream_entries f req FromRequest = Ok (Some []))"
    using find_range_of_store_eq [OF assms(5), of s1 h1 s2 h2]
    by (auto simp: f_def req_def kvs_def stream_entries_def stored_between_def entries_of_store)
  show ?thesis
  proof (cases "kvs = []")
    case True
    then have "bf_stream_batch t f req FromRequest s w = bf_no_blocks t s w"
      using entries by (auto simp: bf_stream_batch_def try_io_def lift_res_def)
    with bf_no_blocks_run [OF assms(4), of t s] True show ?thesis by auto
  next
    case False
    with entries have e: "stream_entries f req FromRequest = Ok (Some ?es)" by simp
    have "map (\<lambda>(body, _). BfWire (Block body)) ?es = map BfWire (map (\<lambda>kv. Block (snd kv)) kvs)"
      by (auto simp: split_beta)
    with bf_stream_batch_run [OF assms(4) e, of t s] False show ?thesis by auto
  qed
qed

text \<open>C19: A range request that meets a \<open>stream_batch\<close> rule with \<open>block_count_from_request\<close> over a
  peer's block store is answered with one batch that holds exactly the stored bodies of the
  requested range in chain order, or with \<open>NoBlocks\<close> when an endpoint is not stored or the range
  is reversed; the session counts those blocks and is idle again.\<close>

theorem range_request_answered_from_store:
  assumes "reliable w" "bt_ok store" "bf_rule_idx s < length rules"
    and "rules ! bf_rule_idx s = one_shot OnRequestRange (StreamBatchSend FromRequest)"
  shows "\<exists>s' w'. bf_body t (Some (from_block_store store)) rules
      (BfRequestRange (Specific s1 h1) (Specific s2 h2)) s w = (Ok (s', False), w') \<and>
    (let kvs = stored_between (s1, h1) (s2, h2) store in
     wire_out w' = wire_out w @ map BfWire
       (if kvs = [] then [NoBlocks] else StartBatch # map (\<lambda>kv. Block (snd kv)) kvs @ [BatchDone]) \<and>
     blocks_served s' = blocks_served s + of_nat (length kvs)) \<and>
    bf_st s' = BfIdle"
proof -
  let ?req = "BfRequestRange (Specific s1 h1) (Specific s2 h2)"
  let ?kvs = "stored_between (s1, h1) (s2, h2) store"
  let ?f = "Some (from_block_store store)"
  let ?idx = "Suc (bf_rule_idx s)"
  let ?s1 = "(bf_requested ?req s)\<lparr>bf_rule_idx := ?idx, bf_rules_applied := bf_rules_applied (bf_requested ?req s) + 1\<rparr>"
  have "next_rule (bf_matches_on ?req) rules (bf_rule_idx s) =
      Some (bf_rule_idx s, one_shot OnRequestRange (StreamBatchSend FromRequest), ?idx)"
    using next_rule_here [OF assms(3), of "bf_matches_on ?req"] assms(4)
    by (simp add: one_shot_def bf_matches_on_def)
  from bf_body_run [OF assms(1) _ this, of t ?f] obtain w1 where w1: "reliable w1" "wire_out w1 = wire_out w"
    and body: "bf_body t ?f rules ?req s w = bf_apply t ?f ?req (bf_requested ?req s)
      (one_shot OnRequestRange (StreamBatchSend FromRequest)) ?idx w1" by auto
  have same: "blocks_served ?s1 = blocks_served s" by (simp add: bf_requested_def)
  have sends: "bf_execute_send t ?f ?req (sr_send (one_shot OnRequestRange (StreamBatchSend FromRequest))) ?s1 w1 =
      bf_stream_batch t ?f ?req FromRequest ?s1 w1"
    by (simp add: bf_execute_send_def one_shot_def)
  from stream_from_request [OF w1(1) assms(2), of t s1 h1 s2 h2 ?s1] obtain s' w2 where w2:
    "bf_stream_batch t ?f ?req FromRequest ?s1 w1 = (Ok (False, s'), w2)"
    "wire_out w2 = wire_out w1 @ map BfWire (if ?kvs = [] then [NoBlocks]
       else StartBatch # map (\<lambda>kv. Block (snd kv)) ?kvs @ [BatchDone])"
    "blocks_served s' = blocks_served ?s1 + of_nat (length ?kvs)" "bf_st s' = BfIdle" by blast
  with w1 same show ?thesis
    unfolding body by (simp add: bf_apply_def try_io_def sends ret_def Let_def)
qed

theorem range_request_answered_from_store_witness:
  "\<exists>s' w'. bf_body tracer_open (Some (from_block_store [((1, [1]), [10]), ((2, [2]), [20])]))
      [one_shot OnRequestRange (StreamBatchSend FromRequest)]
      (BfRequestRange (Specific 1 [1]) (Specific 2 [2])) bf_session_start fresh_world = (Ok (s', False), w') \<and>
    wire_out w' = map BfWire [StartBatch, Block [10], Block [20], BatchDone]"
proof -
  have b: "bt_ok [((1 :: u64, [1 :: u8]), [10 :: u8]), ((2, [2]), [20])]" by (simp add: bt_ok_def)
  have i: "bf_rule_idx bf_session_start < length [one_shot OnRequestRange (StreamBatchSend FromRequest)]"
    "[one_shot OnRequestRange (StreamBatchSend FromRequest)] ! bf_rule_idx bf_session_start =
      one_shot OnRequestRange (StreamBatchSend FromRequest)" by (simp_all add: bf_session_start_def)
  from range_request_answered_from_store [OF reliable_fresh_world(1) b i, of tracer_open 1 "[1]" 2 "[2]"]
  show ?thesis by (auto simp: stored_between_def reliable_fresh_world)
qed

text \<open>C39: The script that is generated for an honest Block-Fetch server cannot serve a single range:
  its \<open>CursorRange\<close> send has no branch in the server, so the first request ends the session with an
  error and no reply is sent.\<close>

theorem generated_block_fetch_script_fails:
  assumes "reliable w"
  shows "\<exists>e w'. execute_block_fetch_script t fixture (generate_for_block_fetch False)
      (Inr (RequestRange a b) # inbox) w = (Err e, w') \<and> wire_out w' = wire_out w"
proof -
  let ?rules = "generate_for_block_fetch False"
  let ?w0 = "logged t (bf_started_event fixture ?rules) w"
  let ?req = "BfRequestRange a b"
  have n: "next_rule (bf_matches_on ?req) ?rules (bf_rule_idx bf_session_start) =
      Some (0, \<lparr>sr_on = OnRequestRange, sr_send = CursorRange, sr_repeatable = True\<rparr>, 0)"
    by (simp add: next_rule_def generate_for_block_fetch_def bf_session_start_def bf_matches_on_def one_shot_def)
  have "reliable ?w0" using assms by simp
  from bf_body_run [OF this _ n, of t fixture] obtain w1 where "wire_out w1 = wire_out ?w0"
    "bf_body t fixture ?rules ?req bf_session_start ?w0 = bf_apply t fixture ?req (bf_requested ?req bf_session_start)
      \<lparr>sr_on = OnRequestRange, sr_send = CursorRange, sr_repeatable = True\<rparr> 0 w1" by auto
  then show ?thesis
    using assms by (simp add: execute_block_fetch_script_def try_io_def emit_reliable bf_apply_def
        bf_execute_send_def bail_def anyhow_def)
qed

theorem generated_block_fetch_script_fails_witness:
  "\<exists>e w'. execute_block_fetch_script tracer_open None (generate_for_block_fetch False)
      [Inr (RequestRange Origin Origin)] fresh_world = (Err e, w') \<and> wire_out w' = wire_out fresh_world"
  by (rule generated_block_fetch_script_fails) simp

lemma no_blocks_loop:
  assumes "reliable w" "bf_rule_idx s = 0"
  shows "\<exists>s' w'. serve_loop (bf_body t fixture (generate_for_block_fetch True))
      (map (\<lambda>(a, b). Ok (BfRequestRange a b)) ranges @ rest) s w =
      serve_loop (bf_body t fixture (generate_for_block_fetch True)) rest s' w' \<and>
    reliable w' \<and> wire_out w' = wire_out w @ replicate (length ranges) (BfWire NoBlocks) \<and>
    range_requests s' = range_requests s + of_nat (length ranges) \<and>
    no_blocks_responses s' = no_blocks_responses s + of_nat (length ranges)"
  using assms
proof (induction ranges arbitrary: s w)
  case Nil
  then show ?case by auto
next
  case (Cons r ranges)
  obtain a b where r: "r = (a, b)" by (cases r)
  let ?rules = "generate_for_block_fetch True" and ?req = "BfRequestRange a b"
  let ?rule = "\<lparr>sr_on = OnRequestRange, sr_send = NoBlocksSend, sr_repeatable = True\<rparr>"
  let ?s1 = "(bf_requested ?req s)\<lparr>bf_rule_idx := 0, bf_rules_applied := bf_rules_applied (bf_requested ?req s) + 1\<rparr>"
  let ?s2 = "?s1\<lparr>bf_st := BfIdle, no_blocks_responses := no_blocks_responses ?s1 + 1\<rparr>"
  have n: "next_rule (bf_matches_on ?req) ?rules (bf_rule_idx s) = Some (0, ?rule, 0)"
    by (simp add: next_rule_def generate_for_block_fetch_def Cons.prems(2) bf_matches_on_def one_shot_def)
  from bf_body_run [OF Cons.prems(1) _ n, of t fixture] obtain w1 where w1: "reliable w1"
    "wire_out w1 = wire_out w" and body: "bf_body t fixture ?rules ?req s w =
      bf_apply t fixture ?req (bf_requested ?req s) ?rule 0 w1" by auto
  from bf_no_blocks_run [OF w1(1), of t ?s1] obtain w2 where w2: "bf_no_blocks t ?s1 w1 = (Ok (False, ?s2), w2)"
    "reliable w2" "wire_out w2 = wire_out w1 @ [BfWire NoBlocks]" by blast
  have step: "bf_body t fixture ?rules ?req s w = (Ok (?s2, False), w2)"
    unfolding body using w2(1) by (simp add: bf_apply_def bf_execute_send_def try_io_def ret_def)
  from Cons.IH [OF w2(2), of ?s2] obtain s' w' where rest:
    "serve_loop (bf_body t fixture ?rules) (map (\<lambda>(a, b). Ok (BfRequestRange a b)) ranges @ rest) ?s2 w2 =
      serve_loop (bf_body t fixture ?rules) rest s' w'"
    "reliable w'" "wire_out w' = wire_out w2 @ replicate (length ranges) (BfWire NoBlocks)"
    "range_requests s' = range_requests ?s2 + of_nat (length ranges)"
    "no_blocks_responses s' = no_blocks_responses ?s2 + of_nat (length ranges)" by auto
  show ?case
  proof (intro exI [of _ s'] exI [of _ w'] conjI)
    show "serve_loop (bf_body t fixture ?rules) (map (\<lambda>(a, b). Ok (BfRequestRange a b)) (r # ranges) @ rest) s w =
      serve_loop (bf_body t fixture ?rules) rest s' w'"
      using step rest(1) r by (simp add: try_io_def)
  qed (use rest w2 w1 in \<open>simp_all add: bf_requested_def ac_simps\<close>)
qed

text \<open>With \<open>no_blocks_default\<close> the generated script declines every range request, however many
  there are, and the summary counts each of them.\<close>

theorem no_blocks_default_declines_all:
  assumes "reliable w"
  shows "\<exists>summary w'. execute_block_fetch_script t fixture (generate_for_block_fetch True)
      (map (\<lambda>(a, b). Inr (RequestRange a b)) ranges @ [Inr ClientDone]) w = (Ok summary, w') \<and>
    wire_out w' = wire_out w @ replicate (length ranges) (BfWire NoBlocks) \<and>
    bfs_range_requests summary = of_nat (length ranges) \<and>
    bfs_no_blocks_responses summary = of_nat (length ranges)"
proof -
  let ?rules = "generate_for_block_fetch True"
  let ?w0 = "logged t (bf_started_event fixture ?rules) w"
  have w0: "reliable ?w0" "wire_out ?w0 = wire_out w" using assms by simp_all
  have inbox: "map bf_recv_request (map (\<lambda>(a, b). Inr (RequestRange a b)) ranges @ [Inr ClientDone]) =
      map (\<lambda>(a, b). Ok (BfRequestRange a b)) ranges @ [Ok BfClientDone]"
    by (auto simp: split_beta)
  from no_blocks_loop [OF w0(1), of bf_session_start t fixture ranges "[Ok BfClientDone]"]
  obtain s1 w1 where s1: "serve_loop (bf_body t fixture ?rules)
      (map (\<lambda>(a, b). Ok (BfRequestRange a b)) ranges @ [Ok BfClientDone]) bf_session_start ?w0 =
      serve_loop (bf_body t fixture ?rules) [Ok BfClientDone] s1 w1"
    "reliable w1" "wire_out w1 = wire_out ?w0 @ replicate (length ranges) (BfWire NoBlocks)"
    "range_requests s1 = of_nat (length ranges)" "no_blocks_responses s1 = of_nat (length ranges)"
    by (auto simp: bf_session_start_def)
  from bf_done_run [OF s1(2), of t fixture ?rules s1] obtain w2 where w2: "reliable w2" "wire_out w2 = wire_out w1"
    "serve_loop (bf_body t fixture ?rules) [Ok BfClientDone] s1 w1 = (Ok (s1\<lparr>bf_st := BfDone\<rparr>), w2)" by blast
  from bf_finish_run [OF w2(1), of t "s1\<lparr>bf_st := BfDone\<rparr>"] obtain summary w3 where
    "bf_finish t (s1\<lparr>bf_st := BfDone\<rparr>) w2 = (Ok summary, w3)" "wire_out w3 = wire_out w2"
    "bfs_range_requests summary = range_requests s1" "bfs_no_blocks_responses summary = no_blocks_responses s1" by auto
  with assms s1 w2 w0 show ?thesis
    unfolding execute_block_fetch_script_def inbox by (simp add: try_io_def emit_reliable)
qed

theorem no_blocks_default_declines_all_witness:
  "\<exists>summary w'. execute_block_fetch_script tracer_open None (generate_for_block_fetch True)
      (map (\<lambda>(a, b). Inr (RequestRange a b)) [(Origin, Origin), (Origin, Origin)] @ [Inr ClientDone]) fresh_world =
      (Ok summary, w') \<and>
    wire_out w' = wire_out fresh_world @ replicate (length [(Origin, Origin), (Origin, Origin)]) (BfWire NoBlocks) \<and>
    bfs_range_requests summary = of_nat (length [(Origin, Origin), (Origin, Origin)]) \<and>
    bfs_no_blocks_responses summary = of_nat (length [(Origin, Origin), (Origin, Origin)])"
  by (rule no_blocks_default_declines_all) simp

text \<open>C18: A Block-Fetch session applies its rules in script order and each rule that is not
  repeatable at most once, whatever the client sends and whatever fails.\<close>

theorem block_fetch_rules_in_order:
  assumes "length rules < 2 ^ 64"
    and "execute_block_fetch_script t fixture rules inbox w = (res, w')"
  shows "\<exists>es. trace_file w' = trace_file w @ es \<and> in_script_order rules (applied_rules es)"
proof -
  have rules: "take (2 ^ 64 - 1) rules = rules" using assms(1) by simp
  have start: "keeps quiet (emit t (bf_started_event fixture rules))"
    by (rule quiet_emit) (simp add: bf_started_event_def)
  have finish: "keeps quiet (bf_finish t s)" for s
    unfolding bf_finish_def Let_def by (auto intro!: quiet_rules)
  show ?thesis
    by (rule bf.session_in_order [of _ _ t fixture rules, unfolded rules,
          OF start finish assms(2) [unfolded execute_block_fetch_script_def]])
qed

theorem block_fetch_rules_in_order_witness:
  "\<exists>es. trace_file (snd (execute_block_fetch_script tracer_open None (generate_for_block_fetch True)
      [Inr (RequestRange Origin Origin)] fresh_world)) = es \<and>
    in_script_order (generate_for_block_fetch True) (applied_rules es)"
proof -
  obtain res w' where run: "execute_block_fetch_script tracer_open None (generate_for_block_fetch True)
      [Inr (RequestRange Origin Origin)] fresh_world = (res, w')" by fastforce
  from block_fetch_rules_in_order [OF _ run] run show ?thesis
    by (simp add: generate_for_block_fetch_def)
qed

end
