(* ===== verification/ChainSyncClientLaws.thy ===== *)
theory ChainSyncClientLaws
  imports ChainSyncClient ChainSyncLaws Production "HOL-Library.Sublist"
begin

text \<open>
  What the Chain-Sync client asks, collects and reports, for any answers of the peer; and the
  client against the harness's own Chain-Sync server.
\<close>

section \<open>The pure effect of an answer\<close>

fun is_forward :: "cs_event \<Rightarrow> bool" where
  "is_forward (NextRollForward _ _) = True"
| "is_forward (NextRollBackward _ _) = False"

definition note_event :: "csc_session \<Rightarrow> cs_event \<Rightarrow> csc_session" where
  "note_event s ev = (let s1 = s\<lparr>csc_sent := csc_sent s + 1, csc_received := csc_received s + 1\<rparr> in case ev of
     NextRollForward h tip \<Rightarrow> extract_and_capture h (s1\<lparr>csc_headers := csc_headers s1 + 1\<rparr>)
   | NextRollBackward p tip \<Rightarrow> s1\<lparr>csc_rollbacks := csc_rollbacks s1 + 1\<rparr>)"

lemma extract_fields [simp]:
  "csc_headers (extract_and_capture h s) = csc_headers s" "csc_rollbacks (extract_and_capture h s) = csc_rollbacks s"
  "csc_sent (extract_and_capture h s) = csc_sent s" "csc_received (extract_and_capture h s) = csc_received s"
  by (simp_all add: extract_and_capture_def split: option.split nc_point.split)

lemma note_fields [simp]:
  "csc_headers (note_event s ev) = csc_headers s + (if is_forward ev then 1 else 0)"
  "csc_rollbacks (note_event s ev) = csc_rollbacks s + (if is_forward ev then 0 else 1)"
  "csc_sent (note_event s ev) = csc_sent s + 1" "csc_received (note_event s ev) = csc_received s + 1"
  by (cases ev; simp add: note_event_def)+

definition event_points :: "cs_event \<Rightarrow> point list" where
  "event_points ev = (case ev of
     NextRollForward h _ \<Rightarrow> (case (wh_parsed h, wh_point h) of
       (Some _, Some (NcSpecific slot hash)) \<Rightarrow> [Specific slot hash] | _ \<Rightarrow> [])
   | NextRollBackward _ _ \<Rightarrow> [])"

definition event_captures :: "cs_event \<Rightarrow> captured_header list" where
  "event_captures ev = (case ev of
     NextRollForward h _ \<Rightarrow> (case (wh_parsed h, wh_point h) of
       (Some info, Some (NcSpecific slot hash)) \<Rightarrow> [\<lparr>cap_slot = slot, cap_block_hash = hash,
          cap_block_number = hi_block_number info, cap_cbor = wh_raw h, cap_variant = hi_era info\<rparr>] | _ \<Rightarrow> [])
   | NextRollBackward _ _ \<Rightarrow> [])"

lemma note_collects [simp]:
  "csc_points (note_event s ev) = csc_points s @ event_points ev"
  "csc_captured (note_event s ev) = csc_captured s @ event_captures ev"
  by (cases ev; simp add: note_event_def event_points_def event_captures_def extract_and_capture_def
      split: option.split nc_point.split)+

lemma notes_fields:
  "csc_headers (foldl note_event s evs) = csc_headers s + of_nat (length (filter is_forward evs))"
  "csc_rollbacks (foldl note_event s evs) = csc_rollbacks s + of_nat (length (filter (\<lambda>e. \<not> is_forward e) evs))"
  "csc_sent (foldl note_event s evs) = csc_sent s + of_nat (length evs)"
  "csc_received (foldl note_event s evs) = csc_received s + of_nat (length evs)"
  "csc_points (foldl note_event s evs) = csc_points s @ concat (map event_points evs)"
  "csc_captured (foldl note_event s evs) = csc_captured s @ concat (map event_captures evs)"
  by (induction evs arbitrary: s) simp_all

section \<open>The session in a reliable world\<close>

definition csc_report :: "csc_session \<Rightarrow> string \<Rightarrow> u64 \<Rightarrow> csc_summary" where
  "csc_report s reason d = \<lparr>ccs_headers_received = csc_headers s, ccs_rollbacks = csc_rollbacks s,
     ccs_must_reply_triggered = False, ccs_messages_sent = csc_sent s, ccs_messages_received = csc_received s,
     ccs_exit_reason = reason, ccs_duration_ms = d, ccs_collected_points = csc_points s,
     ccs_captured_headers = csc_captured s\<rparr>"

lemma csc_summarise_run:
  "\<exists>d w'. csc_summarise t s reason w = Some (Ok (csc_report s reason d), w') \<and> wire_out w' = wire_out w \<and>
    reliable w' = reliable w"
proof -
  let ?sm = "csc_report s reason (env_clock w (clock_reads w))"
  obtain w' where w': "quietly (emit t (csc_summary_event ?sm)) (ticked w) = Some (Ok (), w')"
    "wire_out w' = wire_out w" "reliable w' = reliable w"
    using quietly_emit [of t "csc_summary_event ?sm" "ticked w"] by auto
  have "csc_build_summary s reason w = (Ok ?sm, ticked w)"
    by (simp add: csc_build_summary_def csc_report_def run_simps)
  with w' show ?thesis by (auto simp: csc_summarise_def run_simps)
qed

lemma csc_ask_event:
  assumes "reliable w"
  shows "\<exists>w'. csc_ask t secs (Some (Inr ev)) s w = Some (Ok (Inl (note_event s ev)), w') \<and> reliable w' \<and>
    wire_out w' = wire_out w @ [CsWire RequestNext]"
  using assms by (cases ev) (simp_all add: csc_ask_def csc_on_event_def note_event_def run_simps Let_def)

text \<open>Events up to the last header that was wanted: they end in a header, if there are any.\<close>

definition complete :: "cs_event list \<Rightarrow> bool" where
  "complete evs \<longleftrightarrow> evs = [] \<or> is_forward (last evs)"

lemma complete_Cons: "complete (ev # evs) \<longleftrightarrow> (if evs = [] then is_forward ev else complete evs)"
  by (simp add: complete_def)

lemma csc_loop_complete:
  assumes "reliable w" "complete evs" "unat (csc_headers s) + length (filter is_forward evs) = unat count"
  shows "\<exists>w'. csc_loop t count secs (map Inr evs @ rest) s w = Some (Ok (Inl (foldl note_event s evs)), w') \<and>
    reliable w' \<and> wire_out w' = wire_out w @ replicate (length evs) (CsWire RequestNext)"
  using assms
proof (induction evs arbitrary: s w)
  case Nil
  then have "\<not> csc_headers s < count" by (simp add: word_less_nat_alt)
  then show ?case using Nil(1) by (cases rest) (simp_all add: run_simps)
next
  case (Cons ev evs)
  have fwd: "filter is_forward (ev # evs) \<noteq> []"
    using Cons.prems(2) last_in_set [of "ev # evs"] by (auto simp: complete_def filter_empty_conv)
  then have lt: "csc_headers s < count"
    using Cons.prems(3) by (cases "filter is_forward (ev # evs)") (auto simp: word_less_nat_alt)
  from csc_ask_event [OF Cons.prems(1), of t secs ev s] obtain w1 where w1:
    "csc_ask t secs (Some (Inr ev)) s w = Some (Ok (Inl (note_event s ev)), w1)" "reliable w1"
    "wire_out w1 = wire_out w @ [CsWire RequestNext]" by blast
  have "unat (csc_headers s) + 1 < 2 ^ 64" if "is_forward ev"
    using Cons.prems(3) that unat_lt64 [of count] by simp
  then have "unat (csc_headers (note_event s ev)) + length (filter is_forward evs) = unat count"
    using Cons.prems(3) by (cases "is_forward ev") (auto simp: unat_word_ariths)
  moreover have "complete evs" using Cons.prems(2) by (auto simp: complete_Cons complete_def split: if_splits)
  ultimately obtain w2 where
    "csc_loop t count secs (map Inr evs @ rest) (note_event s ev) w1 =
      Some (Ok (Inl (foldl note_event (note_event s ev) evs)), w2)" "reliable w2"
    "wire_out w2 = wire_out w1 @ replicate (length evs) (CsWire RequestNext)"
    using Cons.IH [OF w1(2), of "note_event s ev"] by blast
  with w1 lt show ?case by (simp add: run_simps)
qed

lemma run_chain_sync_complete:
  assumes "reliable w" "complete evs" "length (filter is_forward evs) = unat count"
    and "ch_find ch = Some (Inr found)" "ch_next ch = map Inr evs @ rest" "ch_done ch = None"
  shows "\<exists>summary w'. run_chain_sync t ch points count secs w = Some (Ok summary, w') \<and>
    ccs_headers_received summary = count \<and>
    ccs_rollbacks summary = of_nat (length (filter (\<lambda>e. \<not> is_forward e) evs)) \<and>
    ccs_messages_sent summary = of_nat (length evs) + 2 \<and> ccs_messages_received summary = of_nat (length evs) + 1 \<and>
    ccs_exit_reason summary = ''completed'' \<and>
    ccs_collected_points summary = concat (map event_points evs) \<and>
    ccs_captured_headers summary = concat (map event_captures evs) \<and>
    wire_out w' = wire_out w @ map CsWire (FindIntersect (map (\<lambda>p. from_nc_point (to_nc_point p)) points) #
      replicate (length evs) RequestNext @ [ChainSyncDoneMsg])"
proof -
  let ?s0 = "csc_start\<lparr>csc_sent := 1, csc_received := 1\<rparr>"
  let ?find = "CsWire (FindIntersect (map (\<lambda>p. from_nc_point (to_nc_point p)) points))"
  obtain w1 where w1: "csc_find t ch points csc_start (logged t (csc_started_event count) w) = Some (Ok ?s0, w1)"
    "reliable w1" "wire_out w1 = wire_out w @ [?find]"
    using assms(1,4) by (cases found) (auto simp: csc_find_def run_simps csc_start_def Let_def split: prod.splits)
  have "unat (csc_headers ?s0) + length (filter is_forward evs) = unat count"
    using assms(3) by (simp add: csc_start_def)
  from csc_loop_complete [OF w1(2) assms(2) this, of t secs rest] obtain w2 where w2:
    "csc_loop t count secs (ch_next ch) ?s0 w1 = Some (Ok (Inl (foldl note_event ?s0 evs)), w2)" "reliable w2"
    "wire_out w2 = wire_out w1 @ replicate (length evs) (CsWire RequestNext)"
    using assms(5) by auto
  let ?s2 = "(foldl note_event ?s0 evs)\<lparr>csc_sent := csc_sent (foldl note_event ?s0 evs) + 1\<rparr>"
  obtain w3 where w3: "csc_goodbye t ch (foldl note_event ?s0 evs) w2 = Some (Ok ?s2, w3)" "reliable w3"
    "wire_out w3 = wire_out w2 @ [CsWire ChainSyncDoneMsg]"
    using w2(2) assms(6) by (simp add: csc_goodbye_def run_simps)
  from csc_summarise_run [of t ?s2 "''completed''" w3] obtain d w4 where
    "csc_summarise t ?s2 ''completed'' w3 = Some (Ok (csc_report ?s2 ''completed'' d), w4)" "wire_out w4 = wire_out w3" by blast
  moreover have "of_nat (unat count) = count" by simp
  ultimately show ?thesis
    using assms(1,3) w1 w2 w3
    by (simp add: run_chain_sync_def run_simps csc_report_def notes_fields csc_start_def map_replicate_const)
qed

section \<open>Any peer\<close>

lemma writes_summarise:
  assumes "\<And>d. P (Ok (csc_report s reason d)) []"
  shows "writes P (csc_summarise t s reason)"
  unfolding writes_def
proof (intro allI impI)
  fix w r w'
  assume "csc_summarise t s reason w = Some (r, w')"
  with csc_summarise_run [of t s reason w] assms show "\<exists>ms. wire_out w' = wire_out w @ ms \<and> P r ms" by auto
qed

lemma writes_on_event:
  assumes "\<And>e. P (Err e) []" "P (Ok (note_event s ev)) []"
  shows "writes P (csc_on_event t ev (s\<lparr>csc_sent := csc_sent s + 1\<rparr>))"
  using assms by (cases ev) (auto simp: csc_on_event_def note_event_def Let_def intro!: writes_rules)

lemma writes_ask:
  assumes "\<And>e. P (Err e) []" "\<And>e. P (Err e) [CsWire RequestNext]"
    and "\<And>ev. answer = Some (Inr ev) \<Longrightarrow> P (Ok (Inl (note_event s ev))) [CsWire RequestNext]"
    and "\<And>d. P (Ok (Inr (csc_report (s\<lparr>csc_sent := csc_sent s + 1\<rparr>) ''await_timeout'' d))) [CsWire RequestNext]"
  shows "writes P (csc_ask t secs answer s)"
  unfolding csc_ask_def Let_def
  by (intro writes_rules)
    (auto simp: assms intro!: writes_rules writes_summarise writes_on_event split: sum.split)

text \<open>The numbers of a session agree.\<close>

definition counts_agree :: "u64 \<Rightarrow> csc_session \<Rightarrow> bool" where
  "counts_agree count s \<longleftrightarrow> csc_headers s \<le> count \<and> csc_received s = csc_headers s + csc_rollbacks s + 1 \<and>
     length (csc_points s) \<le> unat (csc_headers s) \<and> length (csc_captured s) = length (csc_points s)"

lemma counts_agree_note: "counts_agree count s \<Longrightarrow> csc_headers s < count \<Longrightarrow> counts_agree count (note_event s ev)"
proof -
  assume a: "counts_agree count s" and lt: "csc_headers s < count"
  have u: "unat (csc_headers s + 1) = Suc (unat (csc_headers s))"
    using lt unat_lt64 [of count] by (simp add: word_less_nat_alt unat_word_ariths)
  have "length (event_points ev) \<le> (if is_forward ev then 1 else 0)"
    "length (event_captures ev) = length (event_points ev)"
    by (cases ev; simp add: event_points_def event_captures_def split: option.split nc_point.split)+
  with a lt u show ?thesis
    by (auto simp: counts_agree_def word_le_nat_alt word_less_nat_alt split: if_splits)
qed

text \<open>What the loop asks, and what it comes back with.\<close>

lemma writes_loop:
  assumes "counts_agree count s"
  shows "writes (\<lambda>r ms. (\<exists>k \<le> Suc (length rs). ms = replicate k (CsWire RequestNext)) \<and>
    (\<forall>s'. r = Ok (Inl s') \<longrightarrow> counts_agree count s' \<and> csc_headers s' = count) \<and>
    (\<forall>sm. r = Ok (Inr sm) \<longrightarrow> (\<exists>s' d. sm = csc_report s' ''await_timeout'' d \<and> counts_agree count s')))
    (csc_loop t count secs rs s)"
  using assms
proof (induction rs arbitrary: s)
  case Nil
  have enough: "csc_headers s = count" if "\<not> csc_headers s < count"
    using that Nil by (simp add: counts_agree_def)
  have k: "\<exists>k \<le> Suc 0. [CsWire RequestNext] = replicate k (CsWire RequestNext)" by (intro exI [of _ 1]) simp
  show ?case
    using Nil enough k by (auto intro!: writes_ask writes_res simp: counts_agree_def)
next
  case (Cons r rs)
  have enough: "csc_headers s = count" if "\<not> csc_headers s < count"
    using that Cons.prems by (simp add: counts_agree_def)
  have one: "\<exists>k \<le> Suc (Suc n). [CsWire RequestNext] = replicate k (CsWire RequestNext)" for n
    by (intro exI [of _ 1]) simp
  have more: "\<exists>k \<le> Suc (Suc n). CsWire RequestNext # ms = replicate k (CsWire RequestNext)"
    if "\<exists>k \<le> Suc n. ms = replicate k (CsWire RequestNext)" for n ms
  proof -
    from that obtain k where "k \<le> Suc n" "ms = replicate k (CsWire RequestNext)" by blast
    then show ?thesis by (intro exI [of _ "Suc k"]) simp
  qed
  have "writes (\<lambda>r' ms'. (\<exists>k \<le> Suc (Suc (length rs)). CsWire RequestNext # ms' = replicate k (CsWire RequestNext)) \<and>
      (\<forall>s'. r' = Ok (Inl s') \<longrightarrow> counts_agree count s' \<and> csc_headers s' = count) \<and>
      (\<forall>sm. r' = Ok (Inr sm) \<longrightarrow> (\<exists>s' d. sm = csc_report s' ''await_timeout'' d \<and> counts_agree count s')))
      (csc_loop t count secs rs (note_event s ev))" if "csc_headers s < count" for ev
    by (rule writes_mono [OF Cons.IH [OF counts_agree_note [OF Cons.prems that]]]) (use more in blast)
  moreover have "\<exists>s' d'. csc_report (s\<lparr>csc_sent := n\<rparr>) reason d = csc_report s' reason d' \<and> counts_agree count s'"
    for n d reason using Cons.prems by (intro exI [of _ "s\<lparr>csc_sent := n\<rparr>"] exI [of _ d]) (simp add: counts_agree_def)
  ultimately show ?case
    using Cons.prems enough one by (auto intro!: writes_bind writes_ask writes_res)
qed

definition find_wire :: "point list \<Rightarrow> wire" where
  "find_wire points = CsWire (FindIntersect (map (\<lambda>p. from_nc_point (to_nc_point p)) points))"

definition report_agrees :: "u64 \<Rightarrow> csc_summary \<Rightarrow> bool" where
  "report_agrees count sm \<longleftrightarrow> ccs_headers_received sm \<le> count \<and>
     ccs_messages_received sm = ccs_headers_received sm + ccs_rollbacks sm + 1 \<and>
     length (ccs_collected_points sm) \<le> unat (ccs_headers_received sm) \<and>
     length (ccs_captured_headers sm) = length (ccs_collected_points sm) \<and>
     (if ccs_exit_reason sm = ''completed'' then ccs_headers_received sm = count
      else ccs_exit_reason sm = ''await_timeout'')"

lemma report_agrees:
  "counts_agree count s \<Longrightarrow> report_agrees count (csc_report s ''await_timeout'' d)"
  "counts_agree count s \<Longrightarrow> csc_headers s = count \<Longrightarrow> report_agrees count (csc_report s ''completed'' d)"
  by (simp_all add: counts_agree_def report_agrees_def csc_report_def)

lemma writes_goodbye:
  assumes "counts_agree count s" "csc_headers s = count" "\<And>e. P (Err e) [CsWire ChainSyncDoneMsg]"
    and "\<And>s'. counts_agree count s' \<Longrightarrow> csc_headers s' = count \<Longrightarrow> P (Ok s') [CsWire ChainSyncDoneMsg]"
  shows "writes P (csc_goodbye t ch s)"
  unfolding csc_goodbye_def using assms
  by (auto intro!: writes_rules simp: counts_agree_def split: option.split)

text \<open>The messages of a session so far are a beginning of the whole conversation.\<close>

definition conversation :: "point list \<Rightarrow> nat \<Rightarrow> wire list \<Rightarrow> bool" where
  "conversation points n ms \<longleftrightarrow> (\<exists>k \<le> n. prefix ms (find_wire points # replicate k (CsWire RequestNext) @ [CsWire ChainSyncDoneMsg]))"

lemma conversation_simps [simp]:
  "conversation points n []" "conversation points n [find_wire points]"
  "k \<le> n \<Longrightarrow> conversation points n (find_wire points # replicate k (CsWire RequestNext))"
  "k \<le> n \<Longrightarrow> conversation points n (find_wire points # replicate k (CsWire RequestNext) @ [CsWire ChainSyncDoneMsg])"
  by (auto simp: conversation_def)

lemma writes_chain_sync:
  "writes (\<lambda>r ms. conversation points (Suc (length (ch_next ch))) ms \<and> (\<forall>sm. r = Ok sm \<longrightarrow> report_agrees count sm))
     (run_chain_sync t ch points count secs)"
proof -
  let ?P = "\<lambda>r ms. conversation points (Suc (length (ch_next ch))) ms \<and> (\<forall>sm. r = Ok sm \<longrightarrow> report_agrees count sm)"
  let ?s = "csc_start\<lparr>csc_sent := 1, csc_received := 1\<rparr>"
  have start: "counts_agree count ?s" by (simp add: counts_agree_def csc_start_def)
  have find: "writes (\<lambda>r ms. (r = Ok ?s \<and> ms = [find_wire points]) \<or> ((\<exists>e. r = Err e) \<and> ms \<in> {[], [find_wire points]}))
      (csc_find t ch points csc_start)"
    unfolding csc_find_def Let_def
    by (intro writes_rules) (auto simp: find_wire_def csc_start_def intro!: writes_rules split: sum.split option.split)
  have rest: "writes (\<lambda>r ms. ?P r (find_wire points # ms))
      (bind_run (csc_loop t count secs (ch_next ch) ?s) (\<lambda>x. case x of Inr summary \<Rightarrow> res_run (Ok summary)
        | Inl s' \<Rightarrow> bind_run (csc_goodbye t ch s') (\<lambda>s''. csc_summarise t s'' ''completed'')))"
    by (intro writes_bind writes_mono [OF writes_loop [OF start]])
      (auto split: res.split sum.split simp: report_agrees intro!: writes_rules writes_goodbye writes_summarise)
  show ?thesis
    unfolding run_chain_sync_def
    using rest by (intro writes_bind writes_emit) (auto intro!: writes_bind writes_mono [OF find])
qed

text \<open>C22: Whatever the peer answers and whatever fails, the Chain-Sync client keeps to the protocol and
  its books balance: its messages are a beginning of one find-intersect, some requests and the goodbye,
  it makes at most one request more than it gets answers, and a summary it returns
  counts no more headers than were asked for, exactly as many if it says \<open>completed\<close>, and as many
  received messages as headers, roll-backs and the intersection together.\<close>

theorem chain_sync_client_accounts:
  assumes "run_chain_sync t ch points count secs w = Some (r, w')"
  shows "\<exists>ms k. wire_out w' = wire_out w @ ms \<and> k \<le> Suc (length (ch_next ch)) \<and>
    prefix ms (find_wire points # replicate k (CsWire RequestNext) @ [CsWire ChainSyncDoneMsg]) \<and>
    (\<forall>sm. r = Ok sm \<longrightarrow> report_agrees count sm)"
  using writesD [OF writes_chain_sync assms] unfolding conversation_def by blast

theorem chain_sync_client_accounts_witness:
  "\<exists>sm w'. run_chain_sync tracer_open \<lparr>ch_find = Some (Inr None), ch_next = [], ch_done = None\<rparr> [Origin] 3 30 fresh_world
     = Some (Ok sm, w') \<and> report_agrees 3 sm"
proof -
  let ?ch = "\<lparr>ch_find = Some (Inr None), ch_next = [], ch_done = None\<rparr> :: cs_channel"
  obtain sm w' where run: "run_chain_sync tracer_open ?ch [Origin] 3 30 fresh_world = Some (Ok sm, w')"
    by (simp add: run_chain_sync_def csc_find_def csc_ask_def run_simps csc_start_def Let_def csc_summarise_def
        csc_build_summary_def)
  from chain_sync_client_accounts [OF run] run show ?thesis by blast
qed

section \<open>The client against the harness's server\<close>

text \<open>What the package makes of the messages of a Chain-Sync server: it waits through
  \<open>AwaitReply\<close> and parses headers with \<open>decode\<close>.\<close>

fun nc_tip_of :: "tip \<Rightarrow> nc_tip" where
  "nc_tip_of (Tip p n) = NcTip (to_nc_point p) n"

fun next_of :: "(header_content \<Rightarrow> wrapped_header) \<Rightarrow> wire \<Rightarrow> (string + cs_event) list" where
  "next_of decode (CsWire (RollForward hc tip)) = [Inr (NextRollForward (decode hc) (nc_tip_of tip))]"
| "next_of decode (CsWire (RollBackward p tip)) = [Inr (NextRollBackward (to_nc_point p) (nc_tip_of tip))]"
| "next_of decode m = []"

fun find_of :: "wire list \<Rightarrow> (string + (nc_point \<times> nc_tip) option) option" where
  "find_of (CsWire (IntersectFound p tip) # ms) = Some (Inr (Some (to_nc_point p, nc_tip_of tip)))"
| "find_of (CsWire (IntersectNotFound tip) # ms) = Some (Inr None)"
| "find_of ms = None"

definition answers_of :: "(header_content \<Rightarrow> wrapped_header) \<Rightarrow> wire list \<Rightarrow> cs_channel" where
  "answers_of decode ms = \<lparr>ch_find = find_of ms, ch_next = concat (map (next_of decode) ms), ch_done = None\<rparr>"

text \<open>The package parses the header of a record to what the record says.\<close>

definition parses_as_recorded :: "(header_content \<Rightarrow> wrapped_header) \<Rightarrow> fixture_entry \<Rightarrow> bool" where
  "parses_as_recorded decode e \<longleftrightarrow> (\<exists>hash cbor. fe_block_hash e = encode_hex hash \<and> fe_cbor_hex e = encode_hex cbor \<and>
     decode \<lparr>hc_variant = fe_variant e, hc_cbor = cbor\<rparr> =
       \<lparr>wh_raw = cbor, wh_parsed = Some \<lparr>hi_era = fe_variant e, hi_block_number = fe_block_number e\<rparr>,
         wh_point = Some (NcSpecific (fe_slot e) hash)\<rparr>)"

lemma parsed_entry:
  assumes "parses_as_recorded decode e"
  shows "\<exists>hc. entry_to_header_content e = Ok hc \<and>
    map entry_of_capture (event_captures (NextRollForward (decode hc) tip)) = [e]"
proof -
  obtain hash cbor where "fe_block_hash e = encode_hex hash" "fe_cbor_hex e = encode_hex cbor"
    "decode \<lparr>hc_variant = fe_variant e, hc_cbor = cbor\<rparr> =
       \<lparr>wh_raw = cbor, wh_parsed = Some \<lparr>hi_era = fe_variant e, hi_block_number = fe_block_number e\<rparr>,
         wh_point = Some (NcSpecific (fe_slot e) hash)\<rparr>"
    using assms by (auto simp: parses_as_recorded_def)
  then show ?thesis
    by (intro exI [of _ "\<lparr>hc_variant = fe_variant e, hc_cbor = cbor\<rparr>"])
      (simp add: entry_to_header_content_def decode_encode_skip event_captures_def entry_of_capture_def)
qed

lemma parsed_entries:
  assumes "\<forall>e \<in> set es. parses_as_recorded decode e"
  shows "\<exists>hcs. mapM_res entry_to_header_content es = Ok hcs \<and>
    map entry_of_capture (concat (map (\<lambda>hc. event_captures (NextRollForward (decode hc) tip)) hcs)) = es"
  using assms
proof (induction es)
  case Nil
  then show ?case by simp
next
  case (Cons e es)
  then obtain hcs where "mapM_res entry_to_header_content es = Ok hcs"
    "map entry_of_capture (concat (map (\<lambda>hc. event_captures (NextRollForward (decode hc) tip)) hcs)) = es" by auto
  moreover obtain hc where "entry_to_header_content e = Ok hc"
    "map entry_of_capture (event_captures (NextRollForward (decode hc) tip)) = [e]"
    using parsed_entry [of decode e tip] Cons.prems by auto
  ultimately show ?case by (intro exI [of _ "hc # hcs"]) simp
qed

lemma parsed_tip:
  assumes "fc_anchor chain = Origin" "\<forall>e \<in> set (fc_entries chain). parses_as_recorded decode e"
  shows "\<exists>tip. chain_tip chain = Ok tip"
proof (cases "fc_entries chain = []")
  case False
  then have "parses_as_recorded decode (last (fc_entries chain))" using assms(2) by simp
  then show ?thesis by (auto simp: parses_as_recorded_def chain_tip_def decode_encode_hex Let_def)
qed (simp add: chain_tip_def)

lemma captures_served:
  fixes chain decode
  defines "n \<equiv> length (fc_entries chain)"
  defines "reqs \<equiv> FindIntersect [Origin] # replicate n RequestNext @ [ChainSyncDoneMsg]"
  assumes "reliable w" "reliable v" "fc_anchor chain = Origin" "n < 2 ^ 64"
    and "\<forall>e \<in> set (fc_entries chain). parses_as_recorded decode e"
  shows "\<exists>served w' collected v'.
    execute_response_script t (Some chain) (generate_from_fixture chain secs) (map Inr reqs) w = (Ok served, w') \<and>
    run_chain_sync t' (answers_of decode (drop (length (wire_out w)) (wire_out w'))) [Origin] (of_nat n) secs' v =
      Some (Ok collected, v') \<and>
    wire_out v' = wire_out v @ map CsWire reqs \<and> ccs_exit_reason collected = ''completed'' \<and>
    map entry_of_capture (ccs_captured_headers collected) = fc_entries chain"
proof -
  obtain tip where tip: "chain_tip chain = Ok tip" using parsed_tip assms by blast
  obtain hcs where hcs: "mapM_res entry_to_header_content (fc_entries chain) = Ok hcs"
    and caps: "map entry_of_capture (concat (map (\<lambda>hc. event_captures (NextRollForward (decode hc) (nc_tip_of tip))) hcs)) =
      fc_entries chain"
    using parsed_entries [of "fc_entries chain" decode "nc_tip_of tip"] assms by blast
  have len: "length hcs = n" using mapM_res_length [OF hcs] by (simp add: n_def)
  have i: "find_intersect (cursor_new chain) [Origin] = Ok (Some 0)"
    and pt: "current_point (set_pos 0 (cursor_new chain)) = Ok Origin"
    using assms(5) by (simp_all add: point_to_pos_def cursor_new_def current_point_def)
  from honest_session [OF assms(3) tip i pt, of hcs n t secs] hcs len obtain served w' where server:
    "execute_response_script t (Some chain) (generate_from_fixture chain secs) (map Inr reqs) w = (Ok served, w')"
    "wire_out w' = wire_out w @ CsWire (IntersectFound Origin tip) # map (\<lambda>hc. CsWire (RollForward hc tip)) hcs"
    by (auto simp: reqs_def)
  let ?evs = "map (\<lambda>hc. NextRollForward (decode hc) (nc_tip_of tip)) hcs"
  let ?ch = "answers_of decode (drop (length (wire_out w)) (wire_out w'))"
  have ch: "ch_find ?ch = Some (Inr (Some (NcOrigin, nc_tip_of tip)))" "ch_next ?ch = map Inr ?evs @ []" "ch_done ?ch = None"
    using server(2) by (simp_all add: answers_of_def comp_def)
  have "complete ?evs" by (cases hcs rule: rev_cases) (simp_all add: complete_def)
  moreover have "length (filter is_forward ?evs) = unat (of_nat n :: u64)"
    using len unat_of_nat_u64 [OF assms(6)] by (simp add: filter_map comp_def)
  moreover note ch
  ultimately show ?thesis
    using run_chain_sync_complete [OF assms(4), of ?evs "of_nat n" ?ch "Some (NcOrigin, nc_tip_of tip)" "[]" t' "[Origin]" secs'] len caps server(1)
    by (fastforce simp: comp_def reqs_def)
qed

text \<open>The client and the server of the harness fit together: when a client with enough patience asks
  the server of a genesis fixture for all of its headers, each side's messages are the other's
  input, both sessions end cleanly, and the records that the client captures are exactly those of
  the fixture, provided the network package parses the fixture's headers to what is recorded of them.\<close>

theorem client_captures_served_fixture:
  fixes chain decode
  defines "n \<equiv> length (fc_entries chain)"
  defines "reqs \<equiv> FindIntersect [Origin] # replicate n RequestNext @ [ChainSyncDoneMsg]"
  assumes "reliable w" "reliable v" "fc_anchor chain = Origin" "n < 2 ^ 64"
    and "\<forall>e \<in> set (fc_entries chain). parses_as_recorded decode e"
  shows "\<exists>served w' collected v'.
    execute_response_script t (Some chain) (generate_from_fixture chain secs) (map Inr reqs) w = (Ok served, w') \<and>
    run_chain_sync t' (answers_of decode (drop (length (wire_out w)) (wire_out w'))) [Origin] (of_nat n) secs' v =
      Some (Ok collected, v') \<and>
    wire_out v' = wire_out v @ map CsWire reqs \<and> ccs_exit_reason collected = ''completed'' \<and>
    map entry_of_capture (ccs_captured_headers collected) = fc_entries chain"
  unfolding reqs_def n_def using captures_served [OF assms(3-5) assms(6,7) [unfolded n_def]] by blast

theorem client_captures_served_fixture_witness:
  "\<exists>chain decode served w' collected v'. length (fc_entries chain) = 1 \<and>
    execute_response_script tracer_open (Some chain) (generate_from_fixture chain 0)
      (map Inr (FindIntersect [Origin] # replicate 1 RequestNext @ [ChainSyncDoneMsg])) fresh_world = (Ok served, w') \<and>
    run_chain_sync tracer_open (answers_of decode (wire_out w')) [Origin] 1 30 fresh_world = Some (Ok collected, v') \<and>
    map entry_of_capture (ccs_captured_headers collected) = fc_entries chain"
proof -
  define e where "e = \<lparr>fe_slot = 9, fe_block_hash = encode_hex [1], fe_block_number = 1,
    fe_cbor_hex = encode_hex [0x80], fe_variant = 6\<rparr>"
  define chain where "chain = \<lparr>fc_anchor = Origin, fc_entries = [e]\<rparr>"
  define decode :: "header_content \<Rightarrow> wrapped_header" where "decode = (\<lambda>hc. \<lparr>wh_raw = hc_cbor hc, wh_parsed = Some \<lparr>hi_era = hc_variant hc, hi_block_number = 1\<rparr>,
    wh_point = Some (NcSpecific 9 [1])\<rparr>)"
  have "parses_as_recorded decode e"
    unfolding parses_as_recorded_def by (intro exI [of _ "[1]"] exI [of _ "[0x80]"]) (simp add: e_def decode_def del: encode_hex_simps)
  then show ?thesis
    using client_captures_served_fixture [OF reliable_fresh_world(1) reliable_fresh_world(1), of chain decode tracer_open 0 tracer_open 30]
    by (intro exI [of _ chain] exI [of _ decode]) (auto simp: chain_def)
qed

end
