(* ===== verification/ExecuteLaws.thy ===== *)
theory ExecuteLaws
  imports Execute RunnerLaws BlockFetchLaws ChainSyncClientLaws
begin

text \<open>
  What the dispatch guarantees whatever the step: the trace and the wire only grow, workers run only
  on negotiated connections, and a client channel serves one session.
\<close>

section \<open>Serving sessions only add\<close>

lemma sess_chain_sync_server: "keeps session_extends (execute_response_script t fixture rules inbox)"
  unfolding execute_response_script_def cs_finish_def Let_def
  by (intro sess_rules sess_serve_loop sess_cs_body)

lemma sess_bf_put_block: "keeps session_extends (bf_put_block t body slot hash n s)"
  unfolding bf_put_block_def bf_send_def by (intro sess_rules)

lemma sess_bf_put_blocks: "keeps session_extends (bf_put_blocks t es s)"
  by (induction t es s rule: bf_put_blocks.induct) (auto intro!: sess_rules sess_bf_put_block)

lemma sess_bf_single: "keeps session_extends (bf_execute_single t fixture req send s)"
  by (cases send)
    (auto simp: bf_no_blocks_def bf_start_batch_def bf_block_def bf_batch_done_def bf_stream_batch_def
      bf_raw_bytes_def bf_send_def bf_send_raw_def intro!: sess_rules sess_bf_put_block sess_bf_put_blocks
      split: option.split prod.split)

lemma sess_bf_sequence: "keeps session_extends (bf_execute_sequence t fixture req sends s)"
  by (induction t fixture req sends s rule: bf_execute_sequence.induct)
    (auto intro!: sess_rules sess_bf_single)

lemma sess_bf_apply: "keeps session_extends (bf_apply t fixture req s1 rule idx)"
proof -
  have "keeps session_extends (bf_execute_send t fixture req send s)" for send s
    by (cases send) (simp_all add: bf_execute_send_def sess_bf_single sess_bf_sequence del: bf_execute_single.simps)
  then show ?thesis unfolding bf_apply_def by (intro sess_rules)
qed

lemma sess_block_fetch_server: "keeps session_extends (execute_block_fetch_script t fixture rules inbox)"
  unfolding execute_block_fetch_script_def bf_finish_def bf_body_eq Let_def
  by (intro sess_rules sess_serve_loop) (auto simp: bf_body_eq intro!: sess_rules sess_bf_apply)

lemma sess_leios_notify_server: "keeps session_extends (execute_leios_notify_script t actions inbox)"
proof -
  have action: "keeps session_extends (ln_execute_action t a s)" for a s
    unfolding ln_execute_action_def ln_notify_def ln_send_def ln_send_raw_def Let_def
    by (intro sess_rules)
  have body: "keeps session_extends (ln_body t m s)" for m s
    by (cases m) (auto simp: ln_body_def intro!: sess_rules action split: list.split)
  show ?thesis
    unfolding execute_leios_notify_script_def ln_finish_def Let_def
    by (intro sess_rules sess_serve_loop body)
qed

lemma sess_leios_fetch_server: "keeps session_extends (execute_leios_fetch_script t rules inbox)"
proof -
  have send: "keeps session_extends (lf_execute_send t send s)" for send s
    unfolding lf_execute_send_def Let_def by (intro sess_rules)
  have body: "keeps session_extends (lf_body t rules m s)" for m s
    by (cases m) (auto simp: lf_body_def lf_serve_request_def intro!: sess_rules send)
  show ?thesis
    unfolding execute_leios_fetch_script_def lf_finish_def Let_def
    by (intro sess_rules sess_serve_loop body)
qed

section \<open>Every step only adds\<close>

abbreviation adds :: "runner \<times> world \<Rightarrow> runner \<times> world \<Rightarrow> bool" where
  "adds s s' \<equiv> extends (snd s) (snd s')"

abbreviation conn_adds :: "client_connection \<times> runner \<times> world \<Rightarrow> client_connection \<times> runner \<times> world \<Rightarrow> bool" where
  "conn_adds s s' \<equiv> extends (snd (snd s)) (snd (snd s'))"

interpretation conn_trace: step_preorder conn_adds
  by unfold_locales (simp add: extends_refl, rule extends_trans)

lemma adds_io_run: "keeps session_extends m \<Longrightarrow> run_keeps adds (io_run m)"
  by (intro io_run_extends session_imp_extends)

lemma adds_world_run: "run_keeps session_extends m \<Longrightarrow> run_keeps adds (world_run m)"
  unfolding run_keeps_def world_run_def session_extends_def by (fastforce split: prod.splits option.splits)

lemma adds_context_run: "run_keeps R m \<Longrightarrow> run_keeps R (context_run msg m)"
  unfolding run_keeps_def context_run_def by (fastforce split: prod.splits option.splits)

lemma adds_local:
  assumes "\<And>rn w r s'. f (rn, w) = Some (r, s') \<Longrightarrow> snd s' = w"
  shows "run_keeps adds f"
proof (rule run_keepsI)
  fix s r s' assume "f s = Some (r, s')"
  with assms [of "fst s" "snd s" r s'] show "adds s s'" by (simp add: extends_refl)
qed

lemma adds_modify: "run_keeps adds (modify_runner f)"
  by (rule adds_local) (auto simp: modify_runner_def)

lemma adds_open_link: "run_keeps adds (open_link e a b c addr)"
  by (rule adds_local) (auto simp: open_link_def)

lemma adds_write_file: "run_keeps adds (write_file e msg path f)"
  by (rule adds_local) (auto simp: write_file_def split: option.splits)

lemma adds_accept_link: "run_keeps adds (accept_link e)"
  by (rule adds_local) (auto simp: accept_link_def split: option.splits sum.splits)

lemmas adds_rules = trace_run.run_rules trace_run.emits trace_run.run_keeps_asks adds_world_run adds_context_run
  adds_modify adds_open_link adds_write_file adds_accept_link adds_io_run

lemma adds_on_conn: "run_keeps conn_adds (on_conn f)"
  by (auto simp: run_keeps_def on_conn_def extends_refl split: prod.splits)

lemma adds_on_runner: "run_keeps adds m \<Longrightarrow> run_keeps conn_adds (on_runner m)"
  unfolding run_keeps_def on_runner_def by (fastforce split: prod.splits option.splits)

lemma adds_on_world: "run_keeps session_extends m \<Longrightarrow> run_keeps conn_adds (on_world m)"
  unfolding run_keeps_def on_world_def session_extends_def by (fastforce split: prod.splits option.splits)

lemmas conn_rules = conn_trace.run_rules adds_on_conn adds_on_runner adds_on_world

lemma adds_checked_out_client: "run_keeps conn_adds m \<Longrightarrow> run_keeps adds (checked_out_client name m)"
  unfolding run_keeps_def checked_out_client_def
  by (fastforce split: prod.splits option.splits simp: extends_refl)

lemma adds_checked_out:
  assumes "\<And>sc rn w. extends w (snd (snd (f sc rn w)))"
  shows "run_keeps adds (checked_out name f)"
proof (rule run_keepsI)
  fix s r s' assume "checked_out name f s = Some (r, s')"
  then show "adds s s'"
    using assms by (auto simp: checked_out_def extends_refl Let_def split: prod.splits option.splits) (metis snd_conv)
qed

lemma adds_run_session:
  assumes "keeps session_extends m"
  shows "extends w (snd (snd (run_session sc m w)))"
proof -
  have "keeps session_extends (try_io m (\<lambda>_. ret ()))" by (intro sess_rules assms)
  then show ?thesis
    by (auto simp: run_session_def keeps_def session_extends_def split: prod.split dest!: spec [of _ w])
qed

lemma adds_append_all: "run_keeps adds (append_all e msg path f xs)"
  by (induction xs) (auto intro!: adds_rules)

lemma adds_captures: "run_keeps adds (capture_headers e hs)" "run_keeps adds (capture_blocks e bs)"
  unfolding capture_headers_def capture_blocks_def by (intro adds_rules adds_append_all)+

lemma adds_store_output: "run_keeps adds (store_output t step v shape)"
  unfolding store_output_def by (intro adds_rules)

lemma adds_try_emit_all: "run_keeps adds (try_emit_all t es)"
  by (rule trace_run.run_keeps_try_emit_all)

lemma adds_client_arms:
  "run_keeps adds (connect e t target step params)" "run_keeps adds (handshake_step e t magic step)"
  "run_keeps adds (query_tip e t target magic step)" "run_keeps adds (chain_sync_step e t step params)"
  "run_keeps adds (block_fetch_step e t step params)" "run_keeps adds (leios_notify_step t step params)"
  "run_keeps adds (leios_fetch_step t step params)" "run_keeps adds (listen e t step params)"
  "run_keeps adds (accept_handshake e t magic step params)"
proof -
  show "run_keeps adds (connect e t target step params)"
    unfolding connect_def Let_def by (intro adds_rules)
  show "run_keeps adds (handshake_step e t magic step)"
    unfolding handshake_step_def take_channel_def peer_tracer_def start_workers_def
    by (intro adds_checked_out_client conn_rules sess_handshake adds_rules)
  show "run_keeps adds (query_tip e t target magic step)"
    unfolding query_tip_def fetch_tip_def Let_def
    by (intro adds_rules client_rules sess_handshake sess_request adds_store_output)
  show "run_keeps adds (chain_sync_step e t step params)"
    unfolding chain_sync_step_def take_channel_def peer_tracer_def Let_def
    by (intro adds_checked_out_client conn_rules sess_chain_sync adds_store_output adds_captures)
  have "run_keeps conn_adds (block_fetch_points_of step params)"
    unfolding block_fetch_points_of_def by (auto intro!: conn_rules split: block_fetch_points.split)
  then show "run_keeps adds (block_fetch_step e t step params)"
    unfolding block_fetch_step_def take_channel_def peer_tracer_def
    by (intro adds_checked_out_client conn_rules sess_block_fetch adds_captures)
  show "run_keeps adds (leios_notify_step t step params)"
    unfolding leios_notify_step_def take_channel_def peer_tracer_def
    by (intro adds_checked_out_client conn_rules sess_leios_notify)
  show "run_keeps adds (leios_fetch_step t step params)"
    unfolding leios_fetch_step_def take_channel_def peer_tracer_def
    by (intro adds_checked_out_client conn_rules sess_leios_fetch)
  show "run_keeps adds (listen e t step params)"
    unfolding listen_def Let_def by (intro adds_rules)
  show "run_keeps adds (accept_handshake e t magic step params)"
    unfolding accept_handshake_def Let_def by (intro adds_rules)
qed

lemma adds_produce: "run_keeps adds (produce e a b)"
  by (rule adds_local) (auto simp: produce_def split: option.splits res.splits prod.splits)

lemma adds_clock: "run_keeps adds (load_slot msg)" "run_keeps adds (store_slot n)"
  by (auto simp: run_keeps_def load_slot_def store_slot_def extends_refl extends_def split: option.splits prod.splits)

lemma adds_update_peers: "run_keeps adds (update_peers f)"
  by (rule adds_local) (auto simp: update_peers_def split: res.splits)

lemma adds_network_arms:
  "run_keeps adds (advance_to_slot e t params)" "run_keeps adds (tick_slots e t params)"
  "run_keeps adds (peer_extends_chain t params)" "run_keeps adds (emit_peer_event t resolved params)"
  "run_keeps adds (sleep_step params)" "run_keeps adds (close_listener t step)" "run_keeps adds (disconnect t step)"
proof -
  show "run_keeps adds (advance_to_slot e t params)" "run_keeps adds (tick_slots e t params)"
    unfolding advance_to_slot_def tick_slots_def Let_def
    by (intro adds_rules adds_clock adds_produce sess_emit_production sess_emit_slot_advanced)+
  show "run_keeps adds (peer_extends_chain t params)"
    unfolding peer_extends_chain_def by (intro adds_rules adds_update_peers)
  show "run_keeps adds (emit_peer_event t resolved params)"
    unfolding emit_peer_event_def Let_def by (intro adds_rules)
  show "run_keeps adds (sleep_step params)"
    unfolding sleep_step_def by (intro adds_rules sess_rules)
  show "run_keeps adds (close_listener t step)" "run_keeps adds (disconnect t step)"
    unfolding close_listener_def disconnect_def Let_def
    by (intro adds_rules adds_local; auto split: option.splits)+
qed

lemma adds_serving_arms:
  "run_keeps adds (serve_chain_sync e t step params)" "run_keeps adds (serve_block_fetch e t step params)"
  "run_keeps adds (serve_leios_notify e t step resolved)" "run_keeps adds (serve_leios_fetch e t step resolved)"
  unfolding serve_chain_sync_def serve_block_fetch_def serve_leios_notify_def serve_leios_fetch_def Let_def
  by (intro adds_checked_out;
      auto simp: extends_refl split: option.split
        intro!: adds_run_session sess_rules sess_chain_sync_server sess_block_fetch_server
          sess_leios_notify_server sess_leios_fetch_server)+

section \<open>Relations that every step keeps\<close>

text \<open>The arms that run no other steps.\<close>

definition leaf_step :: "env \<Rightarrow> tracer \<Rightarrow> string \<Rightarrow> u64 \<Rightarrow> step_def \<Rightarrow> step_params \<Rightarrow> json \<Rightarrow> unit run" where
  "leaf_step e t target_address network_magic step params resolved = (case sd_kind step of
       Connect \<Rightarrow> connect e t target_address step params
     | Handshake \<Rightarrow> handshake_step e t network_magic step
     | QueryTip \<Rightarrow> query_tip e t target_address network_magic step
     | ChainSync \<Rightarrow> chain_sync_step e t step params
     | BlockFetch \<Rightarrow> block_fetch_step e t step params
     | LeiosNotify \<Rightarrow> leios_notify_step t step params
     | LeiosFetch \<Rightarrow> leios_fetch_step t step params
     | Disconnect \<Rightarrow> disconnect t step
     | Sleep \<Rightarrow> sleep_step params
     | Listen \<Rightarrow> listen e t step params
     | AcceptHandshake \<Rightarrow> accept_handshake e t network_magic step params
     | ServeChainSync \<Rightarrow> serve_chain_sync e t step params
     | ServeBlockFetch \<Rightarrow> serve_block_fetch e t step params
     | ServeLeiosNotify \<Rightarrow> serve_leios_notify e t step resolved
     | ServeLeiosFetch \<Rightarrow> serve_leios_fetch e t step resolved
     | CloseListener \<Rightarrow> close_listener t step
     | EmitPeerEvent \<Rightarrow> emit_peer_event t resolved params
     | PeerExtendsChain \<Rightarrow> peer_extends_chain t params
     | AdvanceToSlot \<Rightarrow> advance_to_slot e t params
     | TickSlots \<Rightarrow> tick_slots e t params
     | _ \<Rightarrow> waits_for_ever)"

lemma execute_step_leaf:
  "execute_step e sched t target magic step resolved =
     bind_run (res_run (with_context (''step ('' @ step_kind_str (sd_kind step) @ ''): invalid params after substitution'')
       (step_params_from_value resolved))) (\<lambda>params.
     if sd_kind step = Repeat then repeat_step (render_json e)
       (\<lambda>s i. run_step (execute_step e sched t target magic) t s i) t step resolved
     else if sd_kind step = Parallel then parallel_step sched (\<lambda>s i.
         if step_size s < step_size step then run_step (execute_step e sched t target magic) t s i
         else waits_for_ever) t step
     else leaf_step e t target magic step params resolved)"
  by (subst execute_step.simps) (cases "sd_kind step"; simp add: leaf_step_def)

text \<open>A scheduler is asked to keep what the branches' steps and the events of the branches keep.\<close>

definition keeping_scheduler :: "(runner \<times> world \<Rightarrow> runner \<times> world \<Rightarrow> bool) \<Rightarrow> scheduler \<Rightarrow> bool" where
  "keeping_scheduler R sched \<longleftrightarrow>
     (\<forall>t run1 branches. (\<forall>s i. run_keeps R (run1 s i)) \<longrightarrow> run_keeps R (sched t run1 branches))"

text \<open>The contract of the dispatch: a relation of the bookkeeping that the leaf arms and the scheduler keep.\<close>

locale step_contract = step_bookkeeping R for R :: "runner \<times> world \<Rightarrow> runner \<times> world \<Rightarrow> bool" +
  fixes e :: env and sched :: scheduler
  assumes leaf: "run_keeps R (leaf_step e t target magic step params resolved)"
    and scheduled: "keeping_scheduler R sched"
begin

lemma run_keeps_parallel: "(\<And>s i. run_keeps R (run1 s i)) \<Longrightarrow> run_keeps R (parallel_step sched run1 t step)"
  unfolding parallel_step_def close_parallel_def
  using scheduled by (auto simp: keeping_scheduler_def intro!: run_rules emits run_keeps_try_emit_all)

lemma run_keeps_execute: "run_keeps R (execute_step e sched t target magic step resolved)"
proof (induction "step_size step" arbitrary: step resolved rule: less_induct)
  case less
  have below: "run_keeps R (execute_step e sched t target magic s x)" if "step_size s < step_size step" for s x
    by (rule less.hyps [OF that])
  let ?exec = "execute_step e sched t target magic"
  let ?run1 = "\<lambda>s i. if step_size s < step_size step then run_step ?exec t s i else waits_for_ever"
  have guarded: "run_keeps R (?run1 s i)" for s i
  proof (cases "step_size s < step_size step")
    case True
    have "run_step ?exec t s i = run_step (\<lambda>s' x. if s' = s then ?exec s x else waits_for_ever) t s i"
      by (rule run_step_cong) simp_all
    moreover have "run_keeps R (if s' = s then ?exec s x else waits_for_ever)" for s' x
      by (rule run_keeps_if, rule below, rule True, rule run_keeps_waits)
    ultimately show ?thesis
      using True run_keeps_step [of "\<lambda>s' x. if s' = s then ?exec s x else waits_for_ever" t s i] by (simp only: if_True)
  qed (simp only: if_False run_keeps_waits)
  have eq: "repeat_step (render_json e) (\<lambda>s i. run_step ?exec t s i) t step resolved = repeat_step (render_json e) ?run1 t step resolved"
  proof (rule repeat_step_cong)
    fix body s i assume "repeat_body step = Ok body" "s \<in> set body"
    then have "step_size s < step_size step" by (rule repeat_body_smaller)
    then show "run_step ?exec t s i = ?run1 s i" by (simp only: if_True)
  qed simp
  have repeats: "run_keeps R (repeat_step (render_json e) (\<lambda>s i. run_step ?exec t s i) t step resolved)"
    unfolding eq by (rule run_keeps_repeat_step, rule guarded)
  show ?case
    by (subst execute_step_leaf, rule run_keeps_bind, rule run_keeps_res, rule run_keeps_if, rule repeats, rule run_keeps_if,
      rule run_keeps_parallel, rule guarded, rule leaf)
qed

end

lemma leaf_cases:
  assumes "run_keeps R (connect e t target step params)" "run_keeps R (handshake_step e t magic step)"
    "run_keeps R (query_tip e t target magic step)" "run_keeps R (chain_sync_step e t step params)"
    "run_keeps R (block_fetch_step e t step params)" "run_keeps R (leios_notify_step t step params)"
    "run_keeps R (leios_fetch_step t step params)" "run_keeps R (listen e t step params)"
    "run_keeps R (accept_handshake e t magic step params)" "run_keeps R (advance_to_slot e t params)"
    "run_keeps R (tick_slots e t params)" "run_keeps R (peer_extends_chain t params)"
    "run_keeps R (emit_peer_event t resolved params)" "run_keeps R (sleep_step params)"
    "run_keeps R (close_listener t step)" "run_keeps R (disconnect t step)"
    "run_keeps R (serve_chain_sync e t step params)" "run_keeps R (serve_block_fetch e t step params)"
    "run_keeps R (serve_leios_notify e t step resolved)" "run_keeps R (serve_leios_fetch e t step resolved)"
  shows "run_keeps R (leaf_step e t target magic step params resolved)"
proof -
  have "run_keeps R waits_for_ever" by (simp add: run_keeps_def waits_for_ever_def)
  then show ?thesis
    unfolding leaf_step_def using assms by (cases "sd_kind step"; simp only: step_kind.case)
qed

text \<open>The schedule without suspensions keeps every relation of the bookkeeping.\<close>

context step_bookkeeping
begin

lemma run_keeps_branch: "(\<And>s i. run_keeps R (run1 s i)) \<Longrightarrow> run_keeps R (branch_run t run1 b steps)"
proof -
  assume run1: "\<And>s i. run_keeps R (run1 s i)"
  have "run_keeps R (branch_steps_run t run1 b si steps)" for si
    by (induction steps arbitrary: si) (auto intro!: run_rules run1 emits run_keeps_try_emit)
  then show ?thesis unfolding branch_run_def by (intro run_rules emits)
qed

lemma run_keeps_poll: "(\<And>s i. run_keeps R (run1 s i)) \<Longrightarrow> run_keeps R (poll_from t run1 b branches)"
  by (induction branches arbitrary: b) (auto intro!: run_rules run_keeps_branch)

lemma poll_in_order_keeping: "keeping_scheduler R poll_in_order"
  by (simp add: keeping_scheduler_def poll_in_order_def run_keeps_poll)

end

section \<open>The trace of a run\<close>

lemma adds_contract: "keeping_scheduler adds sched \<Longrightarrow> step_contract adds e sched"
  by unfold_locales (rule leaf_cases; rule adds_client_arms adds_network_arms adds_serving_arms)

interpretation adds_step: step_contract adds e poll_in_order for e
  by (rule adds_contract) (rule trace_run.poll_in_order_keeping)



section \<open>Workers and negotiation\<close>

text \<open>A connection on which a worker runs has a negotiated version, and once it has one, the handshake
  channel and the workers' channels are used up.\<close>

definition conn_ok :: "client_connection \<Rightarrow> bool" where
  "conn_ok c \<longleftrightarrow> (cl_ka_handle c \<or> cl_ts_handle c \<longrightarrow> cl_negotiated_version c \<noteq> None) \<and>
     (cl_negotiated_version c \<noteq> None \<longrightarrow> cl_hs_channels c = None \<and> cl_ka_channels c = None \<and> cl_ts_channels c = None)"

definition runner_ok :: "runner \<Rightarrow> bool" where
  "runner_ok rn \<longleftrightarrow> (\<forall>c \<in> snd ` set (rn_connections rn). conn_ok c)"

abbreviation stays_ok :: "runner \<times> world \<Rightarrow> runner \<times> world \<Rightarrow> bool" where
  "stays_ok s s' \<equiv> runner_ok (fst s) \<longrightarrow> runner_ok (fst s')"

abbreviation conn_stays_ok :: "client_connection \<times> runner \<times> world \<Rightarrow> client_connection \<times> runner \<times> world \<Rightarrow> bool" where
  "conn_stays_ok s s' \<equiv> conn_ok (fst s) \<and> runner_ok (fst (snd s)) \<longrightarrow> conn_ok (fst s') \<and> runner_ok (fst (snd s'))"

lemma update_values: "snd ` set (AList.update k v al) \<subseteq> insert v (snd ` set al)"
  by (induction al) auto

lemma runner_ok_update: "runner_ok rn \<Longrightarrow> conn_ok c \<Longrightarrow>
    runner_ok (rn\<lparr>rn_connections := AList.update name c (rn_connections rn)\<rparr>)"
  using update_values [of name c "rn_connections rn"] by (fastforce simp: runner_ok_def)

lemma runner_ok_delete: "runner_ok rn \<Longrightarrow> runner_ok (rn\<lparr>rn_connections := AList.delete name (rn_connections rn)\<rparr>)"
  by (auto simp: runner_ok_def AList.delete_eq)

lemma ok_same:
  assumes "\<And>rn w r rn' w'. m (rn, w) = Some (r, rn', w') \<Longrightarrow> rn_connections rn' = rn_connections rn"
  shows "run_keeps stays_ok m"
proof (rule run_keepsI)
  fix s r s' assume "m s = Some (r, s')"
  with assms [of "fst s" "snd s" r "fst s'" "snd s'"] show "stays_ok s s'" by (simp add: runner_ok_def)
qed

lemma ok_io_run: "run_keeps stays_ok (io_run m)"
  by (rule ok_same) (auto simp: io_run_def split: prod.splits)

interpretation ok_run: step_bookkeeping stays_ok
  by unfold_locales (auto simp: do_emit_def ok_io_run)

interpretation ok_conn: step_preorder conn_stays_ok
  by unfold_locales auto

lemma ok_world_run: "run_keeps stays_ok (world_run m)"
  by (rule ok_same) (auto simp: world_run_def split: option.splits)

lemma ok_modify: "(\<And>rn. rn_connections (f rn) = rn_connections rn) \<Longrightarrow> run_keeps stays_ok (modify_runner f)"
  by (rule ok_same) (auto simp: modify_runner_def)

lemma ok_prims:
  "run_keeps stays_ok (open_link e a b c addr)" "run_keeps stays_ok (write_file e msg path f)"
  "run_keeps stays_ok (accept_link e)" "run_keeps stays_ok (produce e old new)" "run_keeps stays_ok (load_slot msg)"
  "run_keeps stays_ok (store_slot n)" "run_keeps stays_ok (update_peers g)"
  by (rule ok_same; auto simp: open_link_def write_file_def accept_link_def produce_def load_slot_def store_slot_def
      update_peers_def split: option.splits sum.splits res.splits)+

lemmas ok_rules = ok_run.run_rules ok_run.emits ok_run.run_keeps_asks ok_io_run ok_world_run ok_prims

lemma ok_on_conn: "(\<And>c. conn_ok c \<Longrightarrow> conn_ok (snd (f c))) \<Longrightarrow> run_keeps conn_stays_ok (on_conn f)"
  by (rule run_keepsI) (auto simp: on_conn_def split: prod.splits, metis snd_conv)

lemma ok_on_runner: "run_keeps stays_ok m \<Longrightarrow> run_keeps conn_stays_ok (on_runner m)"
  unfolding run_keeps_def on_runner_def by (fastforce split: prod.splits option.splits)

lemma ok_on_world: "run_keeps conn_stays_ok (on_world m)"
  unfolding run_keeps_def on_world_def by (fastforce split: prod.splits option.splits)

lemmas ok_conn_rules = ok_conn.run_rules ok_on_runner ok_on_world

lemma ok_checked_out_client:
  assumes "run_keeps conn_stays_ok m"
  shows "run_keeps stays_ok (checked_out_client name m)"
proof (rule run_keepsI)
  fix s r s' assume run: "checked_out_client name m s = Some (r, s')"
  obtain rn w where s: "s = (rn, w)" by (cases s)
  show "stays_ok s s'"
  proof (cases "map_of (rn_connections rn) name")
    case None
    with run s show ?thesis by (simp add: checked_out_client_def)
  next
    case (Some c)
    let ?rn = "rn\<lparr>rn_connections := AList.delete name (rn_connections rn)\<rparr>"
    from run s Some obtain c' rn' w' where m: "m (c, ?rn, w) = Some (r, c', rn', w')"
      "s' = (rn'\<lparr>rn_connections := AList.update name c' (rn_connections rn')\<rparr>, w')"
      by (auto simp: checked_out_client_def split: option.splits prod.splits)
    show ?thesis
    proof
      assume ok: "runner_ok (fst s)"
      then have "conn_ok c" using Some s by (force simp: runner_ok_def dest: map_of_SomeD)
      moreover have "runner_ok ?rn" using ok s by (auto intro: runner_ok_delete)
      ultimately have "conn_ok c'" "runner_ok rn'" using run_keepsD [OF assms m(1)] by simp_all
      with m(2) show "runner_ok (fst s')" by (auto intro: runner_ok_update)
    qed
  qed
qed

lemma ok_checked_out: "run_keeps stays_ok (checked_out name f)"
  by (rule ok_same) (auto simp: checked_out_def Let_def split: option.splits prod.splits)

lemma ok_take_channel: "(\<And>c. conn_ok c \<Longrightarrow> conn_ok (taken c)) \<Longrightarrow> run_keeps conn_stays_ok (take_channel msg channel taken)"
  unfolding take_channel_def by (rule ok_on_conn) (auto split: option.split)

lemma ok_peer_tracer: "run_keeps conn_stays_ok (peer_tracer t)"
  unfolding peer_tracer_def by (rule ok_on_conn) simp

lemma ok_append_all: "run_keeps stays_ok (append_all e msg path f xs)"
  by (induction xs) (auto intro!: ok_rules)

lemma ok_captures: "run_keeps stays_ok (capture_headers e hs)" "run_keeps stays_ok (capture_blocks e bs)"
  unfolding capture_headers_def capture_blocks_def
  by (intro ok_rules ok_append_all ok_modify; simp)+

lemma ok_store_output: "run_keeps stays_ok (store_output t step v shape)"
  unfolding store_output_def by (intro ok_rules ok_modify) simp

text \<open>Behind the taken handshake channel.\<close>

abbreviation negotiating_ok :: "client_connection \<times> runner \<times> world \<Rightarrow> client_connection \<times> runner \<times> world \<Rightarrow> bool" where
  "negotiating_ok s s' \<equiv> conn_ok (fst s) \<and> cl_hs_channels (fst s) = None \<and> runner_ok (fst (snd s)) \<longrightarrow>
     conn_ok (fst s') \<and> cl_hs_channels (fst s') = None \<and> runner_ok (fst (snd s'))"

interpretation ok_negotiating: step_preorder negotiating_ok
  by unfold_locales auto

lemma ok_handshake_tail:
  "run_keeps negotiating_ok (bind_run (peer_tracer t) (\<lambda>eff_trc.
     bind_run (on_world (handshake_on_channels eff_trc keys ch magic)) (\<lambda>version.
     bind_run (start_workers version) (\<lambda>spawned. on_runner (do_emit t (ev spawned))))))"
proof -
  have world: "run_keeps negotiating_ok (on_world m)" for m :: "('a, world) stepper"
    unfolding run_keeps_def on_world_def by (fastforce split: prod.splits option.splits)
  have runner: "run_keeps negotiating_ok (on_runner (do_emit t x))" for x
    using ok_run.emits [of t x] unfolding run_keeps_def on_runner_def by (fastforce split: prod.splits option.splits)
  have "run_keeps negotiating_ok (peer_tracer t)" "run_keeps negotiating_ok (start_workers version)" for version
    by (auto simp: run_keeps_def peer_tracer_def start_workers_def on_conn_def conn_ok_def split: prod.splits)
  then show ?thesis by (intro ok_negotiating.run_rules world runner)
qed

lemma ok_after_take:
  assumes "\<And>ch. run_keeps negotiating_ok (k ch)"
  shows "run_keeps conn_stays_ok (bind_run (take_channel msg cl_hs_channels (\<lambda>c. c\<lparr>cl_hs_channels := None\<rparr>)) k)"
proof (rule run_keepsI)
  fix s r s'
  assume run: "bind_run (take_channel msg cl_hs_channels (\<lambda>c. c\<lparr>cl_hs_channels := None\<rparr>)) k s = Some (r, s')"
  obtain c rn w where s: "s = (c, rn, w)" by (cases s)
  show "conn_stays_ok s s'"
  proof (cases "cl_hs_channels c")
    case None
    with run s show ?thesis by (auto simp: take_channel_def on_conn_def bind_run_def anyhow_def)
  next
    case (Some ch)
    with run s have tail: "k ch (c\<lparr>cl_hs_channels := None\<rparr>, rn, w) = Some (r, s')"
      by (simp add: take_channel_def on_conn_def bind_run_def)
    have "conn_ok (c\<lparr>cl_hs_channels := None\<rparr>)" if "conn_ok c" using that by (simp add: conn_ok_def)
    with run_keepsD [OF assms tail] s show ?thesis by auto
  qed
qed

lemma ok_handshake_step: "run_keeps stays_ok (handshake_step e t magic step)"
  unfolding handshake_step_def
  by (rule ok_checked_out_client, rule ok_after_take, rule ok_handshake_tail)

lemma ok_connect: "run_keeps stays_ok (connect e t target step params)"
proof -
  have "run_keeps stays_ok (modify_runner (\<lambda>rn. rn\<lparr>rn_connections := AList.update name (new_connection link pid) (rn_connections rn)\<rparr>))"
    for name link pid
    by (rule run_keepsI) (auto simp: modify_runner_def new_connection_def conn_ok_def intro!: runner_ok_update)
  then show "run_keeps stays_ok (connect e t target step params)"
    unfolding connect_def Let_def by (intro ok_rules)
qed

lemma ok_query_tip: "run_keeps stays_ok (query_tip e t target magic step)"
  unfolding query_tip_def fetch_tip_def Let_def by (intro ok_rules ok_store_output)

lemma conn_ok_taken:
  "conn_ok c \<Longrightarrow> conn_ok (c\<lparr>cl_cs_channels := None\<rparr>)" "conn_ok c \<Longrightarrow> conn_ok (c\<lparr>cl_bf_channels := None\<rparr>)"
  "conn_ok c \<Longrightarrow> conn_ok (c\<lparr>cl_ln_channels := None\<rparr>)" "conn_ok c \<Longrightarrow> conn_ok (c\<lparr>cl_lf_channels := None\<rparr>)"
  "conn_ok c \<Longrightarrow> conn_ok (c\<lparr>cl_last_chain_sync_points := ps\<rparr>)"
  by (simp_all add: conn_ok_def)

lemma ok_client_sessions:
  "run_keeps stays_ok (chain_sync_step e t step params)" "run_keeps stays_ok (block_fetch_step e t step params)"
  "run_keeps stays_ok (leios_notify_step t step params)" "run_keeps stays_ok (leios_fetch_step t step params)"
proof -
  show "run_keeps stays_ok (chain_sync_step e t step params)"
    unfolding chain_sync_step_def Let_def
    by (intro ok_checked_out_client ok_conn_rules ok_take_channel ok_peer_tracer ok_store_output ok_captures ok_on_conn)
      (simp_all add: conn_ok_taken)
  have "run_keeps conn_stays_ok (block_fetch_points_of step params)"
    unfolding block_fetch_points_of_def by (auto intro!: ok_conn_rules ok_on_conn conn_ok_taken split: block_fetch_points.split)
  then show "run_keeps stays_ok (block_fetch_step e t step params)"
    unfolding block_fetch_step_def
    by (intro ok_checked_out_client ok_conn_rules ok_take_channel ok_peer_tracer ok_captures conn_ok_taken)
  show "run_keeps stays_ok (leios_notify_step t step params)"
    unfolding leios_notify_step_def
    by (intro ok_checked_out_client ok_conn_rules ok_take_channel ok_peer_tracer conn_ok_taken)
  show "run_keeps stays_ok (leios_fetch_step t step params)"
    unfolding leios_fetch_step_def
    by (intro ok_checked_out_client ok_conn_rules ok_take_channel ok_peer_tracer conn_ok_taken)
qed

lemma ok_listening:
  "run_keeps stays_ok (listen e t step params)" "run_keeps stays_ok (accept_handshake e t magic step params)"
  unfolding listen_def accept_handshake_def Let_def by (intro ok_rules ok_modify; simp)+

lemma ok_other_arms:
  "run_keeps stays_ok (advance_to_slot e t params)" "run_keeps stays_ok (tick_slots e t params)"
  "run_keeps stays_ok (peer_extends_chain t params)" "run_keeps stays_ok (emit_peer_event t resolved params)"
  "run_keeps stays_ok (sleep_step params)" "run_keeps stays_ok (close_listener t step)" "run_keeps stays_ok (disconnect t step)"
  "run_keeps stays_ok (serve_chain_sync e t step params)" "run_keeps stays_ok (serve_block_fetch e t step params)"
  "run_keeps stays_ok (serve_leios_notify e t step resolved)" "run_keeps stays_ok (serve_leios_fetch e t step resolved)"
proof -
  show "run_keeps stays_ok (advance_to_slot e t params)" "run_keeps stays_ok (tick_slots e t params)"
    unfolding advance_to_slot_def tick_slots_def Let_def by (intro ok_rules)+
  show "run_keeps stays_ok (peer_extends_chain t params)"
    unfolding peer_extends_chain_def by (intro ok_rules)
  show "run_keeps stays_ok (emit_peer_event t resolved params)"
    unfolding emit_peer_event_def Let_def by (intro ok_rules)
  show "run_keeps stays_ok (sleep_step params)"
    unfolding sleep_step_def by (intro ok_rules)
  show "run_keeps stays_ok (close_listener t step)"
    unfolding close_listener_def by (intro ok_rules ok_same) auto
  have "run_keeps stays_ok (\<lambda>(rn, w). case map_of (rn_connections rn) name of
          None \<Rightarrow> Some (anyhow msg, rn, w)
        | Some _ \<Rightarrow> Some (Ok (), rn\<lparr>rn_connections := AList.delete name (rn_connections rn)\<rparr>, w))" for name msg
    by (rule run_keepsI) (auto split: option.splits intro: runner_ok_delete)
  then show "run_keeps stays_ok (disconnect t step)"
    unfolding disconnect_def Let_def by (intro ok_rules)
  show "run_keeps stays_ok (serve_chain_sync e t step params)" "run_keeps stays_ok (serve_block_fetch e t step params)"
    "run_keeps stays_ok (serve_leios_notify e t step resolved)" "run_keeps stays_ok (serve_leios_fetch e t step resolved)"
    unfolding serve_chain_sync_def serve_block_fetch_def serve_leios_notify_def serve_leios_fetch_def
    by (rule ok_checked_out)+
qed

lemma ok_contract: "keeping_scheduler stays_ok sched \<Longrightarrow> step_contract stays_ok e sched"
  by unfold_locales (rule leaf_cases; rule ok_connect ok_query_tip ok_client_sessions ok_listening ok_handshake_step ok_other_arms)

interpretation ok_step: step_contract stays_ok e poll_in_order for e
  by (rule ok_contract) (rule ok_run.poll_in_order_keeping)

text \<open>C15: The two phases of a connection cannot be confused: after any steps of a scenario, nested to
  any depth and however they end, every outgoing connection on which a background worker runs has a
  negotiated version, and one with a negotiated version has neither its handshake channel nor its
  workers' channels left, so it can be negotiated and its workers started only once.\<close>

theorem workers_only_after_handshake:
  assumes "keeping_scheduler stays_ok sched" "rn_connections rn = []"
    and "run_steps (run_step (execute_step e sched t target magic) t) 0 steps 0 (rn, w) = Some (r, rn', w')"
  shows "runner_ok rn'"
proof -
  note step = step_contract.run_keeps_execute [OF ok_contract [OF assms(1)], of e t target magic]
  have "run_keeps stays_ok (run_steps (run_step (execute_step e sched t target magic) t) 0 steps 0)"
    by (intro ok_run.run_keeps_steps ok_run.run_keeps_step step)
  moreover have "runner_ok rn" using assms(2) by (simp add: runner_ok_def)
  ultimately show ?thesis using assms(3) by (auto dest: run_keepsD)
qed

text \<open>An environment in which every address is the same peer, which accepts version 14 and then is silent.\<close>

definition silent_link :: peer_link where
  "silent_link = \<lparr>pl_hs = Some (Inr (Accepted 14)), pl_cs = \<lparr>ch_find = None, ch_next = [], ch_done = None\<rparr>,
     pl_bf = \<lparr>bch_range = [], bch_block = [], bch_done = None\<rparr>, pl_ka = [], pl_ts = [],
     pl_ln = \<lparr>nch_next = [], nch_done = None\<rparr>, pl_lf = \<lparr>fch_fetch = [], fch_done = None\<rparr>\<rparr>"

definition silent_env :: env where
  "silent_env = bare_env\<lparr>resolve_address := \<lambda>_. Inr [''peer''], dial := \<lambda>_ _. Inr silent_link, version_keys := \<lambda>_. [14]\<rparr>"

lemma silent_connect:
  "reliable w \<Longrightarrow> \<exists>w'. execute_step silent_env sched t target magic (plain_step Connect) (JObject []) (rn, w) =
    Some (Ok (), rn\<lparr>rn_dials := Suc (rn_dials rn),
      rn_connections := AList.update ''default'' (new_connection silent_link None) (rn_connections rn)\<rparr>, w') \<and> reliable w'"
  by (subst execute_step_leaf) (simp add: step_params_empty leaf_step_def plain_step_def connect_def open_link_def
      open_bearer_def silent_env_def no_params_def name_or_default_def conn_as_def modify_runner_def run_simps Let_def)

definition negotiated :: "client_connection \<Rightarrow> client_connection" where
  "negotiated c = c\<lparr>cl_hs_channels := None, cl_negotiated_version := Some 14, cl_ka_handle := True, cl_ts_handle := True,
     cl_ka_channels := None, cl_ts_channels := None\<rparr>"

lemma silent_handshake:
  assumes "reliable w" "rn_connections rn = [(''default'', new_connection silent_link None)]"
  shows "\<exists>w'. execute_step silent_env sched t target magic (plain_step Handshake) (JObject []) (rn, w) =
    Some (Ok (), rn\<lparr>rn_connections := [(''default'', negotiated (new_connection silent_link None))]\<rparr>, w') \<and> reliable w'"
  using assms by (subst execute_step_leaf) (simp add: step_params_empty leaf_step_def plain_step_def handshake_step_def
      checked_out_client_def take_channel_def peer_tracer_def start_workers_def on_conn_def on_world_def on_runner_def
      name_or_default_def conn_on_def new_connection_def silent_link_def handshake_accepted_run negotiated_def run_simps)

lemma silent_step:
  assumes "reliable w" "\<And>w1. reliable w1 \<Longrightarrow> \<exists>w2. exec (plain_step k) (JObject []) (rn, w1) = Some (Ok (), rn', w2) \<and> reliable w2"
  shows "\<exists>w'. run_step exec t (plain_step k) idx (rn, w) = Some (Ok (), rn', w') \<and> reliable w'"
proof -
  have r: "resolve_step idx (plain_step k) (rn_vars rn) = Ok (JObject [], [])"
    by (simp add: resolve_step_def substitute_in_value_def step_input_def plain_step_def)
  have "reliable (step_world t idx (plain_step k) [] w)" using assms(1) by (simp add: step_world_def reliable_def logged_def Let_def)
  from assms(2) [OF this] obtain w2 where w2: "exec (plain_step k) (JObject []) (rn, step_world t idx (plain_step k) [] w) =
      Some (Ok (), rn', w2)" "reliable w2" by blast
  have "reliable (v\<lparr>event_buffer := []\<rparr>) = reliable v" for v by (simp add: reliable_def)
  with run_step_run [of w idx "plain_step k" rn "JObject []" "[]" exec t "Ok ()" rn' w2] assms(1) r w2 show ?thesis
    by (simp add: step_verdict_def expectation_met_def plain_step_def)
qed

theorem workers_only_after_handshake_witness:
  "\<exists>rn' w' c. run_steps (run_step (execute_step silent_env poll_in_order tracer_open ''h:1'' 2) tracer_open) 0
      [plain_step Connect, plain_step Handshake] 0 (runner_default, fresh_world) = Some (Ok (2, None), rn', w') \<and>
    runner_ok rn' \<and> rn_connections rn' = [(''default'', c)] \<and> cl_ka_handle c"
proof -
  let ?exec = "execute_step silent_env poll_in_order tracer_open ''h:1'' 2"
  let ?rn1 = "runner_default\<lparr>rn_dials := 1, rn_connections := [(''default'', new_connection silent_link None)]\<rparr>"
  let ?rn2 = "?rn1\<lparr>rn_connections := [(''default'', negotiated (new_connection silent_link None))]\<rparr>"
  have start: "rn_connections runner_default = []" "rn_dials runner_default = 0" by (simp_all add: runner_default_def)
  obtain w1 where w1: "run_step ?exec tracer_open (plain_step Connect) 0 (runner_default, fresh_world) = Some (Ok (), ?rn1, w1)"
    "reliable w1"
    using silent_step [of fresh_world ?exec Connect runner_default ?rn1 tracer_open 0]
      silent_connect [of _ poll_in_order tracer_open "''h:1''" 2 runner_default] start
    by (auto simp: reliable_fresh_world)
  obtain w2 where w2: "run_step ?exec tracer_open (plain_step Handshake) 1 (?rn1, w1) = Some (Ok (), ?rn2, w2)"
    using silent_step [of w1 ?exec Handshake ?rn1 ?rn2 tracer_open 1]
      silent_handshake [of _ ?rn1 poll_in_order tracer_open "''h:1''" 2] w1(2) by auto
  have run: "run_steps (run_step ?exec tracer_open) 0 [plain_step Connect, plain_step Handshake] 0 (runner_default, fresh_world) =
      Some (Ok (2, None), ?rn2, w2)"
    using w1(1) w2 by (simp add: run_simps)
  have "runner_ok ?rn2"
    by (rule workers_only_after_handshake [OF ok_run.poll_in_order_keeping _ run]) (rule start)
  with run show ?thesis by (auto simp: negotiated_def)
qed

section \<open>One session per channel\<close>

abbreviation stays_spent :: "(client_connection \<Rightarrow> 'a option) \<Rightarrow> client_connection \<times> runner \<times> world \<Rightarrow> client_connection \<times> runner \<times> world \<Rightarrow> bool" where
  "stays_spent channel s s' \<equiv> channel (fst s) = None \<longrightarrow> channel (fst s') = None"

interpretation spent: step_preorder "stays_spent channel" for channel
  by unfold_locales auto

lemma spent_on_runner: "run_keeps (stays_spent channel) (on_runner m)"
  unfolding run_keeps_def on_runner_def by (fastforce split: prod.splits option.splits)

lemma spent_on_world: "run_keeps (stays_spent channel) (on_world m)"
  unfolding run_keeps_def on_world_def by (fastforce split: prod.splits option.splits)

lemma spent_on_conn: "(\<And>c. channel c = None \<Longrightarrow> channel (snd (f c)) = None) \<Longrightarrow> run_keeps (stays_spent channel) (on_conn f)"
  by (rule run_keepsI) (auto simp: on_conn_def split: prod.splits, metis snd_conv)

lemmas spent_rules = spent.run_rules spent_on_runner spent_on_world

lemma spent_peer_tracer: "run_keeps (stays_spent channel) (peer_tracer t)"
  unfolding peer_tracer_def by (rule spent_on_conn) simp

lemma checked_out_client_Some:
  assumes "checked_out_client name (bind_run (take_channel msg channel taken) k) (rn, w) = Some (Ok x, rn', w')"
    and "\<And>c. channel (taken c) = None" "\<And>ch. run_keeps (stays_spent channel) (k ch)"
  shows "\<exists>c'. map_of (rn_connections rn') name = Some c' \<and> channel c' = None"
proof -
  from assms(1) obtain c where c: "map_of (rn_connections rn) name = Some c"
    by (auto simp: checked_out_client_def anyhow_def split: option.splits)
  let ?rn = "rn\<lparr>rn_connections := AList.delete name (rn_connections rn)\<rparr>"
  from assms(1) c obtain c' rn1 where run: "bind_run (take_channel msg channel taken) k (c, ?rn, w) = Some (Ok x, c', rn1, w')"
    "rn' = rn1\<lparr>rn_connections := AList.update name c' (rn_connections rn1)\<rparr>"
    by (auto simp: checked_out_client_def split: option.splits prod.splits)
  then obtain ch where "k ch (taken c, ?rn, w) = Some (Ok x, c', rn1, w')"
    by (cases "channel c") (auto simp: take_channel_def on_conn_def bind_run_def anyhow_def)
  from run_keepsD [OF assms(3) this] assms(2) have "channel c' = None" by simp
  with run(2) show ?thesis by (simp add: AList.update_conv')
qed

lemma spent_channel_refused:
  assumes "map_of (rn_connections rn) name = Some c" "channel c = None"
  shows "\<exists>err rn'. checked_out_client name (bind_run (take_channel msg channel taken) k) (rn, w) = Some (Err err, rn', w) \<and>
    map_of (rn_connections rn') = map_of (rn_connections rn)"
  using assms by (auto simp: checked_out_client_def take_channel_def on_conn_def bind_run_def anyhow_def AList.update_conv'
      AList.delete_conv' fun_eq_iff)

text \<open>The arms as a taken channel and the rest.\<close>

definition spends :: "step_def \<Rightarrow> (client_connection \<Rightarrow> 'a option) \<Rightarrow> unit run \<Rightarrow> bool" where
  "spends step channel m \<longleftrightarrow> (\<exists>msg taken k. m = checked_out_client (conn_on step) (bind_run (take_channel msg channel taken) k) \<and>
     (\<forall>c. channel (taken c) = None) \<and> (\<forall>ch. run_keeps (stays_spent channel) (k ch)))"

lemma spendsI: "(\<And>c. channel (taken c) = None) \<Longrightarrow> (\<And>ch. run_keeps (stays_spent channel) (k ch)) \<Longrightarrow>
    spends step channel (checked_out_client (conn_on step) (bind_run (take_channel msg channel taken) k))"
  unfolding spends_def by blast

lemma spending_arms:
  "spends step cl_hs_channels (handshake_step e t magic step)"
  "spends step cl_cs_channels (chain_sync_step e t step params)"
  "spends step cl_bf_channels (block_fetch_step e t step params)"
  "spends step cl_ln_channels (leios_notify_step t step params)"
  "spends step cl_lf_channels (leios_fetch_step t step params)"
proof -
  show "spends step cl_hs_channels (handshake_step e t magic step)"
    unfolding handshake_step_def start_workers_def
    by (rule spendsI) (simp, intro spent_rules spent_peer_tracer spent_on_conn, simp)
  show "spends step cl_cs_channels (chain_sync_step e t step params)"
    unfolding chain_sync_step_def Let_def
    by (rule spendsI) (simp, intro spent_rules spent_peer_tracer spent_on_conn, simp)
  have "run_keeps (stays_spent cl_bf_channels) (block_fetch_points_of step params)"
    unfolding block_fetch_points_of_def by (auto intro!: spent_rules spent_on_conn split: block_fetch_points.split)
  then show "spends step cl_bf_channels (block_fetch_step e t step params)"
    unfolding block_fetch_step_def by (intro spendsI) (simp, intro spent_rules spent_peer_tracer)
  show "spends step cl_ln_channels (leios_notify_step t step params)"
    "spends step cl_lf_channels (leios_fetch_step t step params)"
    unfolding leios_notify_step_def leios_fetch_step_def
    by (intro spendsI; (intro spent_rules spent_peer_tracer)?; simp)+
qed

lemma spends_once:
  assumes "spends step channel m" "spends step' channel m'" "conn_on step' = conn_on step" "m (rn, w) = Some (Ok (), rn', w')"
  shows "\<exists>err rn''. m' (rn', w') = Some (Err err, rn'', w') \<and> map_of (rn_connections rn'') = map_of (rn_connections rn')"
proof -
  from assms(1) obtain msg taken k where m: "m = checked_out_client (conn_on step) (bind_run (take_channel msg channel taken) k)"
    and taken: "\<And>c. channel (taken c) = None" and k: "\<And>ch. run_keeps (stays_spent channel) (k ch)"
    unfolding spends_def by blast
  from checked_out_client_Some [OF assms(4) [unfolded m] taken k] obtain c where
    c: "map_of (rn_connections rn') (conn_on step') = Some c" "channel c = None" unfolding assms(3) by blast
  from assms(2) obtain msg' taken' k' where
    m': "m' = checked_out_client (conn_on step') (bind_run (take_channel msg' channel taken') k')"
    unfolding spends_def by blast
  show ?thesis unfolding m' by (rule spent_channel_refused [OF c(1), of channel, OF c(2)])
qed

lemma leaf_sessions:
  "sd_kind step = Handshake \<Longrightarrow> leaf_step e t target magic step params resolved = handshake_step e t magic step"
  "sd_kind step = ChainSync \<Longrightarrow> leaf_step e t target magic step params resolved = chain_sync_step e t step params"
  "sd_kind step = BlockFetch \<Longrightarrow> leaf_step e t target magic step params resolved = block_fetch_step e t step params"
  "sd_kind step = LeiosNotify \<Longrightarrow> leaf_step e t target magic step params resolved = leios_notify_step t step params"
  "sd_kind step = LeiosFetch \<Longrightarrow> leaf_step e t target magic step params resolved = leios_fetch_step t step params"
  by (simp_all add: leaf_step_def)

lemma leaf_spends_once:
  assumes "sd_kind step \<in> {Handshake, ChainSync, BlockFetch, LeiosNotify, LeiosFetch}"
    and "sd_kind step' = sd_kind step" "conn_on step' = conn_on step"
    and run: "leaf_step e t target magic step params resolved (rn, w) = Some (Ok (), rn', w')"
  shows "\<exists>err rn''. leaf_step e t target magic step' params' resolved' (rn', w') = Some (Err err, rn'', w') \<and>
      map_of (rn_connections rn'') = map_of (rn_connections rn')"
proof -
  from assms(1) consider "sd_kind step = Handshake" | "sd_kind step = ChainSync" | "sd_kind step = BlockFetch" | "sd_kind step = LeiosNotify" | "sd_kind step = LeiosFetch" by auto
  then show ?thesis
  proof cases
    case 1
    with assms(2) have k: "sd_kind step' = Handshake" by simp
    show ?thesis
      unfolding leaf_sessions(1) [OF k]
      by (rule spends_once [OF spending_arms(1) spending_arms(1) assms(3) run [unfolded leaf_sessions(1) [OF 1]]])
  next
    case 2
    with assms(2) have k: "sd_kind step' = ChainSync" by simp
    show ?thesis
      unfolding leaf_sessions(2) [OF k]
      by (rule spends_once [OF spending_arms(2) spending_arms(2) assms(3) run [unfolded leaf_sessions(2) [OF 2]]])
  next
    case 3
    with assms(2) have k: "sd_kind step' = BlockFetch" by simp
    show ?thesis
      unfolding leaf_sessions(3) [OF k]
      by (rule spends_once [OF spending_arms(3) spending_arms(3) assms(3) run [unfolded leaf_sessions(3) [OF 3]]])
  next
    case 4
    with assms(2) have k: "sd_kind step' = LeiosNotify" by simp
    show ?thesis
      unfolding leaf_sessions(4) [OF k]
      by (rule spends_once [OF spending_arms(4) spending_arms(4) assms(3) run [unfolded leaf_sessions(4) [OF 4]]])
  next
    case 5
    with assms(2) have k: "sd_kind step' = LeiosFetch" by simp
    show ?thesis
      unfolding leaf_sessions(5) [OF k]
      by (rule spends_once [OF spending_arms(5) spending_arms(5) assms(3) run [unfolded leaf_sessions(5) [OF 5]]])
  qed
qed

text \<open>C24: A channel of an outgoing connection serves one session: after a handshake or a client session
  that succeeds, a second step of the same kind on the same connection fails, whatever its
  parameters, without writing to the trace or the wire and without changing any connection.\<close>

theorem client_session_runs_once:
  assumes "execute_step e sched t target magic step resolved (rn, w) = Some (Ok (), rn', w')"
    and "sd_kind step \<in> {Handshake, ChainSync, BlockFetch, LeiosNotify, LeiosFetch}"
    and "sd_kind step' = sd_kind step" "conn_on step' = conn_on step"
  shows "\<exists>r rn''. execute_step e sched t target magic step' resolved' (rn', w') = Some (r, rn'', w') \<and> \<not> is_ok r \<and>
    map_of (rn_connections rn'') = map_of (rn_connections rn')"
proof -
  have kinds: "sd_kind step \<noteq> Repeat" "sd_kind step \<noteq> Parallel" "sd_kind step' \<noteq> Repeat" "sd_kind step' \<noteq> Parallel"
    using assms(2,3) by auto
  have "bind_run (res_run p) (\<lambda>params. leaf_step e t target magic step params resolved) (rn, w) = Some (Ok (), rn', w') \<Longrightarrow>
      \<exists>params. leaf_step e t target magic step params resolved (rn, w) = Some (Ok (), rn', w')" for p
    by (cases p) (auto simp: res_run_def)
  moreover note assms(1) [unfolded execute_step_leaf [of e sched t target magic step resolved]]
  ultimately obtain params where first: "leaf_step e t target magic step params resolved (rn, w) = Some (Ok (), rn', w')"
    using kinds(1,2) by (auto simp only: if_False simp_thms)
  have "\<exists>r rn''. bind_run (res_run p) (\<lambda>params. leaf_step e t target magic step' params resolved') (rn', w') = Some (r, rn'', w') \<and>
      \<not> is_ok r \<and> map_of (rn_connections rn'') = map_of (rn_connections rn')" for p
    using leaf_spends_once [OF assms(2-4) first, of _ resolved'] by (cases p) (fastforce simp: res_run_def)+
  then show ?thesis
    using kinds(3,4) by (subst execute_step_leaf) (simp only: if_False simp_thms)
qed

theorem client_session_runs_once_witness:
  "\<exists>rn' w' r rn''. execute_step silent_env poll_in_order tracer_open ''h:1'' 2 (plain_step Handshake) (JObject [])
      (runner_default\<lparr>rn_connections := [(''default'', new_connection silent_link None)]\<rparr>, fresh_world) = Some (Ok (), rn', w') \<and>
    execute_step silent_env poll_in_order tracer_open ''h:1'' 2 (plain_step Handshake) (JObject []) (rn', w') = Some (r, rn'', w') \<and>
    \<not> is_ok r"
proof -
  let ?rn = "runner_default\<lparr>rn_connections := [(''default'', new_connection silent_link None)]\<rparr>"
  obtain rn' w' where run: "execute_step silent_env poll_in_order tracer_open ''h:1'' 2 (plain_step Handshake) (JObject [])
      (?rn, fresh_world) = Some (Ok (), rn', w')"
    using silent_handshake [of fresh_world ?rn poll_in_order tracer_open "''h:1''" 2] by (auto simp: reliable_fresh_world)
  from client_session_runs_once [OF run, of "plain_step Handshake" "JObject []"] run show ?thesis
    by (auto simp: plain_step_def)
qed

end
