(* ===== verification/EndLaws.thy ===== *)
theory EndLaws
  imports ExecuteLaws
begin

text \<open>
  When a run ends: code that returns in every state with a certain invariant, and keeps it. The rules compose
  over the runner's bookkeeping, repeats and parallel steps to runs of a whole scenario, with the
  arms of \<open>execute_step\<close> (\<open>scenario/runner.rs\<close>) that do not wait for a server's answers.
\<close>

section \<open>Code that returns\<close>

definition ends_in :: "('s \<Rightarrow> bool) \<Rightarrow> ('a, 's) stepper \<Rightarrow> bool" where
  "ends_in I m \<longleftrightarrow> (\<forall>s. I s \<longrightarrow> (\<exists>r s'. m s = Some (r, s') \<and> I s'))"

lemma ends_inD: "ends_in I m \<Longrightarrow> I s \<Longrightarrow> \<exists>r s'. m s = Some (r, s') \<and> I s'"
  unfolding ends_in_def by blast

lemma ends_in_res: "ends_in I (res_run r)"
  by (simp add: ends_in_def res_run_def)

lemma ends_in_bind:
  assumes "ends_in I m" "\<And>x. ends_in I (k x)"
  shows "ends_in I (bind_run m k)"
  unfolding ends_in_def
proof (intro allI impI)
  fix s assume "I s"
  with ends_inD [OF assms(1)] obtain r s1 where "m s = Some (r, s1)" "I s1" by blast
  with ends_inD [OF assms(2)] show "\<exists>r s'. bind_run m k s = Some (r, s') \<and> I s'"
    by (cases r) (auto simp: bind_run_def)
qed

lemma ends_in_match:
  assumes "ends_in I m" "\<And>x. ends_in I (k x)"
  shows "ends_in I (match_run m k)"
  unfolding ends_in_def
proof (intro allI impI)
  fix s assume "I s"
  with ends_inD [OF assms(1)] obtain r s1 where "m s = Some (r, s1)" "I s1" by blast
  with ends_inD [OF assms(2)] show "\<exists>r s'. match_run m k s = Some (r, s') \<and> I s'"
    by (cases r) (auto simp: match_run_def)
qed

text \<open>After a computed result, with what is known of it.\<close>

lemma ends_in_bind_res: "(\<And>x. r = Ok x \<Longrightarrow> ends_in I (k x)) \<Longrightarrow> ends_in I (bind_run (res_run r) k)"
  by (cases r) (simp_all add: ends_in_res)

lemma ends_in_if: "(b \<Longrightarrow> ends_in I m) \<Longrightarrow> (\<not> b \<Longrightarrow> ends_in I n) \<Longrightarrow> ends_in I (if b then m else n)"
  by simp

lemma ends_in_option:
  "(v = None \<Longrightarrow> ends_in I m) \<Longrightarrow> (\<And>x. v = Some x \<Longrightarrow> ends_in I (k x)) \<Longrightarrow> ends_in I (case v of None \<Rightarrow> m | Some x \<Rightarrow> k x)"
  by (cases v) auto

lemma ends_in_sum:
  "(\<And>x. ends_in I (j x)) \<Longrightarrow> (\<And>x. ends_in I (k x)) \<Longrightarrow> ends_in I (case v of Inl x \<Rightarrow> j x | Inr x \<Rightarrow> k x)"
  by (cases v) auto

lemma ends_in_prod: "(\<And>a b. p = (a, b) \<Longrightarrow> ends_in I (f a b)) \<Longrightarrow> ends_in I (case p of (a, b) \<Rightarrow> f a b)"
  by (cases p) auto

lemmas end_rules = ends_in_bind_res ends_in_res ends_in_bind ends_in_match ends_in_if ends_in_option ends_in_sum ends_in_prod

text \<open>A scheduler is asked to return when the steps of the branches do.\<close>

definition world_blind :: "(runner \<times> world \<Rightarrow> bool) \<Rightarrow> bool" where
  "world_blind I \<longleftrightarrow> (\<forall>rn w w'. I (rn, w) \<longrightarrow> I (rn, w'))"

definition ending_scheduler :: "scheduler \<Rightarrow> bool" where
  "ending_scheduler sched \<longleftrightarrow> (\<forall>I t run1 branches. world_blind I \<longrightarrow>
     (\<forall>b \<in> set branches. \<forall>s \<in> set b. \<forall>i. ends_in I (run1 s i)) \<longrightarrow> ends_in I (sched t run1 branches))"

section \<open>Steps at every depth\<close>

function all_parts :: "(step_def \<Rightarrow> bool) \<Rightarrow> step_def \<Rightarrow> bool" where
  "all_parts P step \<longleftrightarrow> P step \<and>
     (case repeat_body step of Ok body \<Rightarrow> \<forall>s \<in> set body. all_parts P s | _ \<Rightarrow> True) \<and>
     (case parallel_branches step of Ok branches \<Rightarrow> \<forall>b \<in> set branches. \<forall>s \<in> set b. all_parts P s | _ \<Rightarrow> True)"
  by pat_completeness auto
termination
  by (relation "measure (\<lambda>(P, step). step_size step)") (auto intro: repeat_body_smaller guard_holds)

declare all_parts.simps [simp del]

text \<open>What a step is run with: its parameters after substitution.\<close>

definition resolves_to :: "step_def \<Rightarrow> json \<Rightarrow> bool" where
  "resolves_to step resolved \<longleftrightarrow> (\<exists>vars refs. substitute_in_value (step_input step) vars = Ok (resolved, refs))"

section \<open>The bookkeeping returns\<close>

locale ending = 
  fixes I :: "runner \<times> world \<Rightarrow> bool"
  assumes blind: "world_blind I"
begin

lemma ends_io: "ends_in I (io_run m)"
  using blind by (auto simp: ends_in_def io_run_def world_blind_def split: prod.splits)

lemma ends_emit: "ends_in I (do_emit t ev)" "ends_in I (try_emit t ev)" "ends_in I (asks f)"
  unfolding do_emit_def try_emit_def by (rule ends_io)+ (simp add: ends_in_def asks_def)

lemma ends_try_emit_all: "ends_in I (try_emit_all t es)"
  by (induction es) (auto intro!: end_rules ends_emit)

lemma ends_run_step:
  assumes "\<And>resolved. resolves_to step resolved \<Longrightarrow> ends_in I (exec step resolved)"
  shows "ends_in I (run_step exec t step idx)"
proof -
  have resolved: "resolves_to step (fst x)" if "resolve_step idx step vars = Ok x" for vars x
    using that by (cases "substitute_in_value (step_input step) vars"; cases x) (auto simp: resolve_step_def resolves_to_def)
  show ?thesis
    unfolding run_step_def Let_def finish_step_def
    by (intro end_rules ends_emit ends_io ends_try_emit_all) (rule assms, force dest: resolved)
qed

lemma ends_run_steps: "(\<And>s i. s \<in> set ss \<Longrightarrow> ends_in I (run1 s i)) \<Longrightarrow> ends_in I (run_steps run1 i ss n)"
  by (induction ss arbitrary: i n) (auto intro!: end_rules)

lemma ends_run_body: "(\<And>s i. s \<in> set ss \<Longrightarrow> ends_in I (run1 s i)) \<Longrightarrow> ends_in I (run_body run1 t it i ss)"
  by (induction ss arbitrary: i) (auto intro!: end_rules ends_emit)

lemma ends_repeat_loop:
  "(\<And>s i. s \<in> set body \<Longrightarrow> ends_in I (run1 s i)) \<Longrightarrow> ends_in I (repeat_loop run1 t n_times body n it)"
  by (induction n arbitrary: it) (auto intro!: end_rules ends_emit ends_run_body)

lemma ends_repeat_step:
  assumes "\<And>body s i. repeat_body step = Ok body \<Longrightarrow> s \<in> set body \<Longrightarrow> ends_in I (run1 s i)"
  shows "ends_in I (repeat_step render run1 t step resolved)"
  unfolding repeat_step_def by (intro end_rules ends_repeat_loop) (rule assms)

lemma ends_parallel_step:
  assumes "ending_scheduler sched"
    and "\<And>branches b s i. parallel_branches step = Ok branches \<Longrightarrow> b \<in> set branches \<Longrightarrow> s \<in> set b \<Longrightarrow> ends_in I (run1 s i)"
  shows "ends_in I (parallel_step sched run1 t step)"
proof -
  have "ends_in I (sched t run1 branches)" if "parallel_branches step = Ok branches" for branches
    using assms(1) blind assms(2) [OF that] by (simp add: ending_scheduler_def)
  then show ?thesis
    unfolding parallel_step_def close_parallel_def
    by (intro end_rules ends_emit ends_try_emit_all)
qed

lemma ends_branch: "(\<And>s i. s \<in> set steps \<Longrightarrow> ends_in I (run1 s i)) \<Longrightarrow> ends_in I (branch_run t run1 b steps)"
proof -
  assume run1: "\<And>s i. s \<in> set steps \<Longrightarrow> ends_in I (run1 s i)"
  then have "ends_in I (branch_steps_run t run1 b si steps)" for si
    by (induction steps arbitrary: si) (auto intro!: end_rules ends_emit)
  then show ?thesis unfolding branch_run_def by (intro end_rules ends_emit)
qed

lemma ends_poll:
  "(\<And>b s i. b \<in> set branches \<Longrightarrow> s \<in> set b \<Longrightarrow> ends_in I (run1 s i)) \<Longrightarrow> ends_in I (poll_from t run1 n branches)"
  by (induction branches arbitrary: n) (auto intro!: end_rules ends_branch)

end

lemma poll_in_order_ends: "ending_scheduler poll_in_order"
  by (auto simp: ending_scheduler_def poll_in_order_def intro: ending.ends_poll ending.intro)

text \<open>The dispatch: leaf arms that return for the steps that are admitted.\<close>

locale ending_steps = ending I for I :: "runner \<times> world \<Rightarrow> bool" +
  fixes e :: env and sched :: scheduler and admitted :: "step_def \<Rightarrow> bool"
  assumes leaf: "admitted step \<Longrightarrow> resolves_to step resolved \<Longrightarrow> step_params_from_value resolved = Ok params \<Longrightarrow>
      sd_kind step \<noteq> Repeat \<Longrightarrow> sd_kind step \<noteq> Parallel \<Longrightarrow> ends_in I (leaf_step e t target magic step params resolved)"
    and scheduled: "ending_scheduler sched"
begin

lemma ends_execute:
  assumes "all_parts admitted step" "resolves_to step resolved"
  shows "ends_in I (execute_step e sched t target magic step resolved)"
  using assms
proof (induction "step_size step" arbitrary: step resolved rule: less_induct)
  case less
  let ?exec = "execute_step e sched t target magic"
  note parts = less.prems(1) [unfolded all_parts.simps [of admitted step]]
  have below: "ends_in I (run_step ?exec t s i)" if "step_size s < step_size step" "all_parts admitted s" for s i
    by (rule ends_run_step, rule less.hyps [OF that])
  have body: "ends_in I (run_step ?exec t s i)" if "repeat_body step = Ok b" "s \<in> set b" for b s i
    using parts that by (intro below repeat_body_smaller [OF that]) auto
  have branch: "ends_in I (if step_size s < step_size step then run_step ?exec t s i else waits_for_ever)"
    if "parallel_branches step = Ok bs" "b \<in> set bs" "s \<in> set b" for bs b s i
    using parts that guard_holds [OF that] below [of s i] by auto
  have params: "step_params_from_value resolved = Ok p"
    if "with_context msg (step_params_from_value resolved) = Ok p" for msg p
    using that by (cases "step_params_from_value resolved") simp_all
  have repeats: "ends_in I (repeat_step (render_json e) (\<lambda>s i. run_step ?exec t s i) t step resolved)"
    by (rule ends_repeat_step, erule (1) body)
  have branches: "ends_in I (parallel_step sched (\<lambda>s i. if step_size s < step_size step then run_step ?exec t s i
      else waits_for_ever) t step)"
    by (rule ends_parallel_step [OF scheduled], erule (2) branch)
  have leaves: "ends_in I (leaf_step e t target magic step p resolved)"
    if "with_context msg (step_params_from_value resolved) = Ok p" "sd_kind step \<noteq> Repeat" "sd_kind step \<noteq> Parallel" for msg p
    using parts less.prems(2) params [OF that(1)] that(2,3) by (intro leaf) simp_all
  show ?case
    by (subst execute_step_leaf, rule ends_in_bind_res, rule ends_in_if, rule repeats, rule ends_in_if, rule branches, erule (2) leaves)
qed

lemma ends_steps:
  "\<forall>s \<in> set ss. all_parts admitted s \<Longrightarrow> ends_in I (run_steps (run_step (execute_step e sched t target magic) t) i ss n)"
  by (intro ends_run_steps ends_run_step ends_execute) auto

end

section \<open>The clock\<close>

text \<open>The only unbounded loop of the program: it ends below the greatest slot.\<close>

lemma push_slots_ends:
  assumes "interval \<noteq> 0" "to \<noteq> - 1"
  shows "push_slots interval to s acc \<noteq> None"
proof (induction "2 ^ 64 - unat s" arbitrary: s acc rule: less_induct)
  case less
  show ?case
  proof (cases "s \<le> to")
    case True
    have "unat to \<noteq> 2 ^ 64 - 1" using assms(2) unat_max_u64 unfolding word_unat_eq_iff by simp
    then have "unat to < 2 ^ 64 - 1" using unat_lt64 [of to] by linarith
    with True have "unat s < 2 ^ 64 - 1" by (simp add: word_le_nat_alt)
    moreover have "0 < unat interval" using assms(1) by (simp add: unat_gt_0)
    ultimately have "unat s < unat (saturating_add s interval)"
      unfolding unat_saturating_add by (simp add: min_def)
    then have "2 ^ 64 - unat (saturating_add s interval) < 2 ^ 64 - unat s"
      using unat_lt64 [of "saturating_add s interval"] by linarith
    from less [OF this] True show ?thesis by (subst push_slots.simps) simp
  next
    case False
    then show ?thesis by (subst push_slots.simps) simp
  qed
qed

definition periodic :: "production_rule option \<Rightarrow> bool" where
  "periodic rule = (case rule of None \<Rightarrow> False | Some r \<Rightarrow> rule_interval r \<noteq> 0)"

lemma every_n_slots_range_ends: "interval = 0 \<or> to \<noteq> - 1 \<Longrightarrow> every_n_slots_range f interval lo to \<noteq> None"
  using push_slots_ends [of interval to] by (auto simp: every_n_slots_range_def Let_def)

lemma slots_in_range_ends: "\<not> periodic (Some rule) \<or> to \<noteq> - 1 \<Longrightarrow> slots_in_range rule lo to \<noteq> None"
  using every_n_slots_range_ends [of _ to _ lo]
  by (cases rule) (auto simp: periodic_def slots_in_range_def unat_eq_0 simp del: not_None_eq split: option.split)

definition calm_peers :: "bool \<Rightarrow> peers \<Rightarrow> bool" where
  "calm_peers calm peers \<longleftrightarrow> (calm \<longrightarrow> (\<forall>p \<in> snd ` set peers. \<not> periodic (ps_production_rule p)))"

lemma calm_update:
  "calm_peers calm peers \<Longrightarrow> (calm \<Longrightarrow> \<not> periodic (ps_production_rule p)) \<Longrightarrow> calm_peers calm (AList.update k p peers)"
  using update_values [of k p peers] unfolding calm_peers_def by blast

lemma collect_tasks_ends:
  assumes "calm_peers calm peers" "calm \<or> new \<noteq> - 1"
  shows "collect_tasks old new peers \<noteq> None"
  using assms
proof (induction peers)
  case (Cons p peers)
  have "production_task old new p \<noteq> None"
  proof (cases "ps_production_rule (snd p)")
    case (Some rule)
    have "slots_in_range rule (old + 1) new \<noteq> None"
      by (rule slots_in_range_ends) (use Cons.prems Some in \<open>auto simp: calm_peers_def\<close>)
    then show ?thesis by (auto simp: production_task_def Some)
  qed (simp add: production_task_def)
  moreover have "collect_tasks old new peers \<noteq> None" using Cons by (simp add: calm_peers_def)
  ultimately show ?case by (auto simp: try_div_def split: res.split)
qed simp

lemma run_tasks_calm: "run_tasks h ts peers = Ok (evs, peers') \<Longrightarrow> calm_peers calm peers \<Longrightarrow> calm_peers calm peers'"
proof (induction ts arbitrary: peers evs)
  case (Cons x ts)
  obtain pid kind slots ctx where x: "x = (pid, kind, slots, ctx)" by (cases x)
  from Cons.prems(1) x obtain st where st: "map_of peers pid = Some st" by (auto split: option.splits)
  let ?st = "snd (produce_slots h pid kind ctx slots st)"
  from Cons.prems(1) x st obtain evs' where run: "run_tasks h ts (AList.update pid ?st peers) = Ok (evs', peers')"
    by (auto simp: split_beta)
  have "calm_peers calm (AList.update pid ?st peers)"
    using Cons.prems(2) map_of_SomeD [OF st] by (intro calm_update) (force simp: calm_peers_def)+
  with Cons.IH [OF run] show ?case .
qed simp

definition clock_calm :: "bool \<Rightarrow> runner \<times> world \<Rightarrow> bool" where
  "clock_calm calm s \<longleftrightarrow> calm_peers calm (rn_peers (fst s))"

lemma ends_produce: "calm \<or> new \<noteq> - 1 \<Longrightarrow> ends_in (clock_calm calm) (produce e old new)"
  unfolding ends_in_def
proof (intro allI impI)
  fix s assume a: "calm \<or> new \<noteq> - 1" "clock_calm calm s"
  obtain rn w where s: "s = (rn, w)" by (cases s)
  from a s have q: "calm_peers calm (rn_peers rn)" by (simp add: clock_calm_def)
  from collect_tasks_ends [OF q a(1), of old]
  have "apply_production_rules (blake2b_256 e) (rn_peers rn) old new \<noteq> None"
    by (auto simp: apply_production_rules_def try_div_def split: res.split)
  then obtain r where r: "apply_production_rules (blake2b_256 e) (rn_peers rn) old new = Some r" by blast
  have "calm_peers calm peers'" if "r = Ok (evs, peers')" for evs peers'
    using r that q run_tasks_calm
    by (auto simp: apply_production_rules_def try_div_def split: option.splits res.splits)
  with r a(2) show "\<exists>r s'. produce e old new s = Some (r, s') \<and> clock_calm calm s'"
    by (cases r) (auto simp: produce_def s clock_calm_def)
qed

section \<open>Steps that end by themselves\<close>

text \<open>Code that returns everywhere and leaves the peers alone.\<close>

lemma ends_same_peers:
  assumes "\<And>rn w. \<exists>r rn' w'. m (rn, w) = Some (r, rn', w') \<and> rn_peers rn' = rn_peers rn"
  shows "ends_in (clock_calm calm) m"
  unfolding ends_in_def
proof (intro allI impI)
  fix s assume "clock_calm calm s"
  with assms [of "fst s" "snd s"] show "\<exists>r s'. m s = Some (r, s') \<and> clock_calm calm s'"
    by (force simp: clock_calm_def)
qed

interpretation calm: ending "clock_calm calm" for calm
  by unfold_locales (simp add: world_blind_def clock_calm_def)

lemma ends_prims:
  "ends_in (clock_calm calm) (load_slot msg)" "ends_in (clock_calm calm) (store_slot n)"
  "ends_in (clock_calm calm) (open_link e a b c addr)"
  "ends_in (clock_calm calm) (checked_out name f)"
  by (rule ends_same_peers; simp add: load_slot_def store_slot_def open_link_def checked_out_def Let_def
      split: option.split prod.split)+

lemma ends_modify: "(\<And>rn. rn_peers (f rn) = rn_peers rn) \<Longrightarrow> ends_in (clock_calm calm) (modify_runner f)"
  by (rule ends_same_peers) (simp add: modify_runner_def)

lemmas calm_rules = end_rules calm.ends_emit calm.ends_io ends_prims

lemma ends_update_peers:
  assumes "\<And>peers peers'. f peers = Ok peers' \<Longrightarrow> calm_peers calm peers \<Longrightarrow> calm_peers calm peers'"
  shows "ends_in (clock_calm calm) (update_peers f)"
  unfolding ends_in_def
proof (intro allI impI)
  fix s assume "clock_calm calm s"
  with assms [of "rn_peers (fst s)"] show "\<exists>r s'. update_peers f s = Some (r, s') \<and> clock_calm calm s'"
    by (cases s; cases "f (rn_peers (fst s))") (auto simp: update_peers_def clock_calm_def)
qed

lemma extend_peer_calm: "extend_peer pid entry body peers = Ok peers' \<Longrightarrow> calm_peers calm peers \<Longrightarrow> calm_peers calm peers'"
proof -
  assume "extend_peer pid entry body peers = Ok peers'" and calm: "calm_peers calm peers"
  then obtain ps where ps: "map_of peers pid = Some ps" "peers' = AList.update pid (push_entry entry body ps) peers"
    by (cases "map_of peers pid") (auto simp: extend_peer_def)
  have "calm \<Longrightarrow> \<not> periodic (ps_production_rule ps)"
    using calm map_of_SomeD [OF ps(1)] by (force simp: calm_peers_def)
  then show ?thesis using calm unfolding ps(2) by (intro calm_update) (simp_all add: push_entry_def)
qed

text \<open>The arms. A client that connects must make itself heard: \<open>peers_show_up\<close> says that somebody connects to every
  listener, and that a negotiation comes to a result.\<close>

definition peers_show_up :: "env \<Rightarrow> bool" where
  "peers_show_up e \<longleftrightarrow> (\<forall>n. case accept e n of
     None \<Rightarrow> False | Some (Inl err) \<Rightarrow> True | Some (Inr link) \<Rightarrow> al_handshake link \<noteq> None)"

lemma ends_accept_handshake:
  assumes "peers_show_up e"
  shows "ends_in (clock_calm calm) (accept_handshake e t magic step params)"
proof -
  have bind: "ends_in (clock_calm calm) (bind_run (accept_link e) k)"
    if k: "\<And>link. al_handshake link \<noteq> None \<Longrightarrow> ends_in (clock_calm calm) (k link)" for k :: "accepted_link \<Rightarrow> unit run"
    unfolding ends_in_def
  proof (intro allI impI)
    fix s assume s: "clock_calm calm s"
    obtain rn w where rn: "s = (rn, w)" by (cases s)
    from assms have "case accept e (rn_accepts rn) of
        None \<Rightarrow> False | Some (Inl err) \<Rightarrow> True | Some (Inr link) \<Rightarrow> al_handshake link \<noteq> None"
      unfolding peers_show_up_def by blast
    then consider (err) err where "accept e (rn_accepts rn) = Some (Inl err)"
      | (link) link where "accept e (rn_accepts rn) = Some (Inr link)" "al_handshake link \<noteq> None"
      by (auto split: option.splits sum.splits)
    then show "\<exists>r s'. bind_run (accept_link e) k s = Some (r, s') \<and> clock_calm calm s'"
    proof cases
      case err
      with s rn show ?thesis by (simp add: bind_run_def accept_link_def clock_calm_def anyhow_def)
    next
      case link
      have "clock_calm calm (rn\<lparr>rn_accepts := Suc (rn_accepts rn)\<rparr>, w)" using s rn by (simp add: clock_calm_def)
      from ends_inD [OF k [OF link(2)] this] link(1) show ?thesis by (simp add: bind_run_def accept_link_def rn)
    qed
  qed
  show ?thesis
    unfolding accept_handshake_def Let_def
    by (intro bind calm_rules ends_modify) simp_all
qed

text \<open>The kinds that wait for a server.\<close>

definition awaits_server :: "step_kind \<Rightarrow> bool" where
  "awaits_server kind \<longleftrightarrow> list_ex (\<lambda>k. k = kind) [Handshake, QueryTip, ChainSync, BlockFetch, LeiosNotify, LeiosFetch]"

text \<open>With a periodic rule about, the clock must be told where to go, and not to the greatest slot.\<close>

definition ends_by_itself :: "bool \<Rightarrow> step_def \<Rightarrow> bool" where
  "ends_by_itself calm step \<longleftrightarrow> \<not> awaits_server (sd_kind step) \<and> (sd_kind step = TickSlots \<longrightarrow> calm) \<and>
     (sd_kind step = AdvanceToSlot \<longrightarrow> calm \<or>
       (case json_get ''slot'' (sd_raw_params step) of Some (JNumber (PosInt n)) \<Rightarrow> n \<noteq> - 1 | _ \<Rightarrow> False))"

lemma literal_slot:
  assumes "resolves_to step resolved" "sd_kind step = AdvanceToSlot"
    and "json_get ''slot'' (sd_raw_params step) = Some (JNumber x)"
  shows "json_get ''slot'' resolved = Some (JNumber x)"
proof -
  from assms(3) obtain m where m: "sd_raw_params step = JObject m" by (cases "sd_raw_params step") auto
  from assms(1,2) obtain vars refs where "substitute_inner vars (sd_raw_params step) = Ok (resolved, refs)"
    by (auto simp: resolves_to_def step_input_def substitute_in_value_def)
  then have "resolved = map_strings (leaf_value vars) (sd_raw_params step)" by (rule substitute_value_leaves)
  with assms(3) show ?thesis by (simp add: m map_of_map)
qed

lemma slot_param:
  assumes "step_params_from_value resolved = Ok params" "json_get ''slot'' resolved = Some (JNumber (PosInt n))"
  shows "sp_slot params = Some n"
  using assms by (cases resolved) (auto simp: step_params_from_value_def read_param_def [of _ "''slot''"] field_or_null_def
      opt_from_value_def u64_from_value_def)

lemma ends_advance_to_slot:
  assumes "calm \<or> sp_slot params \<noteq> Some (- 1)"
  shows "ends_in (clock_calm calm) (advance_to_slot e t params)"
  unfolding advance_to_slot_def
  by (intro calm_rules ends_produce) (use assms in \<open>auto simp: ok_or_def split: option.splits\<close>)

lemma ends_tick_slots: "calm \<Longrightarrow> ends_in (clock_calm calm) (tick_slots e t params)"
  unfolding tick_slots_def Let_def by (intro calm_rules ends_produce) simp

lemma ends_leaf:
  assumes "peers_show_up e" "ends_by_itself calm step" "resolves_to step resolved"
    and "step_params_from_value resolved = Ok params" "sd_kind step \<noteq> Repeat" "sd_kind step \<noteq> Parallel"
  shows "ends_in (clock_calm calm) (leaf_step e t target magic step params resolved)"
proof -
  have advance: "calm \<or> sp_slot params \<noteq> Some (- 1)" if "sd_kind step = AdvanceToSlot"
  proof (rule disjCI)
    assume "\<not> sp_slot params \<noteq> Some (- 1)"
    then have "\<not> (\<exists>n. json_get ''slot'' (sd_raw_params step) = Some (JNumber (PosInt n)) \<and> n \<noteq> - 1)"
      using literal_slot [OF assms(3) that] slot_param [OF assms(4)] by force
    with assms(2) that show calm
      by (auto simp: ends_by_itself_def split: option.splits json.splits json_number.splits)
  qed
  have tick: calm if "sd_kind step = TickSlots" using assms(2) that by (simp add: ends_by_itself_def)
  have servers: "ends_in (clock_calm calm) (serve_chain_sync e t step params)" "ends_in (clock_calm calm) (serve_block_fetch e t step params)"
    "ends_in (clock_calm calm) (serve_leios_notify e t step resolved)" "ends_in (clock_calm calm) (serve_leios_fetch e t step resolved)"
    unfolding serve_chain_sync_def serve_block_fetch_def serve_leios_notify_def serve_leios_fetch_def
    by (rule ends_prims)+
  have conns: "ends_in (clock_calm calm) (connect e t target step params)" "ends_in (clock_calm calm) (listen e t step params)"
    unfolding connect_def listen_def Let_def by (intro calm_rules ends_modify; simp)+
  have close: "ends_in (clock_calm calm) (close_listener t step)" "ends_in (clock_calm calm) (disconnect t step)"
    unfolding close_listener_def disconnect_def Let_def
    by (intro calm_rules ends_same_peers; simp split: option.split)+
  have extend: "ends_in (clock_calm calm) (peer_extends_chain t params)"
    unfolding peer_extends_chain_def by (intro calm_rules ends_update_peers, erule (1) extend_peer_calm)
  have rest: "ends_in (clock_calm calm) (emit_peer_event t resolved params)" "ends_in (clock_calm calm) (sleep_step params)"
    unfolding emit_peer_event_def sleep_step_def Let_def by (intro calm_rules)+
  from assms(2) have "\<not> awaits_server (sd_kind step)" by (simp add: ends_by_itself_def)
  then show ?thesis
    using advance tick assms(5,6) servers conns close extend rest ends_accept_handshake [OF assms(1)]
      ends_advance_to_slot ends_tick_slots
    by (cases "sd_kind step") (simp_all add: leaf_step_def awaits_server_def)
qed

lemma calm_steps:
  assumes "peers_show_up e" "ending_scheduler sched"
  shows "ending_steps (clock_calm calm) e sched (ends_by_itself calm)"
  by unfold_locales (rule ends_leaf [OF assms(1)], assumption+, rule assms(2))

text \<open>Any surroundings, in which a connection that never comes, or never negotiates, fails instead.\<close>

definition answered :: "env \<Rightarrow> env" where
  "answered e = e\<lparr>accept := \<lambda>n. case accept e n of
     Some (Inr link) \<Rightarrow> if al_handshake link = None then Some (Inl []) else Some (Inr link)
   | Some (Inl err) \<Rightarrow> Some (Inl err) | None \<Rightarrow> Some (Inl [])\<rparr>"

lemma answered_show_up: "peers_show_up (answered e)"
  by (auto simp: peers_show_up_def answered_def split: option.split sum.split)

interpretation serving: ending_steps "clock_calm calm" "answered e" poll_in_order "ends_by_itself calm" for calm e
  by (rule calm_steps [OF answered_show_up poll_in_order_ends])

section \<open>Whole runs\<close>

lemma ends_bind_io:
  assumes "\<And>x w w'. m w = (Ok x, w') \<Longrightarrow> ends_in (clock_calm calm) (k x)"
  shows "ends_in (clock_calm calm) (bind_run (io_run m) k)"
  unfolding ends_in_def
proof (intro allI impI)
  fix s assume calm: "clock_calm calm s"
  obtain rn w where s: "s = (rn, w)" by (cases s)
  obtain r w' where r: "m w = (r, w')" by (cases "m w")
  have "clock_calm calm (rn, w')" using calm by (simp add: s clock_calm_def)
  with r s assms [of w] show "\<exists>r s'. bind_run (io_run m) k s = Some (r, s') \<and> clock_calm calm s'"
    by (cases r) (auto simp: bind_run_def io_run_def dest: ends_inD)
qed

lemma try_io_Ok: "try_io m k w = (Ok y, w') \<longleftrightarrow> (\<exists>x w1. m w = (Ok x, w1) \<and> k x w1 = (Ok y, w'))"
  by (auto simp: try_io_def split: prod.splits res.splits)

lemma init_peer_rule: "init_peer e p = Ok st \<Longrightarrow> ps_production_rule st = production_rule p"
  by (auto simp: init_peer_def extend_from_block_fixture_chain_def Let_def split: option.splits)

lemma init_peers_calm:
  assumes "init_peers e t ps m w = (Ok peers, w')" "\<forall>p \<in> set ps. \<not> periodic (production_rule p)" "calm_peers True m"
  shows "calm_peers True peers"
  using assms
proof (induction ps arbitrary: m w)
  case Nil
  then show ?case by (simp add: ret_def)
next
  case (Cons p ps)
  from Cons.prems(1) obtain st w1 where st: "init_peer e p = Ok st" "init_peers e t ps (AList.update (peer_id p) st m) w1 = (Ok peers, w')"
    by (auto simp: try_io_Ok lift_res_def)
  have "calm_peers True (AList.update (peer_id p) st m)"
    using Cons.prems(2,3) init_peer_rule [OF st(1)] by (intro calm_update) simp_all
  with Cons.IH [OF st(2)] Cons.prems(2) show ?case by simp
qed

text \<open>A network without a periodic rule.\<close>

definition calm_network :: "network option \<Rightarrow> bool" where
  "calm_network network = (case network of None \<Rightarrow> True | Some net \<Rightarrow> list_all (\<lambda>p. \<not> periodic (production_rule p)) (net_peers net))"

lemma declared_calm:
  assumes "declare_network e t network w = (Ok peers, w')"
  shows "calm_peers (calm_network network) peers"
proof (cases "calm_network network")
  case True
  with assms show ?thesis
    by (cases network) (auto simp: declare_network_def ret_def try_io_Ok calm_network_def list_all_iff
        calm_peers_def [of _ "[]"] intro: init_peers_calm)
qed (simp add: calm_peers_def)

lemma ends_cleanup: "ends_in (clock_calm calm) (conclude t name r)"
  unfolding conclude_def emit_completed_def cleanup_def
  by (intro calm_rules calm.ends_try_emit_all ends_same_peers) simp_all

lemma ends_scenario_steps:
  assumes "peers_show_up e" "ending_scheduler sched" "\<forall>step \<in> set steps. all_parts (ends_by_itself calm) step"
  shows "ends_in (clock_calm calm) (run_steps (run_step (execute_step e sched t target magic) t) i steps n)"
  using ending_steps.ends_steps [OF calm_steps [OF assms(1,2)] assms(3)] .

text \<open>Until the runner is reset its state does not matter.\<close>

interpretation anywhere: ending "\<lambda>s. True"
  by unfold_locales (simp add: world_blind_def)

lemma ends_after_reset:
  assumes "\<And>rn w. clock_calm calm (f rn, w)" "ends_in (clock_calm calm) k"
  shows "ends_in (\<lambda>s. True) (bind_run (\<lambda>(rn, w). Some (Ok (), f rn, w)) (\<lambda>_. k))"
  using assms ends_inD [OF assms(2)] by (fastforce simp: ends_in_def bind_run_def)



end
