(* ===== verification/ForkLaws.thy ===== *)
theory ForkLaws
  imports PeerLaws
begin

text \<open>
  What the adversarial production rules change in what a peer serves (\<open>scenario/peer_state.rs\<close>):
  two peers whose rules fire at the same slots serve the same headers for ever, and two fork rules
  that share their timing give chains that split at the fork slot.
\<close>

section \<open>Headers\<close>

text \<open>What a Chain-Sync server sends of a chain besides the tip, and the same of the entries.\<close>

definition served_headers :: "peer_state \<Rightarrow> u64 option \<Rightarrow> (u64 \<times> u64 \<times> string \<times> u8) list" where
  "served_headers ps now =
     map (\<lambda>e. (fe_slot e, fe_block_number e, fe_cbor_hex e, fe_variant e)) (fc_entries (filtered_fixture_chain ps now))"

definition header_of :: "chain_entry \<Rightarrow> u64 \<times> u64 \<times> string \<times> u8" where
  "header_of e = (ce_slot e, ce_block_number e, encode_hex (ce_header_cbor e), ce_variant e)"

lemma served_headers_eq:
  "served_headers ps now = map header_of (filter (\<lambda>e. case now of None \<Rightarrow> True | Some s \<Rightarrow> ce_slot e \<le> s) (ps_chain_entries ps))"
  by (simp add: served_headers_def filtered_fixture_chain_def to_fixture_entry_def header_of_def)

lemma served_headers_visible:
  "served_headers ps now = filter (\<lambda>x. case now of None \<Rightarrow> True | Some s \<Rightarrow> fst x \<le> s) (served_headers ps None)"
  by (cases now) (simp_all add: served_headers_eq filter_map comp_def header_of_def)

text \<open>One slot: whether the tip covers it, and the header of a new block, depend on the headers only.\<close>

lemma same_headers_tip:
  assumes "map header_of (ps_chain_entries p) = map header_of (ps_chain_entries q)"
  shows "ps_chain_entries p = [] \<longleftrightarrow> ps_chain_entries q = []"
    and "ps_chain_entries q \<noteq> [] \<Longrightarrow> header_of (last (ps_chain_entries p)) = header_of (last (ps_chain_entries q))"
proof -
  show iff: "ps_chain_entries p = [] \<longleftrightarrow> ps_chain_entries q = []"
    using assms by (metis map_is_Nil_conv)
  show "header_of (last (ps_chain_entries p)) = header_of (last (ps_chain_entries q))" if "ps_chain_entries q \<noteq> []"
    using that iff assms by (metis last_map)
qed

lemma same_headers_covered:
  assumes "map header_of (ps_chain_entries p) = map header_of (ps_chain_entries q)"
  shows "covered p s = covered q s"
  using same_headers_tip [OF assms] by (auto simp: covered_def chain_tip_slot_def header_of_def)

lemma same_headers_new_block:
  assumes "map header_of (ps_chain_entries p) = map header_of (ps_chain_entries q)"
  shows "header_of (fst (new_block h a ca s p)) = header_of (fst (new_block h b cb s q))"
  using same_headers_tip [OF assms] by (auto simp: new_block_def header_of_def Let_def split_beta)

lemma produce_slots_same_headers:
  assumes "map header_of (ps_chain_entries p) = map header_of (ps_chain_entries q)"
  shows "map header_of (ps_chain_entries (snd (produce_slots h a ka ca ss p))) =
    map header_of (ps_chain_entries (snd (produce_slots h b kb cb ss q)))"
  using assms
proof (induction ss arbitrary: p q)
  case Nil
  then show ?case by simp
next
  case (Cons s ss)
  have "map header_of (ps_chain_entries (snd (produce_slot h a ka ca s p))) =
      map header_of (ps_chain_entries (snd (produce_slot h b kb cb s q)))"
    using Cons.prems same_headers_covered [OF Cons.prems, of s] same_headers_new_block [OF Cons.prems, of h a ca s b cb]
    by (cases "covered q s") (simp_all add: produce_slot_cases)
  with Cons.IH show ?case by (simp add: split_beta)
qed

section \<open>Forks\<close>

text \<open>The bytes that are hashed for the block at a position, under a label.\<close>

definition hashed_for :: "string \<Rightarrow> chain_entry list \<Rightarrow> nat \<Rightarrow> bytes" where
  "hashed_for label es k = hash_input label (ce_slot (es ! k)) (if k = 0 then replicate 32 0 else ce_block_hash (es ! (k - 1)))"

text \<open>Two chains that share their first \<open>n\<close> blocks, which are before the fork slot, and whose later
  blocks are hashes of different bytes.\<close>

definition forked_at :: "(bytes \<Rightarrow> bytes) \<Rightarrow> u64 \<Rightarrow> string \<Rightarrow> string \<Rightarrow> nat \<Rightarrow> chain_entry list \<Rightarrow> chain_entry list \<Rightarrow> bool" where
  "forked_at h fs l1 l2 n es es' \<longleftrightarrow>
     n \<le> length es \<and> map header_of es = map header_of es' \<and> take n es = take n es' \<and>
     (\<forall>e \<in> set (take n es). ce_slot e < fs) \<and>
     (\<forall>k. n \<le> k \<and> k < length es \<longrightarrow> fs \<le> ce_slot (es ! k) \<and>
        ce_block_hash (es ! k) = h (hashed_for l1 es k) \<and> ce_block_hash (es' ! k) = h (hashed_for l2 es' k) \<and>
        hashed_for l1 es k \<noteq> hashed_for l2 es' k)"

lemma forked_at_same:
  assumes "es = es'" "\<forall>e \<in> set es. ce_slot e < fs"
  shows "forked_at h fs l1 l2 (length es) es es'"
  using assms by (auto simp: forked_at_def)

text \<open>The previous hashes that go into the next block are of equal length.\<close>

definition prev_hash :: "chain_entry list \<Rightarrow> bytes" where
  "prev_hash es = (if es = [] then replicate 32 0 else ce_block_hash (last es))"

lemma forked_at_prev:
  assumes "forked_at h fs l1 l2 n es es'" "\<And>x. length (h x) = 32"
  shows "length (prev_hash es) = length (prev_hash es')"
proof -
  have len: "length es = length es'" using assms(1) by (metis forked_at_def length_map)
  show ?thesis
  proof (cases "n < length es")
    case True
    then have "n \<le> length es - 1 \<and> length es - 1 < length es" by arith
    with assms(1) have "ce_block_hash (es ! (length es - 1)) = h (hashed_for l1 es (length es - 1))"
      "ce_block_hash (es' ! (length es - 1)) = h (hashed_for l2 es' (length es - 1))"
      unfolding forked_at_def by blast+
    moreover have "es \<noteq> []" "es' \<noteq> []" using True len by auto
    ultimately show ?thesis using len assms(2) by (simp add: prev_hash_def last_conv_nth)
  next
    case False
    with assms(1) len have "es = es'" by (simp add: forked_at_def)
    then show ?thesis by simp
  qed
qed

lemma hashed_for_snoc:
  "k < length es \<Longrightarrow> hashed_for l (es @ [e]) k = hashed_for l es k"
  "hashed_for l (es @ [e]) (length es) = hash_input l (ce_slot e) (prev_hash es)"
  by (auto simp: hashed_for_def prev_hash_def nth_append last_conv_nth)

lemma forked_at_snoc:
  assumes "forked_at h fs l1 l2 n es es'" "\<And>x. length (h x) = 32" "l1 \<noteq> l2"
    and "header_of e = header_of e'" "fs \<le> ce_slot e"
    and "ce_block_hash e = h (hash_input l1 (ce_slot e) (prev_hash es))"
    and "ce_block_hash e' = h (hash_input l2 (ce_slot e') (prev_hash es'))"
  shows "forked_at h fs l1 l2 n (es @ [e]) (es' @ [e'])"
proof -
  have len: "length es' = length es" using assms(1) by (metis forked_at_def length_map)
  have slot: "ce_slot e' = ce_slot e" using assms(4) by (simp add: header_of_def)
  have "hash_input l1 (ce_slot e) (prev_hash es) \<noteq> hash_input l2 (ce_slot e) (prev_hash es')"
    using hash_input_inj forked_at_prev [OF assms(1,2)] assms(3) by blast
  with assms(1,4-7) len show ?thesis
    using hashed_for_snoc(2) [of l2 es' e']
    by (auto simp: forked_at_def less_Suc_eq hashed_for_snoc nth_append slot)
qed

lemma fork_block:
  assumes "fs \<le> s"
  shows "ce_block_hash (fst (new_block h pid (Forked fs m root) s ps)) = h (hash_input (CHR 0x00 # m) s (prev_hash (ps_chain_entries ps)))"
  using assms by (auto simp: new_block_def prev_hash_def synthetic_hash_def Let_def)

lemma produce_slots_forked:
  assumes "\<forall>s \<in> set ss. fs \<le> s" "\<And>x. length (h x) = 32" "m1 \<noteq> m2"
    and "forked_at h fs (CHR 0x00 # m1) (CHR 0x00 # m2) n (ps_chain_entries p) (ps_chain_entries q)"
  shows "forked_at h fs (CHR 0x00 # m1) (CHR 0x00 # m2) n
    (ps_chain_entries (snd (produce_slots h a ka (Forked fs m1 root) ss p)))
    (ps_chain_entries (snd (produce_slots h b kb (Forked fs m2 root) ss q)))"
  using assms
proof (induction ss arbitrary: p q)
  case Nil
  then show ?case by simp
next
  case (Cons s ss)
  let ?p = "snd (produce_slot h a ka (Forked fs m1 root) s p)" and ?q = "snd (produce_slot h b kb (Forked fs m2 root) s q)"
  have same: "map header_of (ps_chain_entries p) = map header_of (ps_chain_entries q)"
    using Cons.prems(4) by (simp add: forked_at_def)
  have "forked_at h fs (CHR 0x00 # m1) (CHR 0x00 # m2) n (ps_chain_entries ?p) (ps_chain_entries ?q)"
  proof (cases "covered q s")
    case True
    with same_headers_covered [OF same, of s] Cons.prems(4) show ?thesis by (simp add: produce_slot_cases)
  next
    case False
    with same_headers_covered [OF same, of s] Cons.prems(1-4) show ?thesis
      using same_headers_new_block [OF same, of h a "Forked fs m1 root" s b "Forked fs m2 root"]
      by (simp add: produce_slot_cases forked_at_snoc fork_block new_block_slot)
  qed
  with Cons.IH Cons.prems(1-3) show ?case by (simp add: split_beta)
qed

lemma produce_slots_forked_agree:
  assumes "\<forall>s \<in> set ss. s < fs" "ps_chain_entries p = ps_chain_entries q"
  shows "ps_chain_entries (snd (produce_slots h a ka (Forked fs m1 root) ss p)) =
    ps_chain_entries (snd (produce_slots h b kb (Forked fs m2 root) ss q))"
  using assms
proof (induction ss arbitrary: p q)
  case Nil
  then show ?case by simp
next
  case (Cons s ss)
  have "ps_chain_entries (snd (produce_slot h a ka (Forked fs m1 root) s p)) =
      ps_chain_entries (snd (produce_slot h b kb (Forked fs m2 root) s q))"
    using Cons.prems by (simp add: produce_slot_def covered_def chain_tip_slot_def new_block_def Let_def split_beta)
  with Cons show ?case by (simp add: split_beta)
qed

lemma produce_slots_before:
  assumes "\<forall>s \<in> set ss. s < fs" "\<forall>e \<in> set (ps_chain_entries p). ce_slot e < fs"
  shows "\<forall>e \<in> set (ps_chain_entries (snd (produce_slots h a ka ctx ss p))). ce_slot e < fs"
  using assms
proof (induction ss arbitrary: p)
  case Nil
  then show ?case by simp
next
  case (Cons s ss)
  then have "\<forall>e \<in> set (ps_chain_entries (snd (produce_slot h a ka ctx s p))). ce_slot e < fs"
    by (cases "covered p s") (auto simp: produce_slot_cases new_block_slot)
  with Cons show ?case by (simp add: split_beta)
qed

text \<open>Slots in order split at the fork slot.\<close>

lemma sorted_split:
  fixes ss :: "u64 list"
  assumes "sorted_wrt (<) ss"
  shows "\<exists>xs ys. ss = xs @ ys \<and> (\<forall>s \<in> set xs. s < fs) \<and> (\<forall>s \<in> set ys. fs \<le> s)"
proof (intro exI conjI)
  show "ss = takeWhile (\<lambda>s. s < fs) ss @ dropWhile (\<lambda>s. s < fs) ss" by simp
  show "\<forall>s \<in> set (takeWhile (\<lambda>s. s < fs) ss). s < fs" by (blast dest: set_takeWhileD)
  show "\<forall>s \<in> set (dropWhile (\<lambda>s. s < fs) ss). fs \<le> s"
    using assms by (induction ss) (auto simp: not_less intro: order.strict_implies_order order.strict_trans1)
qed

lemma advance_forked:
  assumes "sorted_wrt (<) ss" "\<And>x. length (h x) = 32" "m1 \<noteq> m2"
    and "ps_chain_entries p = ps_chain_entries q" "\<forall>e \<in> set (ps_chain_entries p). ce_slot e < fs"
  shows "\<exists>n. forked_at h fs (CHR 0x00 # m1) (CHR 0x00 # m2) n
    (ps_chain_entries (snd (produce_slots h a ka (Forked fs m1 root) ss p)))
    (ps_chain_entries (snd (produce_slots h b kb (Forked fs m2 root) ss q)))"
proof -
  from sorted_split [OF assms(1), of fs] obtain xs ys where split: "ss = xs @ ys"
    "\<forall>s \<in> set xs. s < fs" "\<forall>s \<in> set ys. fs \<le> s" by blast
  let ?p = "snd (produce_slots h a ka (Forked fs m1 root) xs p)" and ?q = "snd (produce_slots h b kb (Forked fs m2 root) xs q)"
  have "ps_chain_entries ?p = ps_chain_entries ?q" "\<forall>e \<in> set (ps_chain_entries ?p). ce_slot e < fs"
    using produce_slots_forked_agree [OF split(2) assms(4)] produce_slots_before [OF split(2) assms(5)] by blast+
  then have "forked_at h fs (CHR 0x00 # m1) (CHR 0x00 # m2) (length (ps_chain_entries ?p)) (ps_chain_entries ?p) (ps_chain_entries ?q)"
    by (intro forked_at_same) simp_all
  from produce_slots_forked [OF split(3) assms(2,3) this, of a ka root b kb]
  show ?thesis by (auto simp: split(1) produce_slots_append split_beta Let_def)
qed

section \<open>Advances of the clock\<close>

lemma advanced_peer:
  assumes "distinct (map fst peers)" "\<forall>p \<in> set peers. peer_ready old new (snd p)"
    and "apply_production_rules h peers old new = Some (Ok (evs, peers'))" "map_of peers k = Some p"
  shows "map_of peers' k = Some (snd (advance_peer h old new (k, p)))"
proof -
  have "peers' = map (\<lambda>p. (fst p, snd (advance_peer h old new p))) peers"
    using apply_production_rules_eq [OF assms(1,2), of h] assms(3) by auto
  with assms(1) map_of_SomeD [OF assms(4)] show ?thesis
    by (auto simp: comp_def intro!: map_of_is_SomeI intro: rev_image_eqI)
qed

text \<open>C10: The defects of the adversarial rules are nowhere in the headers: two peers whose rules fire at the
  same slots, whatever kinds they are, and that serve the same headers before an advance of the clock,
  serve the same headers after it, byte for byte, up to any slot. A client that is served by a
  peer with a fork or a broken previous hash gets the headers that an honest peer with the same
  timing sends; only the hashes in points and tips differ.\<close>

theorem defects_leave_headers_unchanged:
  assumes "distinct (map fst peers)" "\<forall>p \<in> set peers. peer_ready old new (snd p)"
    and "apply_production_rules h peers old new = Some (Ok (evs, peers'))"
    and "map_of peers a = Some p" "ps_production_rule p = Some ra"
    and "map_of peers b = Some q" "ps_production_rule q = Some rb"
    and "fires ra = fires rb" "served_headers p None = served_headers q None"
  shows "\<exists>p' q'. map_of peers' a = Some p' \<and> map_of peers' b = Some q' \<and>
    (\<forall>now. served_headers p' now = served_headers q' now)"
proof (intro exI conjI allI)
  note look = advanced_peer [OF assms(1-3)]
  show "map_of peers' a = Some (snd (advance_peer h old new (a, p)))"
    and "map_of peers' b = Some (snd (advance_peer h old new (b, q)))"
    using look [OF assms(4)] look [OF assms(6)] by simp_all
  fix now
  have "firing_slots ra (old + 1) new = firing_slots rb (old + 1) new"
    by (simp add: firing_slots_def assms(8))
  with assms(5,7,9) have "served_headers (snd (advance_peer h old new (a, p))) None =
      served_headers (snd (advance_peer h old new (b, q))) None"
    using produce_slots_same_headers [of p q] by (simp add: advance_peer_def served_headers_eq)
  then show "served_headers (snd (advance_peer h old new (a, p))) now =
      served_headers (snd (advance_peer h old new (b, q))) now"
    by (simp add: served_headers_visible [of _ now])
qed

theorem defects_leave_headers_unchanged_witness:
  "\<exists>evs peers' p' q'. apply_production_rules id
      [(''a'', peer_state_new\<lparr>ps_production_rule := Some (EveryNSlots 1 2)\<rparr>),
       (''b'', peer_state_new\<lparr>ps_production_rule := Some (BrokenPrevHash 1 2 3 ''ff'')\<rparr>)]
      0 6 = Some (Ok (evs, peers')) \<and>
    map_of peers' ''a'' = Some p' \<and> map_of peers' ''b'' = Some q' \<and>
    (\<forall>now. served_headers p' now = served_headers q' now)"
proof -
  let ?p = "peer_state_new\<lparr>ps_production_rule := Some (EveryNSlots 1 2)\<rparr>"
  let ?q = "peer_state_new\<lparr>ps_production_rule := Some (BrokenPrevHash 1 2 3 ''ff'')\<rparr>"
  let ?ps = "[(''a'', ?p), (''b'', ?q)]"
  have ready: "\<forall>p \<in> set ?ps. peer_ready 0 6 (snd p)"
    by (simp add: peer_ready_def range_ok_def decode_hex_at_def decode_hex_with_ascii_not_Panic is_ascii_def split: res.split)
  obtain evs peers' where run: "apply_production_rules id ?ps 0 6 = Some (Ok (evs, peers'))"
    using apply_production_rules_eq [OF _ ready, of id] by simp
  have "\<exists>p' q'. map_of peers' ''a'' = Some p' \<and> map_of peers' ''b'' = Some q' \<and>
      (\<forall>now. served_headers p' now = served_headers q' now)"
    by (rule defects_leave_headers_unchanged [OF _ ready run, of "''a''" ?p "EveryNSlots 1 2" "''b''" ?q "BrokenPrevHash 1 2 3 ''ff''"])
      (simp_all add: fun_eq_iff served_headers_eq)
  with run show ?thesis by blast
qed

text \<open>C9: Two peers whose fork rules share the timing and the fork slot but not the marker split at the
  fork slot and nowhere else: when their chains are equal and before the fork slot, an advance of
  the clock to any slot leaves them with equally long chains that share every block before the fork
  slot, and from it on every block of the one is the hash of other bytes than its counterpart, so
  equal blocks would be a collision of the hash function, whose results are 32 bytes long.\<close>

theorem forks_split_at_fork_slot:
  assumes "distinct (map fst peers)" "\<forall>p \<in> set peers. peer_ready old new (snd p)"
    and "apply_production_rules h peers old new = Some (Ok (evs, peers'))"
    and "map_of peers a = Some p" "ps_production_rule p = Some (ForkedFromSlot f i fs m1)"
    and "map_of peers b = Some q" "ps_production_rule q = Some (ForkedFromSlot f i fs m2)"
    and "ps_chain_entries p = ps_chain_entries q" "\<forall>e \<in> set (ps_chain_entries p). ce_slot e < fs"
    and "m1 \<noteq> m2" "\<And>x. length (h x) = 32"
  shows "\<exists>p' q' n. map_of peers' a = Some p' \<and> map_of peers' b = Some q' \<and>
    length (ps_chain_entries p') = length (ps_chain_entries q') \<and>
    take n (ps_chain_entries p') = take n (ps_chain_entries q') \<and>
    (\<forall>e \<in> set (take n (ps_chain_entries p')). ce_slot e < fs) \<and>
    (\<forall>k. n \<le> k \<and> k < length (ps_chain_entries p') \<longrightarrow> fs \<le> ce_slot (ps_chain_entries p' ! k) \<and>
      (\<exists>x y. x = hashed_for (CHR 0x00 # m1) (ps_chain_entries p') k \<and> y = hashed_for (CHR 0x00 # m2) (ps_chain_entries q') k \<and>
        x \<noteq> y \<and> ce_block_hash (ps_chain_entries p' ! k) = h x \<and> ce_block_hash (ps_chain_entries q' ! k) = h y))"
proof -
  note look = advanced_peer [OF assms(1-3)]
  let ?p = "snd (advance_peer h old new (a, p))" and ?q = "snd (advance_peer h old new (b, q))"
  have timing: "firing_slots (ForkedFromSlot f i fs m2) lo hi = firing_slots (ForkedFromSlot f i fs m1) lo hi" for lo hi
    by (simp add: firing_slots_def fires_fun)
  have "\<exists>n. forked_at h fs (CHR 0x00 # m1) (CHR 0x00 # m2) n (ps_chain_entries ?p) (ps_chain_entries ?q)"
    using advance_forked [OF firing_slots_sorted assms(11,10,8,9)] assms(5,7)
    by (simp add: advance_peer_def context_of_def timing)
  then obtain n where "forked_at h fs (CHR 0x00 # m1) (CHR 0x00 # m2) n (ps_chain_entries ?p) (ps_chain_entries ?q)" ..
  moreover from this have "length (ps_chain_entries ?p) = length (ps_chain_entries ?q)"
    unfolding forked_at_def by (metis length_map)
  ultimately show ?thesis
    using look [OF assms(4)] look [OF assms(6)]
    by (intro exI [of _ ?p] exI [of _ ?q] exI [of _ n]) (simp add: forked_at_def)
qed

theorem forks_split_at_fork_slot_witness:
  "\<exists>evs peers' p' q'. apply_production_rules (\<lambda>bs. take 32 (bs @ replicate 32 0))
      [(''a'', peer_state_new\<lparr>ps_production_rule := Some (ForkedFromSlot 1 2 4 ''x'')\<rparr>),
       (''b'', peer_state_new\<lparr>ps_production_rule := Some (ForkedFromSlot 1 2 4 ''y'')\<rparr>)]
      0 6 = Some (Ok (evs, peers')) \<and>
    map_of peers' ''a'' = Some p' \<and> map_of peers' ''b'' = Some q' \<and>
    length (ps_chain_entries p') = length (ps_chain_entries q')"
proof -
  let ?h = "\<lambda>bs :: bytes. take 32 (bs @ replicate 32 0)"
  let ?p = "\<lambda>m. peer_state_new\<lparr>ps_production_rule := Some (ForkedFromSlot 1 2 4 m)\<rparr>"
  let ?ps = "[(''a'', ?p ''x''), (''b'', ?p ''y'')]"
  have ready: "\<forall>p \<in> set ?ps. peer_ready 0 6 (snd p)"
    by (simp add: peer_ready_def range_ok_def)
  obtain evs peers' where run: "apply_production_rules ?h ?ps 0 6 = Some (Ok (evs, peers'))"
    using apply_production_rules_eq [OF _ ready, of ?h] by simp
  have len: "length (?h x) = 32" for x by simp
  have "\<exists>p' q' n. map_of peers' ''a'' = Some p' \<and> map_of peers' ''b'' = Some q' \<and>
      length (ps_chain_entries p') = length (ps_chain_entries q') \<and>
      take n (ps_chain_entries p') = take n (ps_chain_entries q') \<and>
      (\<forall>e \<in> set (take n (ps_chain_entries p')). ce_slot e < 4) \<and>
      (\<forall>k. n \<le> k \<and> k < length (ps_chain_entries p') \<longrightarrow> 4 \<le> ce_slot (ps_chain_entries p' ! k) \<and>
        (\<exists>x y. x = hashed_for (CHR 0x00 # ''x'') (ps_chain_entries p') k \<and> y = hashed_for (CHR 0x00 # ''y'') (ps_chain_entries q') k \<and>
          x \<noteq> y \<and> ce_block_hash (ps_chain_entries p' ! k) = ?h x \<and> ce_block_hash (ps_chain_entries q' ! k) = ?h y))"
    by (rule forks_split_at_fork_slot [OF _ ready run, of "''a''" "?p ''x''" 1 2 4 "''x''" "''b''" "?p ''y''" "''y''", OF _ _ _ _ _ _ _ _ len])
      (simp_all add: peer_state_new_def)
  with run show ?thesis by blast
qed

end
