(* ===== verification/ReaderLaws.thy ===== *)
theory ReaderLaws
  imports ValidateLaws RunnerLaws
begin

text \<open>
  What is checked of a response script (\<open>scenario/response_rules.rs\<close>), and when: validation
  (\<open>scenario/mod.rs\<close>) does not look into \<open>responses\<close>, and the serving step (\<open>scenario/runner.rs\<close>)
  reads and converts it after the client has connected.
\<close>

text \<open>A scenario that serves one client from a script, and its serving step.\<close>

definition scripted_step :: "json \<Rightarrow> step_def" where
  "scripted_step v = (plain_step ServeChainSync)\<lparr>sd_raw_params := jobj [(''responses'', v)]\<rparr>"

definition scripted_scenario :: "json \<Rightarrow> scenario" where
  "scripted_scenario v = bare_scenario None [plain_step Listen, plain_step AcceptHandshake, scripted_step v]"

definition good_responses :: "json \<Rightarrow> bool" where
  "good_responses v = (case response_rules_from_value v of
     Ok defs \<Rightarrow> list_all (\<lambda>d. is_ok (rule_def_to_script d None None)) defs | _ \<Rightarrow> False)"

lemma convert_rules_ok:
  "is_ok (convert_rules step cs bf i defs) \<longleftrightarrow> list_all (\<lambda>d. is_ok (rule_def_to_script d cs bf)) defs"
proof (induction defs arbitrary: i)
  case (Cons d defs)
  then show ?case by (cases "rule_def_to_script d cs bf") simp_all
qed simp

lemma bad_script:
  assumes "\<not> good_responses v"
  shows "\<not> is_ok (chain_sync_script e (scripted_step v) params None)"
proof (cases "response_rules_from_value v")
  case (Ok defs)
  with assms show ?thesis
    by (simp add: chain_sync_script_def scripted_step_def json_get_jobj good_responses_def convert_rules_ok)
qed (simp_all add: chain_sync_script_def scripted_step_def json_get_jobj)

lemma scripted_validates: "validate (scripted_scenario v) = Ok ()"
  by (simp add: validate_defs scripted_scenario_def bare_scenario_def scripted_step_def plain_step_def json_get_jobj Let_def)


text \<open>The rule \<open>{"on": "any", "send": {"kind": "send_sequence", "sends": [{"kind": "send_sequence", "sends": []}]}}\<close>\<close>

definition nested_responses :: json where
  "nested_responses = JArray [jobj [(''on'', JString ''any''), (''send'', jobj [(''kind'', JString ''send_sequence''),
     (''sends'', JArray [jobj [(''kind'', JString ''send_sequence''), (''sends'', JArray [])]])])]]"

lemma nested_read:
  "response_rules_from_value nested_responses = Ok [\<lparr>rd_on = OnAny, rd_send = SDSendSequence [SDSendSequence []]\<rparr>]"
  by (simp add: nested_responses_def response_rules_from_value_def vec_from_value_def values_from_value_def
    rule_def_from_value_def req_param_def on_from_value_def on_from_name_def send_def_from_value.simps tagged_value_def
    string_from_value_def sequence_items_def jobj_def)


end
