(* ===== verification/NameLaws.thy ===== *)
theory NameLaws
  imports ExecuteLaws ValidateLaws
begin

text \<open>
  What the static check of connection names is good for: in a run of a step list that passed it, every
  connection and listener that a step names is there when the step begins.
\<close>

section \<open>The names that are open in a runner\<close>

definition names_of :: "runner \<Rightarrow> open_names" where
  "names_of rn = \<lparr>open_clients = fst ` set (rn_connections rn), open_listeners = rn_listeners rn,
     open_servers = fst ` set (rn_server_connections rn)\<rparr>"

abbreviation same_names :: "runner \<times> world \<Rightarrow> runner \<times> world \<Rightarrow> bool" where
  "same_names s s' \<equiv> names_of (fst s') = names_of (fst s)"

abbreviation conn_same_names :: "client_connection \<times> runner \<times> world \<Rightarrow> client_connection \<times> runner \<times> world \<Rightarrow> bool" where
  "conn_same_names s s' \<equiv> names_of (fst (snd s')) = names_of (fst (snd s))"

lemma names_local:
  assumes "\<And>rn w r rn' w'. m (rn, w) = Some (r, rn', w') \<Longrightarrow> names_of rn' = names_of rn"
  shows "run_keeps same_names m"
proof (rule run_keepsI)
  fix s r s' assume "m s = Some (r, s')"
  with assms [of "fst s" "snd s" r "fst s'" "snd s'"] show "same_names s s'" by simp
qed

lemma names_io_run: "run_keeps same_names (io_run m)"
  by (rule names_local) (auto simp: io_run_def split: prod.splits)

interpretation names_run: step_bookkeeping same_names
  by unfold_locales (auto simp: do_emit_def names_io_run)

interpretation names_conn: step_preorder conn_same_names
  by unfold_locales auto

lemma names_world_run: "run_keeps same_names (world_run m)"
  by (rule names_local) (auto simp: world_run_def split: option.splits)

lemma names_modify: "(\<And>rn. names_of (f rn) = names_of rn) \<Longrightarrow> run_keeps same_names (modify_runner f)"
  by (rule names_local) (auto simp: modify_runner_def)

lemma names_prims:
  "run_keeps same_names (open_link e a b c addr)" "run_keeps same_names (write_file e msg path f)"
  "run_keeps same_names (accept_link e)" "run_keeps same_names (produce e old new)" "run_keeps same_names (load_slot msg)"
  "run_keeps same_names (store_slot n)" "run_keeps same_names (update_peers g)"
  by (rule names_local; auto simp: names_of_def open_link_def write_file_def accept_link_def produce_def load_slot_def
      store_slot_def update_peers_def split: option.splits sum.splits res.splits)+

lemmas names_rules = names_run.run_rules names_run.emits names_run.run_keeps_asks names_io_run names_world_run names_prims

lemma names_on_conn: "run_keeps conn_same_names (on_conn f)"
  by (auto simp: run_keeps_def on_conn_def split: prod.splits)

lemma names_on_runner: "run_keeps same_names m \<Longrightarrow> run_keeps conn_same_names (on_runner m)"
  unfolding run_keeps_def on_runner_def by (fastforce split: prod.splits option.splits)

lemma names_on_world: "run_keeps conn_same_names (on_world m)"
  unfolding run_keeps_def on_world_def by (fastforce split: prod.splits option.splits)

lemmas names_conn_rules = names_conn.run_rules names_on_conn names_on_runner names_on_world

lemma update_names: "fst ` set (AList.update k v al) = insert k (fst ` set al)"
  by (induction al) auto

lemma delete_names: "fst ` set (AList.delete k al) = fst ` set al - {k}"
  by (auto simp: AList.delete_eq)

text \<open>A connection that is checked out comes back under its name.\<close>

lemma names_checked_out_client:
  assumes "run_keeps conn_same_names m"
  shows "run_keeps same_names (checked_out_client name m)"
proof (rule names_local)
  fix rn w r rn' w' assume run: "checked_out_client name m (rn, w) = Some (r, rn', w')"
  show "names_of rn' = names_of rn"
  proof (cases "map_of (rn_connections rn) name")
    case None
    with run show ?thesis by (simp add: checked_out_client_def)
  next
    case (Some c)
    let ?rn = "rn\<lparr>rn_connections := AList.delete name (rn_connections rn)\<rparr>"
    from run Some obtain c' rn1 where m: "m (c, ?rn, w) = Some (r, c', rn1, w')"
      "rn' = rn1\<lparr>rn_connections := AList.update name c' (rn_connections rn1)\<rparr>"
      by (auto simp: checked_out_client_def split: option.splits prod.splits)
    have "names_of rn1 = names_of ?rn" using run_keepsD [OF assms m(1)] by simp
    moreover have "name \<in> fst ` set (rn_connections rn)" using Some by (force dest: map_of_SomeD)
    ultimately show ?thesis by (auto simp: m(2) names_of_def update_names delete_names)
  qed
qed

lemma names_checked_out: "run_keeps same_names (checked_out name f)"
proof (rule names_local)
  fix rn w r rn' w' assume run: "checked_out name f (rn, w) = Some (r, rn', w')"
  show "names_of rn' = names_of rn"
  proof (cases "map_of (rn_server_connections rn) name")
    case None
    with run show ?thesis by (simp add: checked_out_def)
  next
    case (Some c)
    with run obtain c' where "rn' = rn\<lparr>rn_server_connections :=
        AList.update name c' (AList.delete name (rn_server_connections rn))\<rparr>"
      by (auto simp: checked_out_def Let_def split: prod.splits)
    moreover have "name \<in> fst ` set (rn_server_connections rn)" using Some by (force dest: map_of_SomeD)
    ultimately show ?thesis by (simp add: names_of_def update_names delete_names insert_absorb)
  qed
qed

lemma names_taking: "run_keeps conn_same_names (take_channel msg channel taken)" "run_keeps conn_same_names (peer_tracer t)"
  "run_keeps conn_same_names (start_workers v)"
  unfolding take_channel_def peer_tracer_def start_workers_def by (rule names_on_conn)+

lemma names_append_all: "run_keeps same_names (append_all e msg path f xs)"
  by (induction xs) (auto intro!: names_rules)

lemma names_captures: "run_keeps same_names (capture_headers e hs)" "run_keeps same_names (capture_blocks e bs)"
  unfolding capture_headers_def capture_blocks_def
  by (intro names_rules names_append_all names_modify; simp add: names_of_def)+

lemma names_store_output: "run_keeps same_names (store_output t step v shape)"
  unfolding store_output_def by (intro names_rules names_modify) (simp add: names_of_def)

lemma names_using_arms:
  "run_keeps same_names (handshake_step e t magic step)" "run_keeps same_names (query_tip e t target magic step)"
  "run_keeps same_names (chain_sync_step e t step params)" "run_keeps same_names (block_fetch_step e t step params)"
  "run_keeps same_names (leios_notify_step t step params)" "run_keeps same_names (leios_fetch_step t step params)"
proof -
  have "run_keeps conn_same_names (block_fetch_points_of step params)"
    unfolding block_fetch_points_of_def by (auto intro!: names_conn_rules split: block_fetch_points.split)
  then show "run_keeps same_names (block_fetch_step e t step params)"
    unfolding block_fetch_step_def by (intro names_checked_out_client names_conn_rules names_taking names_captures)
  show "run_keeps same_names (query_tip e t target magic step)"
    unfolding query_tip_def fetch_tip_def Let_def by (intro names_rules names_store_output)
  show "run_keeps same_names (handshake_step e t magic step)" "run_keeps same_names (chain_sync_step e t step params)"
    "run_keeps same_names (leios_notify_step t step params)" "run_keeps same_names (leios_fetch_step t step params)"
    unfolding handshake_step_def chain_sync_step_def leios_notify_step_def leios_fetch_step_def Let_def
    by (intro names_checked_out_client names_conn_rules names_taking names_rules names_store_output names_captures)+
qed

lemma names_other_arms:
  "run_keeps same_names (advance_to_slot e t params)" "run_keeps same_names (tick_slots e t params)"
  "run_keeps same_names (peer_extends_chain t params)" "run_keeps same_names (emit_peer_event t resolved params)"
  "run_keeps same_names (sleep_step params)"
  "run_keeps same_names (serve_chain_sync e t step params)" "run_keeps same_names (serve_block_fetch e t step params)"
  "run_keeps same_names (serve_leios_notify e t step resolved)" "run_keeps same_names (serve_leios_fetch e t step resolved)"
  unfolding advance_to_slot_def tick_slots_def peer_extends_chain_def emit_peer_event_def sleep_step_def
    serve_chain_sync_def serve_block_fetch_def serve_leios_notify_def serve_leios_fetch_def Let_def
  by (intro names_rules names_checked_out)+

section \<open>The names that a step opens and closes\<close>

text \<open>What a step that succeeds has done to the names.\<close>

definition after_ok :: "(open_names \<Rightarrow> open_names \<Rightarrow> bool) \<Rightarrow> ('a, runner \<times> world) stepper \<Rightarrow> bool" where
  "after_ok Q m \<longleftrightarrow> (\<forall>s x s'. m s = Some (Ok x, s') \<longrightarrow> Q (names_of (fst s)) (names_of (fst s')))"

lemma after_okD: "after_ok Q m \<Longrightarrow> m s = Some (Ok x, s') \<Longrightarrow> Q (names_of (fst s)) (names_of (fst s'))"
  unfolding after_ok_def by blast

lemma after_okI: "(\<And>s x s'. m s = Some (Ok x, s') \<Longrightarrow> Q (names_of (fst s)) (names_of (fst s'))) \<Longrightarrow> after_ok Q m"
  unfolding after_ok_def by blast

lemma after_ok_same:
  assumes "run_keeps same_names m" "\<And>n. Q n n"
  shows "after_ok Q m"
proof (rule after_okI)
  fix s x s' assume "m s = Some (Ok x, s')"
  from run_keepsD [OF assms(1) this] assms(2) show "Q (names_of (fst s)) (names_of (fst s'))" by simp
qed

lemma after_ok_then:
  assumes "run_keeps same_names m" "\<And>x. after_ok Q (k x)"
  shows "after_ok Q (bind_run m k)"
proof (rule after_okI)
  fix s x s' assume "bind_run m k s = Some (Ok x, s')"
  then obtain y s1 where "m s = Some (Ok y, s1)" "k y s1 = Some (Ok x, s')" by (auto simp: bind_run_Some)
  with run_keepsD [OF assms(1) this(1)] after_okD [OF assms(2) this(2)]
  show "Q (names_of (fst s)) (names_of (fst s'))" by simp
qed

lemma after_ok_last:
  assumes "after_ok Q m" "\<And>x. run_keeps same_names (k x)"
  shows "after_ok Q (bind_run m k)"
proof (rule after_okI)
  fix s x s' assume "bind_run m k s = Some (Ok x, s')"
  then obtain y s1 where "m s = Some (Ok y, s1)" "k y s1 = Some (Ok x, s')" by (auto simp: bind_run_Some)
  with after_okD [OF assms(1) this(1)] run_keepsD [OF assms(2) this(2)]
  show "Q (names_of (fst s)) (names_of (fst s'))" by simp
qed

lemma after_ok_modify: "(\<And>rn. Q (names_of rn) (names_of (f rn))) \<Longrightarrow> after_ok Q (modify_runner f)"
  by (auto simp: after_ok_def modify_runner_def)

lemma after_ok_fails: "after_ok Q (res_run (Err e))" "after_ok Q (res_run (anyhow m))"
  by (auto simp: after_ok_def res_run_def anyhow_def)

definition as_checked :: "step_def \<Rightarrow> open_names \<Rightarrow> open_names \<Rightarrow> bool" where
  "as_checked st n n' \<longleftrightarrow> n' = snd (check_names [] st n)"

lemma conn_names: "conn_on st = on_name st" "conn_as st = as_name st" "name_or_default (sd_on_name st) = on_name st"
  by (simp_all add: conn_on_def conn_as_def on_name_def as_name_def name_or_default_def)

lemma opening_arms:
  "sd_kind st = Connect \<Longrightarrow> after_ok (as_checked st) (connect e t target st params)"
  "sd_kind st = Listen \<Longrightarrow> after_ok (as_checked st) (listen e t st params)"
  "sd_kind st = AcceptHandshake \<Longrightarrow> after_ok (as_checked st) (accept_handshake e t magic st params)"
  "sd_kind st = Disconnect \<Longrightarrow> after_ok (as_checked st) (disconnect t st)"
  "sd_kind st = CloseListener \<Longrightarrow> after_ok (as_checked st) (close_listener t st)"
proof -
  show "after_ok (as_checked st) (connect e t target st params)" if "sd_kind st = Connect"
    unfolding connect_def Let_def using that
    by (intro after_ok_then names_rules after_ok_modify)
      (simp add: as_checked_def check_names_def names_of_def update_names conn_names Let_def)
  show "after_ok (as_checked st) (listen e t st params)" if "sd_kind st = Listen"
    unfolding listen_def Let_def using that
    by (intro after_ok_then names_rules after_ok_modify)
      (simp add: as_checked_def check_names_def names_of_def conn_names Let_def)
  show "after_ok (as_checked st) (disconnect t st)" if "sd_kind st = Disconnect"
    unfolding disconnect_def Let_def using that
    by (intro after_ok_last names_rules)
      (auto simp: after_ok_def as_checked_def check_names_def names_of_def delete_names conn_names Let_def anyhow_def
        uses_client_def split: option.splits)
  show "after_ok (as_checked st) (close_listener t st)" if "sd_kind st = CloseListener"
    unfolding close_listener_def using that
    by (intro after_ok_last names_rules)
      (auto simp: after_ok_def as_checked_def check_names_def names_of_def conn_names Let_def uses_client_def uses_server_def)
  have opened: "after_ok (as_checked st) (modify_runner (\<lambda>rn. rn\<lparr>rn_server_connections :=
      AList.update (as_name st) c (rn_server_connections rn)\<rparr>))" if "sd_kind st = AcceptHandshake" for c
    using that by (intro after_ok_modify)
      (simp add: as_checked_def check_names_def names_of_def update_names Let_def)
  show "after_ok (as_checked st) (accept_handshake e t magic st params)" if "sd_kind st = AcceptHandshake"
    unfolding accept_handshake_def Let_def conn_names
    by (auto intro!: after_ok_then names_rules opened that after_ok_fails split: sum.split)
qed

lemma other_kinds: "sd_kind st \<notin> {Connect, Listen, AcceptHandshake, Disconnect, CloseListener} \<Longrightarrow> as_checked st n n"
  by (cases "sd_kind st") (simp_all add: as_checked_def check_names_def uses_client_def uses_server_def Let_def)

lemma leaf_step_names:
  assumes "sd_kind st \<notin> {Repeat, Parallel}"
  shows "after_ok (as_checked st) (leaf_step e t target magic st params resolved)"
proof (cases "sd_kind st \<in> {Connect, Listen, AcceptHandshake, Disconnect, CloseListener}")
  case True
  then show ?thesis by (auto simp: leaf_step_def intro: opening_arms)
next
  case False
  note same = names_using_arms names_other_arms
  have "run_keeps same_names (leaf_step e t target magic st params resolved)"
    unfolding leaf_step_def using assms False by (cases "sd_kind st"; simp add: same)
  with False show ?thesis by (intro after_ok_same other_kinds)
qed

lemma execute_step_names:
  assumes "sd_kind st \<notin> {Repeat, Parallel}"
  shows "after_ok (as_checked st) (execute_step e sched t target magic st resolved)"
  using assms by (subst execute_step_leaf) (auto intro!: after_ok_then names_rules leaf_step_names)

lemma finish_step_names: "after_ok Q (finish_step t idx (Inl err) ok)" "run_keeps same_names (finish_step t idx r ok)"
proof -
  show "after_ok Q (finish_step t idx (Inl err) ok)"
    by (auto simp: finish_step_def intro!: after_ok_then names_run.run_keeps_try_emit after_ok_fails)
qed (rule names_run.run_keeps_finish)

lemma after_ok_match:
  assumes "after_ok Q m" "\<And>e. after_ok (\<lambda>_ _. False) (k (Inl e))" "\<And>x. run_keeps same_names (k (Inr x))"
  shows "after_ok Q (match_run m k)"
proof (rule after_okI)
  fix s x s' assume "match_run m k s = Some (Ok x, s')"
  then consider y s1 where "m s = Some (Ok y, s1)" "k (Inr y) s1 = Some (Ok x, s')"
    | e s1 where "m s = Some (Err e, s1)" "k (Inl e) s1 = Some (Ok x, s')" by (auto simp: match_run_Some)
  then show "Q (names_of (fst s)) (names_of (fst s'))"
  proof cases
    case 1
    with after_okD [OF assms(1) this(1)] run_keepsD [OF assms(3) this(2)] show ?thesis by simp
  next
    case 2
    with after_okD [OF assms(2) this(2)] show ?thesis by simp
  qed
qed

lemma run_step_names:
  assumes "\<And>resolved. after_ok Q (exec st resolved)"
  shows "after_ok Q (run_step exec t st idx)"
  unfolding run_step_def Let_def split_beta
  by (intro after_ok_then names_rules names_run.run_keeps_try_emit_all after_ok_match assms finish_step_names)

section \<open>A run that has got this far\<close>

lemma run_steps_names:
  assumes "run_steps (run_step (execute_step e sched t target magic) t) i ss n s = Some (Ok (k, None), s')"
    and "\<forall>st \<in> set ss. sd_kind st \<notin> {Repeat, Parallel}" "names_of (fst s) = names_after before"
  shows "names_of (fst s') = names_after (before @ ss)"
  using assms
proof (induction ss arbitrary: i n s before)
  case Nil
  then show ?case by (simp add: res_run_def)
next
  case (Cons st ss)
  let ?run1 = "run_step (execute_step e sched t target magic) t"
  from Cons.prems(1) obtain s1 where one: "?run1 st i s = Some (Ok (), s1)"
    and rest: "run_steps ?run1 (Suc i) ss (n + 1) s1 = Some (Ok (k, None), s')"
    by (auto simp: match_run_Some res_run_def)
  have "after_ok (as_checked st) (?run1 st i)"
    using Cons.prems(2) by (intro run_step_names execute_step_names) simp
  from after_okD [OF this one] Cons.prems(3) have "names_of (fst s1) = names_after (before @ [st])"
    by (simp add: as_checked_def check_names_after)
  from Cons.IH [OF rest _ this] Cons.prems(2) show ?case by simp
qed

section \<open>Properties\<close>

text \<open>C5: A scenario whose connection names have passed validation does not fail for want of a
  connection: when all the steps before one have succeeded, whatever the peers did, the connection,
  listener or server connection that the step names with \<open>on\<close> is open in the runner, and the name
  that it opens with \<open>as\<close> is free. Bodies and branches are outside of the check, and of the claim.\<close>

theorem validated_names_are_open:
  assumes "validate_connection_names (done_steps @ st # later) = []" "\<forall>s \<in> set done_steps. sd_kind s \<notin> {Repeat, Parallel}"
    and "rn_connections rn = []" "rn_listeners rn = {}" "rn_server_connections rn = []"
    and "run_steps (run_step (execute_step e sched t target magic) t) 0 done_steps 0 (rn, w) = Some (Ok (k, None), rn', w')"
  shows "(uses_client (sd_kind st) \<or> sd_kind st = Disconnect \<longrightarrow> map_of (rn_connections rn') (on_name st) \<noteq> None) \<and>
    (uses_server (sd_kind st) \<longrightarrow> map_of (rn_server_connections rn') (on_name st) \<noteq> None) \<and>
    (sd_kind st \<in> {AcceptHandshake, CloseListener} \<longrightarrow> on_name st \<in> rn_listeners rn') \<and>
    (sd_kind st = Connect \<longrightarrow> map_of (rn_connections rn') (as_name st) = None) \<and>
    (sd_kind st = Listen \<longrightarrow> as_name st \<notin> rn_listeners rn') \<and>
    (sd_kind st = AcceptHandshake \<longrightarrow> map_of (rn_server_connections rn') (as_name st) = None)"
proof -
  have "names_of rn = names_after []"
    using assms(3-5) by (simp add: names_of_def names_after_Nil no_open_names_def)
  then have "names_of rn' = names_after done_steps" using run_steps_names [OF assms(6,2), of "[]"] by simp
  then have open': "client_open done_steps n \<longleftrightarrow> map_of (rn_connections rn') n \<noteq> None"
    "listener_open done_steps n \<longleftrightarrow> n \<in> rn_listeners rn'"
    "server_open done_steps n \<longleftrightarrow> map_of (rn_server_connections rn') n \<noteq> None" for n
    by (auto simp: names_of_def names_after_def map_of_eq_None_iff)
  have "names_fit done_steps st"
    using assms(1) check_all_names_Nil_iff [of 0 "done_steps @ st # later" "[]"]
    by (auto simp: validate_connection_names_def names_after_Nil dest!: spec [of _ "length done_steps"])
  then show ?thesis
    by (cases "sd_kind st") (simp_all add: names_fit_def open' uses_client_def uses_server_def)
qed

theorem validated_names_are_open_witness:
  "\<exists>rn' w'. run_steps (run_step (execute_step silent_env poll_in_order tracer_open ''h:1'' 2) tracer_open) 0
      [plain_step Connect] 0 (runner_default, fresh_world) = Some (Ok (1, None), rn', w') \<and>
    map_of (rn_connections rn') ''default'' \<noteq> None"
proof -
  let ?exec = "execute_step silent_env poll_in_order tracer_open ''h:1'' 2"
  obtain rn' w' where "run_step ?exec tracer_open (plain_step Connect) 0 (runner_default, fresh_world) = Some (Ok (), rn', w')"
    using silent_step [of fresh_world ?exec Connect runner_default _ tracer_open 0]
      silent_connect [of _ poll_in_order tracer_open "''h:1''" 2 runner_default] reliable_fresh_world(1) by blast
  then have run: "run_steps (run_step ?exec tracer_open) 0 [plain_step Connect] 0 (runner_default, fresh_world) =
      Some (Ok (1, None), rn', w')"
    by (simp add: run_simps)
  have "validate_connection_names ([plain_step Connect] @ plain_step Handshake # []) = []"
    by (simp add: validate_connection_names_def check_names_def no_open_names_def plain_step_def
      err_if_def uses_client_def as_name_def on_name_def)
  from validated_names_are_open [OF this _ _ _ _ run] run show ?thesis
    by (auto simp: plain_step_def runner_default_def uses_client_def on_name_def)
qed

end
