(* ===== verification/CaptureLaws.thy ===== *)
theory CaptureLaws
  imports ExecuteLaws
begin

text \<open>
  The capture of a client session: the file that a \<open>chain_sync\<close> step leaves behind, and the way back from
  a served fixture through the client to a fixture file.
\<close>

section \<open>Writing the files\<close>

lemma append_all_run:
  assumes "write_error e path = None" "rn_files rn path = Some ls"
  shows "append_all e msg path f xs (rn, w) = Some (Ok (), rn\<lparr>rn_files := (rn_files rn)(path \<mapsto> fold f xs ls)\<rparr>, w)"
  using assms(2)
proof (induction xs arbitrary: rn ls)
  case Nil
  then have "(rn_files rn)(path \<mapsto> ls) = rn_files rn" by (auto simp: fun_eq_iff)
  then show ?case by (simp add: run_simps)
next
  case (Cons x xs)
  let ?rn = "rn\<lparr>rn_files := (rn_files rn)(path \<mapsto> f x ls)\<rparr>"
  have "write_file e msg path (f x) (rn, w) = Some (Ok (), ?rn, w)"
    using assms(1) Cons.prems by (simp add: write_file_def file_lines_def)
  moreover have "append_all e msg path f xs (?rn, w) = Some (Ok (), ?rn\<lparr>rn_files := (rn_files ?rn)(path \<mapsto> fold f xs (f x ls))\<rparr>, w)"
    by (rule Cons.IH) simp
  ultimately show ?case 
    by (simp add: run_simps) (rule arg_cong [where f = "\<lambda>m. rn\<lparr>rn_files := m\<rparr>"], simp add: fun_eq_iff)
qed

lemma capture_headers_run:
  assumes "write_error e path = None" "rn_capture_fixture_path rn = Some path" "\<not> rn_fixture_anchor_written rn" "hs \<noteq> []"
  shows "\<exists>old. capture_headers e hs (rn, w) = Some (Ok (), rn\<lparr>rn_fixture_anchor_written := True,
    rn_files := (rn_files rn)(path \<mapsto> fold (append_entry (render_json e)) (map entry_of_capture hs)
      (write_anchor (render_json e) Origin old))\<rparr>, w)"
proof -
  let ?old = "case file_lines e rn path of Some ls \<Rightarrow> ls | None \<Rightarrow> []"
  let ?rn = "rn\<lparr>rn_files := (rn_files rn)(path \<mapsto> write_anchor (render_json e) Origin ?old), rn_fixture_anchor_written := True\<rparr>"
  have "write_file e ''creating fixture file '' path (write_anchor (render_json e) Origin) (rn, w) =
      Some (Ok (), rn\<lparr>rn_files := (rn_files rn)(path \<mapsto> write_anchor (render_json e) Origin ?old)\<rparr>, w)"
    using assms(1) by (simp add: write_file_def)
  moreover have "append_all e m path (append_entry (render_json e)) (map entry_of_capture hs) (?rn, w) =
      Some (Ok (), ?rn\<lparr>rn_files := (rn_files ?rn)(path \<mapsto> fold (append_entry (render_json e)) (map entry_of_capture hs)
        (write_anchor (render_json e) Origin ?old))\<rparr>, w)" for m
    using assms(1) by (intro append_all_run) simp_all
  ultimately show ?thesis
    using assms(2-4) by (intro exI [of _ ?old]) (simp add: capture_headers_def modify_runner_def run_simps)
qed

section \<open>Properties\<close>

text \<open>C3: A fixture survives the way through the network: when the harness serves a fixture from genesis
  and another run of it, with \<open>--capture-fixture\<close>, asks that server for all of its headers with a
  \<open>chain_sync\<close> step, the step succeeds and the file it leaves behind loads as the fixture that was served,
  provided the network package parses the headers to what is recorded of them, the JSON package
  reads back the lines that were written, and the file can be opened.\<close>

theorem captured_fixture_is_served_fixture:
  fixes chain decode e
  defines "n \<equiv> length (fc_entries chain)"
  assumes "reliable w" "reliable v" "fc_anchor chain = Origin" "0 < n" "n < 2 ^ 64"
    and parses: "\<forall>x \<in> set (fc_entries chain). parses_as_recorded decode x"
    and reads: "parse_json e genesis_anchor_line = Ok (jobj [(''anchor'', JBool True)])"
      "\<forall>x \<in> set (fc_entries chain). parse_json e (render_json e (JObject (entry_fields x))) = Ok (jobj (entry_fields x)) \<and>
        \<not> is_blank (render_json e (JObject (entry_fields x)))"
    and dest: "write_error e path = None" "rn_capture_fixture_path rn = Some path" "\<not> rn_fixture_anchor_written rn"
    and asks: "sd_output step = None" "sp_intersection_points params = None" "sp_count params = Some (of_nat n)"
  shows "\<exists>served w'. execute_response_script t' (Some chain) (generate_from_fixture chain secs)
      (map Inr (FindIntersect [Origin] # replicate n RequestNext @ [ChainSyncDoneMsg])) w = (Ok served, w') \<and>
    (\<forall>c. map_of (rn_connections rn) (conn_on step) = Some c \<and>
         cl_cs_channels c = Some (answers_of decode (drop (length (wire_out w)) (wire_out w'))) \<longrightarrow>
       (\<exists>rn' v'. chain_sync_step e t step params (rn, v) = Some (Ok (), rn', v') \<and>
          fixture_load (parse_json e) path (file_lines e rn' path) = Ok chain))"
proof -
  from captures_served [OF assms(2-4) assms(6) [unfolded n_def] parses, of t' secs]
  obtain served w' where server: "execute_response_script t' (Some chain) (generate_from_fixture chain secs)
      (map Inr (FindIntersect [Origin] # replicate n RequestNext @ [ChainSyncDoneMsg])) w = (Ok served, w')"
    unfolding n_def by blast
  let ?ch = "answers_of decode (drop (length (wire_out w)) (wire_out w'))"
  have client: "\<exists>sm v'. run_chain_sync tr ?ch [Origin] (of_nat n) secs' v = Some (Ok sm, v') \<and>
      map entry_of_capture (ccs_captured_headers sm) = fc_entries chain" for tr secs'
    using captures_served [OF assms(2-4) assms(6) [unfolded n_def] parses, of t' secs tr secs'] server unfolding n_def by fastforce
  have "\<exists>rn' v'. chain_sync_step e t step params (rn, v) = Some (Ok (), rn', v') \<and>
      fixture_load (parse_json e) path (file_lines e rn' path) = Ok chain"
    if c: "map_of (rn_connections rn) (conn_on step) = Some c \<and> cl_cs_channels c = Some ?ch" for c
  proof -
    let ?rn = "rn\<lparr>rn_connections := AList.delete (conn_on step) (rn_connections rn)\<rparr>"
    obtain sm v' where sm: "run_chain_sync (for_peer_opt t (cl_peer_id c)) ?ch [Origin] (of_nat n)
        (or_else (sp_await_timeout_secs params) 30) v = Some (Ok sm, v')"
      "map entry_of_capture (ccs_captured_headers sm) = fc_entries chain" using client by blast
    have "ccs_captured_headers sm \<noteq> []" using sm(2) assms(5) n_def by auto
    with capture_headers_run [of e path ?rn "ccs_captured_headers sm" v'] dest sm(2) obtain old where cap:
      "capture_headers e (ccs_captured_headers sm) (?rn, v') = Some (Ok (), ?rn\<lparr>rn_fixture_anchor_written := True,
        rn_files := (rn_files ?rn)(path \<mapsto> fold (append_entry (render_json e)) (fc_entries chain)
          (write_anchor (render_json e) Origin old))\<rparr>, v')" by auto
    have pts: "parse_points [''origin''] = Ok [Origin]" by (simp add: parse_points_def parse_point_def)
    obtain rn' where run: "chain_sync_step e t step params (rn, v) = Some (Ok (), rn', v')"
      "rn_files rn' path = Some (fold (append_entry (render_json e)) (fc_entries chain) (write_anchor (render_json e) Origin old))"
      using c sm cap asks pts
      by (auto simp: chain_sync_step_def checked_out_client_def take_channel_def peer_tracer_def on_conn_def on_world_def
          on_runner_def store_output_def or_else_def run_simps Let_def)
    have "fixture_load (parse_json e) path (file_lines e rn' path) = Ok \<lparr>fc_anchor = Origin, fc_entries = fc_entries chain\<rparr>"
      unfolding file_lines_def run(2) option.case by (rule fixture_load_written) (use reads in simp_all)
    with run(1) assms(4) show ?thesis by (cases chain) auto
  qed
  with server show ?thesis by blast
qed

theorem captured_fixture_is_served_fixture_witness:
  "\<exists>e chain decode served w' rn' v'. length (fc_entries chain) = 1 \<and>
    execute_response_script tracer_open (Some chain) (generate_from_fixture chain 0)
      (map Inr (FindIntersect [Origin] # replicate 1 RequestNext @ [ChainSyncDoneMsg])) fresh_world = (Ok served, w') \<and>
    chain_sync_step e tracer_open (plain_step ChainSync) (no_params\<lparr>sp_count := Some 1\<rparr>)
      (runner_default\<lparr>rn_capture_fixture_path := Some ''f'', rn_connections := [(''default'', (new_connection silent_link None)
         \<lparr>cl_cs_channels := Some (answers_of decode (wire_out w'))\<rparr>)]\<rparr>, fresh_world) = Some (Ok (), rn', v') \<and>
    fixture_load (parse_json e) ''f'' (file_lines e rn' ''f'') = Ok chain"
proof -
  define x where "x = \<lparr>fe_slot = 9, fe_block_hash = encode_hex [1], fe_block_number = 1,
    fe_cbor_hex = encode_hex [0x80], fe_variant = 6\<rparr>"
  define chain where "chain = \<lparr>fc_anchor = Origin, fc_entries = [x]\<rparr>"
  define decode :: "header_content \<Rightarrow> wrapped_header" where "decode = (\<lambda>hc. \<lparr>wh_raw = hc_cbor hc,
    wh_parsed = Some \<lparr>hi_era = hc_variant hc, hi_block_number = 1\<rparr>, wh_point = Some (NcSpecific 9 [1])\<rparr>)"
  define e where "e = bare_env\<lparr>render_json := \<lambda>_. ''E'', parse_json := \<lambda>s.
    if s = ''E'' then Ok (jobj (entry_fields x)) else Ok (jobj [(''anchor'', JBool True)])\<rparr>"
  have recorded: "parses_as_recorded decode x"
    unfolding parses_as_recorded_def by (intro exI [of _ "[1]"] exI [of _ "[0x80]"]) (simp add: x_def decode_def del: encode_hex_simps)
  let ?rn = "\<lambda>ch. runner_default\<lparr>rn_capture_fixture_path := Some ''f'',
    rn_connections := [(''default'', (new_connection silent_link None)\<lparr>cl_cs_channels := Some ch\<rparr>)]\<rparr>"
  let ?run = "execute_response_script tracer_open (Some chain) (generate_from_fixture chain 0)
    (map Inr (FindIntersect [Origin] # replicate 1 RequestNext @ [ChainSyncDoneMsg])) fresh_world"
  have "\<exists>served w' rn' v'. ?run = (Ok served, w') \<and>
    chain_sync_step e tracer_open (plain_step ChainSync) (no_params\<lparr>sp_count := Some 1\<rparr>)
      (?rn (answers_of decode (wire_out w')), fresh_world) = Some (Ok (), rn', v') \<and>
    fixture_load (parse_json e) ''f'' (file_lines e rn' ''f'') = Ok chain"
    using captured_fixture_is_served_fixture [of fresh_world fresh_world chain decode e "''f''"
        "?rn (answers_of decode (wire_out (snd ?run)))" "plain_step ChainSync" "no_params\<lparr>sp_count := Some 1\<rparr>"
        tracer_open 0 tracer_open] recorded
    by (auto simp: chain_def e_def bare_env_def is_blank_def is_whitespace_def genesis_anchor_line_def runner_default_def
        plain_step_def no_params_def conn_on_def name_or_default_def reliable_fresh_world)
  then show ?thesis
    by (intro exI [of _ e] exI [of _ chain] exI [of _ decode]) (auto simp: chain_def)
qed

end
