(* ===== verification/Parallel.thy ===== *)
theory Parallel
  imports ExecuteLaws "HOL-Library.Sublist"
begin

text \<open>
  The \<open>parallel\<close> step under every schedule: the branches of \<open>try_join_all\<close> as a step relation, in
  which any branch that is not over may move next, one poll or one trace line at a time. What a poll of a
  nested step does is a parameter, so that the awaits inside one branch's step interleave with the
  other branches; the parent's part is theory \<open>ParallelStep\<close>.
\<close>

section \<open>The branches as a step relation\<close>

text \<open>Where a branch stands. \<open>Completing\<close> and \<open>Failing\<close> have set their flag and wait for the lock of the
  trace; a branch that has returned keeps its flags and its error, if any.\<close>

datatype branch_pc = Starting | Stepping usize | Completing | Failing usize error
  | Returned branch_end "error option" | Unwinding

datatype join_phase = Joining | Joined "error option" | Unwound

text \<open>\<open>jn_log\<close> is a ghost: the lines that the branches themselves have written, and by whom.\<close>

record join_state =
  jn_branches :: "branch_pc list"
  jn_log :: "(usize \<times> trace_event) list"
  jn_shared :: "runner \<times> world"

text \<open>One poll of the step of a branch, at an index: pending, or ready with the result.\<close>

type_synonym polls = "usize \<Rightarrow> step_def \<Rightarrow> usize \<Rightarrow> runner \<times> world \<Rightarrow> unit res option \<Rightarrow> runner \<times> world \<Rightarrow> bool"

definition step_or_end :: "step_def list \<Rightarrow> usize \<Rightarrow> branch_pc" where
  "step_or_end steps i = (if i < length steps then Stepping i else Completing)"

text \<open>A move of branch \<open>b\<close>, with the lines it writes.\<close>

inductive branch_move ::
  "tracer \<Rightarrow> polls \<Rightarrow> usize \<Rightarrow> step_def list \<Rightarrow> branch_pc \<times> runner \<times> world \<Rightarrow> trace_event list \<Rightarrow> branch_pc \<times> runner \<times> world \<Rightarrow> bool"
  for t polls b steps where
  starts: "do_emit t (branch_started_event b) s = Some (Ok (), s') \<Longrightarrow>
    branch_move t polls b steps (Starting, s) [branch_started_event b] (step_or_end steps 0, s')"
| start_fails: "do_emit t (branch_started_event b) s = Some (Err e, s') \<Longrightarrow>
    branch_move t polls b steps (Starting, s) [] (Returned (BranchDropped 0) (Some e), s')"
| pends: "polls b (steps ! i) i s None s' \<Longrightarrow> branch_move t polls b steps (Stepping i, s) [] (Stepping i, s')"
| step_ends: "polls b (steps ! i) i s (Some (Ok ())) s' \<Longrightarrow>
    branch_move t polls b steps (Stepping i, s) [] (step_or_end steps (Suc i), s')"
| step_fails: "polls b (steps ! i) i s (Some (Err e)) s' \<Longrightarrow>
    branch_move t polls b steps (Stepping i, s) [] (Failing i e, s')"
| step_panics: "polls b (steps ! i) i s (Some Panic) s' \<Longrightarrow>
    branch_move t polls b steps (Stepping i, s) [] (Unwinding, s')"
| failure_written: "do_emit t (branch_failed_event b i e) s = Some (Ok (), s') \<Longrightarrow>
    branch_move t polls b steps (Failing i e, s) [branch_failed_event b i e] (Returned BranchFailed (Some e), s')"
| failure_lost: "do_emit t (branch_failed_event b i e) s = Some (Err e', s') \<Longrightarrow>
    branch_move t polls b steps (Failing i e, s) [] (Returned BranchFailed (Some e), s')"
| completion_written: "do_emit t (branch_completed_event b) s = Some (Ok (), s') \<Longrightarrow>
    branch_move t polls b steps (Completing, s) [branch_completed_event b] (Returned BranchCompleted None, s')"
| completion_fails: "do_emit t (branch_completed_event b) s = Some (Err e, s') \<Longrightarrow>
    branch_move t polls b steps (Completing, s) [] (Returned BranchCompleted (Some e), s')"

inductive_cases starting_move: "branch_move t polls b steps (Starting, s) evs (pc', s')"
inductive_cases stepping_move: "branch_move t polls b steps (Stepping i, s) evs (pc', s')"
inductive_cases failing_move: "branch_move t polls b steps (Failing i e, s) evs (pc', s')"
inductive_cases completing_move: "branch_move t polls b steps (Completing, s) evs (pc', s')"
inductive_simps returned_moves [simp]: "branch_move t polls b steps (Returned x err, s) evs (pc', s')"
inductive_simps unwinding_moves [simp]: "branch_move t polls b steps (Unwinding, s) evs (pc', s')"

text \<open>The join is over with the first error, or when every branch has returned.\<close>

fun returned_error :: "branch_pc \<Rightarrow> error option" where
  "returned_error (Returned x err) = err"
| "returned_error _ = None"

fun has_returned :: "branch_pc \<Rightarrow> bool" where
  "has_returned (Returned x err) = True"
| "has_returned _ = False"

definition join_phase_of :: "branch_pc list \<Rightarrow> join_phase" where
  "join_phase_of pcs = (if Unwinding \<in> set pcs then Unwound else
     case List.map_filter returned_error pcs of
       e # _ \<Rightarrow> Joined (Some e)
     | [] \<Rightarrow> if list_all has_returned pcs then Joined None else Joining)"

text \<open>The flags of a branch when the join is over: a future that is dropped keeps what it set.\<close>

fun end_of :: "branch_pc \<Rightarrow> branch_end" where
  "end_of Starting = BranchDropped 0"
| "end_of (Stepping i) = BranchDropped i"
| "end_of Completing = BranchCompleted"
| "end_of (Failing i e) = BranchFailed"
| "end_of (Returned x err) = x"
| "end_of Unwinding = BranchDropped 0"

inductive join_move :: "tracer \<Rightarrow> polls \<Rightarrow> step_def list list \<Rightarrow> join_state \<Rightarrow> join_state \<Rightarrow> bool"
  for t polls branches where
  move: "join_phase_of (jn_branches j) = Joining \<Longrightarrow> b < length (jn_branches j) \<Longrightarrow>
    branch_move t polls b (branches ! b) (jn_branches j ! b, jn_shared j) evs (pc', s') \<Longrightarrow>
    join_move t polls branches j \<lparr>jn_branches = (jn_branches j)[b := pc'],
      jn_log = jn_log j @ map (Pair b) evs, jn_shared = s'\<rparr>"

definition join_start :: "step_def list list \<Rightarrow> runner \<times> world \<Rightarrow> join_state" where
  "join_start branches s = \<lparr>jn_branches = replicate (length branches) Starting, jn_log = [], jn_shared = s\<rparr>"

inductive reaches :: "tracer \<Rightarrow> polls \<Rightarrow> step_def list list \<Rightarrow> join_state \<Rightarrow> join_state \<Rightarrow> bool"
  for t polls branches j where
  none: "reaches t polls branches j j"
| more: "reaches t polls branches j j' \<Longrightarrow> join_move t polls branches j' j'' \<Longrightarrow> reaches t polls branches j j''"

lemma reaches_trans: "reaches t p bs j j' \<Longrightarrow> reaches t p bs i j \<Longrightarrow> reaches t p bs i j'"
  by (induction rule: reaches.induct) (auto intro: reaches.intros)

lemma reaches_move: "join_move t p bs j j' \<Longrightarrow> reaches t p bs j j'"
  by (blast intro: reaches.intros)

section \<open>The phase\<close>

lemma joining_iff:
  "join_phase_of pcs = Joining \<longleftrightarrow>
     Unwinding \<notin> set pcs \<and> (\<forall>pc \<in> set pcs. returned_error pc = None) \<and> (\<exists>pc \<in> set pcs. \<not> has_returned pc)"
proof -
  have "List.map_filter returned_error pcs = [] \<longleftrightarrow> (\<forall>pc \<in> set pcs. returned_error pc = None)"
    by (induction pcs) (auto simp: List.map_filter_simps split: option.split)
  then show ?thesis by (auto simp: join_phase_of_def list_all_iff split: list.split)
qed

lemma no_errors: "\<forall>pc \<in> set pcs. returned_error pc = None \<Longrightarrow> List.map_filter returned_error pcs = []"
  by (induction pcs) (auto simp: List.map_filter_simps)

lemma errors_update:
  assumes "\<forall>pc \<in> set pcs. returned_error pc = None" "b < length pcs"
  shows "List.map_filter returned_error (pcs[b := pc]) = (case returned_error pc of None \<Rightarrow> [] | Some e \<Rightarrow> [e])"
  using assms
  by (induction pcs arbitrary: b) (auto simp: List.map_filter_simps no_errors split: nat.split option.split)

lemma phase_update:
  assumes "join_phase_of pcs = Joining" "b < length pcs"
  shows "join_phase_of (pcs[b := pc]) = (if pc = Unwinding then Unwound else case returned_error pc of
     Some e \<Rightarrow> Joined (Some e)
   | None \<Rightarrow> if list_all has_returned (pcs[b := pc]) then Joined None else Joining)"
proof -
  have "Unwinding \<in> set (pcs[b := pc]) \<longleftrightarrow> pc = Unwinding"
    using assms set_update_subset_insert [of pcs b pc] by (auto simp: joining_iff set_update_memI)
  moreover have "List.map_filter returned_error (pcs[b := pc]) = (case returned_error pc of None \<Rightarrow> [] | Some e \<Rightarrow> [e])"
    using assms by (intro errors_update) (simp_all add: joining_iff)
  ultimately show ?thesis by (simp add: join_phase_of_def split: option.split)
qed

section \<open>What the branches write\<close>

definition branch_log :: "usize \<Rightarrow> join_state \<Rightarrow> trace_event list" where
  "branch_log b j = map snd (filter (\<lambda>x. fst x = b) (jn_log j))"

text \<open>The lines of a branch that stands at a place.\<close>

fun lines_at :: "usize \<Rightarrow> branch_pc \<Rightarrow> trace_event list \<Rightarrow> bool" where
  "lines_at b Starting evs \<longleftrightarrow> evs = []"
| "lines_at b (Returned BranchCompleted None) evs \<longleftrightarrow> evs = [branch_started_event b, branch_completed_event b]"
| "lines_at b (Returned BranchFailed (Some e)) evs \<longleftrightarrow> evs = [branch_started_event b] \<or>
     (\<exists>i. evs = [branch_started_event b, branch_failed_event b i e])"
| "lines_at b (Returned BranchCompleted (Some e)) evs \<longleftrightarrow> evs = [branch_started_event b]"
| "lines_at b (Returned (BranchDropped i) (Some e)) evs \<longleftrightarrow> evs = [] \<and> i = 0"
| "lines_at b (Returned x err) evs \<longleftrightarrow> False"
| "lines_at b pc evs \<longleftrightarrow> evs = [branch_started_event b]"

lemma branch_move_lines:
  assumes "branch_move t p b steps (pc, s) evs (pc', s')" "lines_at b pc old"
  shows "lines_at b pc' (old @ evs)"
  using assms by cases (auto simp: step_or_end_def)

definition branches_ok :: "step_def list list \<Rightarrow> join_state \<Rightarrow> bool" where
  "branches_ok branches j \<longleftrightarrow> length (jn_branches j) = length branches \<and>
     (\<forall>b < length branches. lines_at b (jn_branches j ! b) (branch_log b j))"

lemma branch_log_append:
  "branch_log c \<lparr>jn_branches = pcs, jn_log = l @ map (Pair b) evs, jn_shared = s\<rparr> =
    branch_log c \<lparr>jn_branches = pcs, jn_log = l, jn_shared = s\<rparr> @ (if c = b then evs else [])"
  by (simp add: branch_log_def comp_def)

lemma branch_log_only: "branch_log c \<lparr>jn_branches = pcs, jn_log = jn_log j, jn_shared = s\<rparr> = branch_log c j"
  by (simp add: branch_log_def)

lemma branches_ok_start: "branches_ok branches (join_start branches s)"
  by (simp add: branches_ok_def join_start_def branch_log_def)

lemma branches_ok_move: "join_move t p branches j j' \<Longrightarrow> branches_ok branches j \<Longrightarrow> branches_ok branches j'"
  by (induction rule: join_move.induct)
    (auto simp: branches_ok_def branch_log_append branch_log_only nth_list_update intro: branch_move_lines)

lemma branches_ok_reaches: "reaches t p branches j j' \<Longrightarrow> branches_ok branches j \<Longrightarrow> branches_ok branches j'"
  by (induction rule: reaches.induct) (auto intro: branches_ok_move)

text \<open>At most one branch returns an error, and the join returns it.\<close>

definition one_error :: "join_state \<Rightarrow> bool" where
  "one_error j \<longleftrightarrow> (case join_phase_of (jn_branches j) of
     Joined (Some e) \<Rightarrow> (\<exists>b < length (jn_branches j). returned_error (jn_branches j ! b) = Some e \<and>
       (\<forall>c < length (jn_branches j). c \<noteq> b \<longrightarrow> returned_error (jn_branches j ! c) = None))
   | Joined None \<Rightarrow> (\<forall>pc \<in> set (jn_branches j). has_returned pc \<and> returned_error pc = None)
   | _ \<Rightarrow> True)"

lemma one_error_move:
  assumes "join_move t p branches j j'"
  shows "one_error j'"
  using assms
proof cases
  case (move b evs pc' s')
  have quiet: "returned_error (jn_branches j ! c) = None" if "c < length (jn_branches j)" for c
    using move(2) that by (simp add: joining_iff)
  have rest: "returned_error pc = None" if "pc \<in> set ((jn_branches j)[b := pc'])" "returned_error pc' = None" for pc
    using move(2) that set_update_subset_insert [of "jn_branches j" b pc'] by (auto simp: joining_iff)
  show ?thesis
    using move(1,3) quiet rest phase_update [OF move(2,3), of pc']
    by (auto simp: one_error_def list_all_iff nth_list_update split: option.splits if_splits)
qed

lemma one_error_reaches: "reaches t p branches (join_start branches s) j \<Longrightarrow> one_error j"
proof (induction rule: reaches.induct)
  case none
  show ?case
    by (auto simp: one_error_def join_start_def join_phase_of_def List.map_filter_def list_all_iff split: list.splits)
next
  case (more j' j'')
  then show ?case by (blast intro: one_error_move)
qed

section \<open>The trace\<close>

text \<open>What the polls of the nested steps are known to do: nothing that was written goes away, and the
  environment's answers stay. Theory \<open>ExecuteLaws\<close> shows it of the steps.\<close>

definition polls_extend :: "polls \<Rightarrow> bool" where
  "polls_extend polls \<longleftrightarrow> (\<forall>b st i s r s'. polls b st i s r s' \<longrightarrow> extends (snd s) (snd s'))"

lemma polls_extendD: "polls_extend polls \<Longrightarrow> polls b st i s r s' \<Longrightarrow> extends (snd s) (snd s')"
  unfolding polls_extend_def by blast

definition unstamped :: "trace_event \<Rightarrow> trace_event" where
  "unstamped e = e\<lparr>te_peer_id := None, te_slot := None\<rparr>"

lemma branch_events_unstamped:
  "unstamped (stamp t now (branch_started_event b)) = branch_started_event b"
  "unstamped (stamp t now (branch_completed_event b)) = branch_completed_event b"
  "unstamped (stamp t now (branch_failed_event b i e)) = branch_failed_event b i e"
  by (simp_all add: branch_started_event_def branch_completed_event_def branch_failed_event_def new_event_def
      unstamped_def stamp_def Let_def)

text \<open>From one shared state to the next the trace grows, and the lines of a list are among the new ones.\<close>

definition adds_lines :: "trace_event list \<Rightarrow> world \<Rightarrow> world \<Rightarrow> bool" where
  "adds_lines evs w w' \<longleftrightarrow> extends w w' \<and>
     (\<exists>es. trace_file w' = trace_file w @ es \<and> subseq evs (map unstamped es))"

lemma adds_lines_none: "extends w w' \<Longrightarrow> adds_lines [] w w'"
  by (auto simp: adds_lines_def extends_def)

lemma adds_lines_trans: "adds_lines xs u v \<Longrightarrow> adds_lines ys v w \<Longrightarrow> adds_lines (xs @ ys) u w"
  unfolding adds_lines_def by (auto intro: list_emb_append_mono extends_trans)

lemma adds_lines_emit:
  assumes "do_emit t ev s = Some (Ok (), s')" "\<And>now. unstamped (stamp t now ev) = ev"
  shows "adds_lines [ev] (snd s) (snd s')"
  using assms
  by (auto simp: do_emit_def io_run_def emit_def Let_def adds_lines_def extends_def anyhow_def split: prod.splits option.splits)

lemma do_emit_extends: "do_emit t ev s = Some (r, s') \<Longrightarrow> extends (snd s) (snd s')"
  by (auto simp: do_emit_def io_run_def emit_def Let_def extends_def anyhow_def split: prod.splits option.splits)

lemma branch_move_trace:
  assumes "branch_move t polls b steps (pc, s) evs (pc', s')" "polls_extend polls"
  shows "adds_lines evs (snd s) (snd s')"
  using assms(1)
proof cases
  case starts
  then show ?thesis by (simp add: adds_lines_emit branch_events_unstamped)
next
  case failure_written
  then show ?thesis by (simp add: adds_lines_emit branch_events_unstamped)
next
  case completion_written
  then show ?thesis by (simp add: adds_lines_emit branch_events_unstamped)
qed (use assms(2) in \<open>auto intro: adds_lines_none do_emit_extends polls_extendD\<close>)

lemma join_adds_lines:
  assumes "reaches t polls branches (join_start branches s) j" "polls_extend polls"
  shows "adds_lines (map snd (jn_log j)) (snd s) (snd (jn_shared j))"
  using assms(1)
proof (induction rule: reaches.induct)
  case none
  show ?case by (simp add: join_start_def adds_lines_none extends_refl)
next
  case (more j' j'')
  from more(2) show ?case
  proof cases
    case (move b evs pc' s')
    from adds_lines_trans [OF more.IH branch_move_trace [OF move(4) assms(2)]] move(1) show ?thesis
      by (simp add: comp_def)
  qed
qed

lemma reliable_extends: "reliable w \<Longrightarrow> extends w w' \<Longrightarrow> reliable w'"
  by (simp add: reliable_def extends_def)

text \<open>With a trace that can be written, only the branch that failed returns its error, and the line of a
  branch that has returned is there.\<close>

fun returned_well :: "usize \<Rightarrow> branch_pc \<Rightarrow> trace_event list \<Rightarrow> bool" where
  "returned_well b (Returned x err) evs \<longleftrightarrow> (x = BranchCompleted \<and> err = None) \<or>
     (x = BranchFailed \<and> (\<exists>e i. err = Some e \<and> evs = [branch_started_event b, branch_failed_event b i e]))"
| "returned_well b pc evs \<longleftrightarrow> True"

lemma branch_move_well:
  assumes "branch_move t polls b steps (pc, s) evs (pc', s')" "reliable (snd s)" "lines_at b pc old"
  shows "returned_well b pc' (old @ evs)"
proof -
  have emits: "do_emit t ev s \<noteq> Some (Err e, s'')" for ev e s''
    using assms(2) do_emit_reliable [of "snd s" t ev "fst s"] by simp
  from assms(1,3) show ?thesis by cases (auto simp: emits step_or_end_def)
qed

lemma returned_well_reaches:
  assumes "reaches t polls branches (join_start branches s) j" "polls_extend polls" "reliable (snd s)" "b < length branches"
  shows "returned_well b (jn_branches j ! b) (branch_log b j)"
  using assms(1)
proof (induction rule: reaches.induct)
  case none
  show ?case using assms(4) by (simp add: join_start_def)
next
  case (more j' j'')
  have rel: "reliable (snd (jn_shared j'))"
    using join_adds_lines [OF more(1) assms(2)] assms(3) by (auto simp: adds_lines_def intro: reliable_extends)
  have ok: "branches_ok branches j'" using more(1) branches_ok_start by (rule branches_ok_reaches)
  from more(2) show ?case
  proof cases
    case (move c evs pc' s')
    show ?thesis
    proof (cases "c = b")
      case True
      with move ok assms(4) branch_move_well [OF move(4) rel, of "branch_log c j'"] show ?thesis
        by (simp add: branches_ok_def branch_log_append branch_log_only)
    qed (use move(1) more.IH in \<open>simp add: branch_log_append branch_log_only\<close>)
  qed
qed

section \<open>What the parent adds\<close>

fun abort_line :: "usize \<Rightarrow> branch_end \<Rightarrow> trace_event list" where
  "abort_line b (BranchDropped i) = [branch_aborted_event b i]"
| "abort_line b _ = []"

lemma aborted_events_lines: "aborted_events b ends = concat (map (\<lambda>(c, x). abort_line c x) (zip [b..<b + length ends] ends))"
proof (induction ends arbitrary: b)
  case (Cons x xs)
  have "[b..<b + length (x # xs)] = b # [Suc b..<Suc b + length xs]" by (rule trans [OF upt_conv_Cons]) simp_all
  with Cons show ?case by (cases x) auto
qed simp

section \<open>Leaving the join\<close>

text \<open>The work that is left: every move but a pending poll does some of it.\<close>

fun work_left :: "step_def list \<Rightarrow> branch_pc \<Rightarrow> nat" where
  "work_left steps Starting = length steps + 2"
| "work_left steps (Stepping i) = (length steps - i) + 1"
| "work_left steps Completing = 1"
| "work_left steps (Failing i e) = 1"
| "work_left steps (Returned x err) = 0"
| "work_left steps Unwinding = 0"

definition join_work :: "step_def list list \<Rightarrow> join_state \<Rightarrow> nat" where
  "join_work branches j = (\<Sum>b < length branches. work_left (branches ! b) (jn_branches j ! b))"

lemma branch_move_work:
  assumes "branch_move t polls b steps (pc, s) evs (pc', s')" "\<And>i. pc = Stepping i \<Longrightarrow> i < length steps"
  shows "pc' = pc \<or> work_left steps pc' < work_left steps pc"
  using assms by cases (auto simp: step_or_end_def)

definition indices_ok :: "step_def list list \<Rightarrow> join_state \<Rightarrow> bool" where
  "indices_ok branches j \<longleftrightarrow> length (jn_branches j) = length branches \<and>
     (\<forall>b < length branches. \<forall>i. jn_branches j ! b = Stepping i \<longrightarrow> i < length (branches ! b))"

lemma branch_move_index:
  assumes "branch_move t polls b steps (pc, s) evs (Stepping k, s')" "\<And>i. pc = Stepping i \<Longrightarrow> i < length steps"
  shows "k < length steps"
  using assms by cases (auto simp: step_or_end_def split: if_splits)

lemma indices_ok_start: "indices_ok branches (join_start branches s)"
  by (simp add: indices_ok_def join_start_def)

lemma indices_ok_move: "join_move t polls branches j j' \<Longrightarrow> indices_ok branches j \<Longrightarrow> indices_ok branches j'"
  by (induction rule: join_move.induct) (auto simp: indices_ok_def nth_list_update intro: branch_move_index)

lemma join_move_work:
  assumes "join_move t polls branches j j'" "indices_ok branches j"
  shows "jn_branches j' = jn_branches j \<or> join_work branches j' < join_work branches j"
  using assms(1)
proof cases
  case (move b evs pc' s')
  from move(3) assms(2) have b: "b < length branches" by (simp add: indices_ok_def)
  let ?f = "\<lambda>c. work_left (branches ! c) (jn_branches j' ! c)" and ?g = "\<lambda>c. work_left (branches ! c) (jn_branches j ! c)"
  have "pc' = jn_branches j ! b \<or> ?f b < ?g b"
    using branch_move_work [OF move(4)] assms(2) b move(1,3) by (auto simp: indices_ok_def)
  then show ?thesis
  proof
    assume "pc' = jn_branches j ! b"
    with move(1) show ?thesis by simp
  next
    assume "?f b < ?g b"
    moreover have "\<forall>c \<in> {..<length branches}. ?f c \<le> ?g c"
      using \<open>?f b < ?g b\<close> move(1,3) by (auto simp: nth_list_update)
    ultimately show ?thesis
      using b unfolding join_work_def by (intro disjI2 sum_strict_mono_ex1) auto
  qed
qed

lemma joining_has_running:
  assumes "join_phase_of pcs = Joining"
  shows "\<exists>b < length pcs. \<not> has_returned (pcs ! b)"
  using assms by (auto simp: joining_iff in_set_conv_nth)

section \<open>The schedule in which nothing suspends\<close>

definition whole_polls :: "(step_def \<Rightarrow> usize \<Rightarrow> unit run) \<Rightarrow> polls" where
  "whole_polls run1 b st i s r s' \<longleftrightarrow> (\<exists>x. r = Some x \<and> run1 st i s = Some (x, s'))"

text \<open>Branch \<open>b\<close> runs, the ones before it are done, \<open>k\<close> after it have not been polled.\<close>

definition in_turn :: "usize \<Rightarrow> branch_pc \<Rightarrow> nat \<Rightarrow> (usize \<times> trace_event) list \<Rightarrow> runner \<times> world \<Rightarrow> join_state" where
  "in_turn b pc k l s = \<lparr>jn_branches = replicate b (Returned BranchCompleted None) @ pc # replicate k Starting,
     jn_log = l, jn_shared = s\<rparr>"

lemma in_turn_move:
  assumes "branch_move t polls b (branches ! b) (pc, s) evs (pc', s')"
  shows "join_move t polls branches (in_turn b pc k l s) (in_turn b pc' k (l @ map (Pair b) evs) s')"
proof -
  have "\<not> has_returned pc" "pc \<noteq> Unwinding" "returned_error pc = None" using assms by (cases pc; auto)+
  then have "join_phase_of (jn_branches (in_turn b pc k l s)) = Joining"
    by (auto simp: joining_iff in_turn_def)
  from join_move.move [OF this, of b] assms show ?thesis
    by (simp add: in_turn_def nth_append list_update_append)
qed

lemma do_emit_cases:
  obtains (ok) s' where "do_emit t ev s = Some (Ok (), s')" "try_emit t ev s = Some (Ok (), s')"
  | (err) e s' where "do_emit t ev s = Some (Err e, s')" "try_emit t ev s = Some (Ok (), s')"
  by (cases s; cases "env_write_err (snd s) (write_attempts (snd s))")
    (auto simp: do_emit_def try_emit_def io_run_def emit_def Let_def anyhow_def ignore_io_def ret_def)

definition stands_as :: "(branch_end \<times> error option) res \<Rightarrow> branch_pc \<Rightarrow> bool" where
  "stands_as r pc \<longleftrightarrow> (case r of
     Ok (x, err) \<Rightarrow> pc = Returned x err \<and> (err = None \<longrightarrow> x = BranchCompleted) | Err _ \<Rightarrow> False | Panic \<Rightarrow> pc = Unwinding)"

lemma in_turn_steps:
  assumes "branch_steps_run t run1 b si ss s = Some (r, s')" "branches ! b = pre @ ss" "length pre = si"
  shows "\<exists>pc l'. reaches t (whole_polls run1) branches (in_turn b (step_or_end (branches ! b) si) k l s) (in_turn b pc k l' s') \<and> stands_as r pc"
  using assms
proof (induction ss arbitrary: si pre s)
  case Nil
  then have at_end: "step_or_end (branches ! b) si = Completing" by (simp add: step_or_end_def)
  show ?case
  proof (cases rule: do_emit_cases [of t "branch_completed_event b" s])
    case (ok u)
    from in_turn_move [OF branch_move.completion_written [OF ok(1)]] Nil ok at_end show ?thesis
      by (fastforce simp: match_run_def res_run_def stands_as_def intro: reaches_move)
  next
    case (err e u)
    from in_turn_move [OF branch_move.completion_fails [OF err(1)]] Nil err at_end show ?thesis
      by (fastforce simp: match_run_def res_run_def stands_as_def intro: reaches_move)
  qed
next
  case (Cons st ss)
  then have here: "step_or_end (branches ! b) si = Stepping si" "branches ! b ! si = st"
    by (auto simp: step_or_end_def nth_append)
  from Cons.prems(1) obtain x u where x: "run1 st si s = Some (x, u)"
    by (auto simp: match_run_def split: option.splits)
  then have polled: "whole_polls run1 b (branches ! b ! si) si s (Some x) u" by (simp add: whole_polls_def here)
  show ?case
  proof (cases x)
    case (Ok y)
    then have one: "join_move t (whole_polls run1) branches (in_turn b (Stepping si) k l s)
        (in_turn b (step_or_end (branches ! b) (Suc si)) k l u)"
      using in_turn_move [OF branch_move.step_ends, of "whole_polls run1" b branches si s u t k l] polled by simp
    have "branch_steps_run t run1 b (Suc si) ss u = Some (r, s')"
      using Cons.prems(1) x Ok by (simp add: match_run_def)
    with Cons.IH [OF this, of "pre @ [st]"] Cons.prems(2,3) obtain pc l' where
      "reaches t (whole_polls run1) branches (in_turn b (step_or_end (branches ! b) (Suc si)) k l u) (in_turn b pc k l' s')"
      "stands_as r pc" by auto
    with reaches_trans [OF this(1) reaches_move [OF one]] here show ?thesis by auto
  next
    case (Err e)
    then have one: "join_move t (whole_polls run1) branches (in_turn b (Stepping si) k l s) (in_turn b (Failing si e) k l u)"
      using in_turn_move [OF branch_move.step_fails, of "whole_polls run1" b branches si s e u t k l] polled by simp
    show ?thesis
    proof (cases rule: do_emit_cases [of t "branch_failed_event b si e" u])
      case (ok v)
      from in_turn_move [OF branch_move.failure_written [OF ok(1)]] have
        "join_move t (whole_polls run1) branches (in_turn b (Failing si e) k l u)
          (in_turn b (Returned BranchFailed (Some e)) k (l @ [(b, branch_failed_event b si e)]) v)" by simp
      from reaches_trans [OF reaches_move [OF this] reaches_move [OF one]] Cons.prems(1) x Err ok here show ?thesis
        by (fastforce simp: match_run_def bind_run_def res_run_def stands_as_def)
    next
      case (err e' v)
      from in_turn_move [OF branch_move.failure_lost [OF err(1)]] have
        "join_move t (whole_polls run1) branches (in_turn b (Failing si e) k l u)
          (in_turn b (Returned BranchFailed (Some e)) k l v)" by simp
      from reaches_trans [OF reaches_move [OF this] reaches_move [OF one]] Cons.prems(1) x Err err here show ?thesis
        by (fastforce simp: match_run_def bind_run_def res_run_def stands_as_def)
    qed
  next
    case Panic
    then have "join_move t (whole_polls run1) branches (in_turn b (Stepping si) k l s) (in_turn b Unwinding k l u)"
      using in_turn_move [OF branch_move.step_panics, of "whole_polls run1" b branches si s u t k l] polled by simp
    with Cons.prems(1) x Panic here show ?thesis
      by (auto simp: match_run_def stands_as_def intro: reaches_move)
  qed
qed

lemma in_turn_branch:
  assumes "branch_run t run1 b (branches ! b) s = Some (r, s')"
  shows "\<exists>pc l'. reaches t (whole_polls run1) branches (in_turn b Starting k l s) (in_turn b pc k l' s') \<and> stands_as r pc"
proof (cases rule: do_emit_cases [of t "branch_started_event b" s])
  case (ok u)
  then have "branch_steps_run t run1 b 0 (branches ! b) u = Some (r, s')"
    using assms by (simp add: branch_run_def match_run_def)
  from in_turn_steps [OF this, of branches "[]" k] in_turn_move [OF branch_move.starts [OF ok(1)]] show ?thesis
    by (fastforce intro: reaches_trans reaches_move)
next
  case (err e u)
  from in_turn_move [OF branch_move.start_fails [OF err(1)]] assms err show ?thesis
    by (fastforce simp: branch_run_def match_run_def res_run_def stands_as_def intro: reaches_move)
qed

lemma next_in_turn: "in_turn b (Returned BranchCompleted None) (Suc k) l s = in_turn (Suc b) Starting k l s"
  by (simp add: in_turn_def replicate_append_same [symmetric] del: replicate_Suc) (simp add: replicate_append_same)

lemma start_in_turn: "join_start (steps # rest) s = in_turn 0 Starting (length rest) [] s"
  by (simp add: join_start_def in_turn_def)

text \<open>How a join stands when the schedule in order is through with it.\<close>

definition over_as :: "(branch_end list \<times> error option) res \<Rightarrow> branch_end list \<Rightarrow> join_state \<Rightarrow> bool" where
  "over_as r before j \<longleftrightarrow> (case r of
     Ok (ends, err) \<Rightarrow> join_phase_of (jn_branches j) = Joined err \<and> map end_of (jn_branches j) = before @ ends \<and>
       (\<forall>pc \<in> set (jn_branches j). pc = Starting \<or> has_returned pc)
   | Err e \<Rightarrow> False
   | Panic \<Rightarrow> join_phase_of (jn_branches j) = Unwound)"

lemma phase_in_turn:
  "\<forall>pc \<in> set pcs. pc = Starting \<Longrightarrow>
    join_phase_of (replicate b (Returned BranchCompleted None) @ Returned x (Some e) # pcs) = Joined (Some e)"
  "join_phase_of (replicate b (Returned BranchCompleted None) @ Unwinding # pcs) = Unwound"
  "join_phase_of (replicate b (Returned BranchCompleted None) @ [Returned x None]) = Joined None"
proof -
  have skip: "List.map_filter returned_error (replicate b (Returned BranchCompleted None) @ xs) = List.map_filter returned_error xs" for xs
    by (induction b) (simp_all add: List.map_filter_simps)
  show "join_phase_of (replicate b (Returned BranchCompleted None) @ Returned x (Some e) # pcs) = Joined (Some e)"
    if "\<forall>pc \<in> set pcs. pc = Starting"
    using that by (auto simp: join_phase_of_def skip List.map_filter_simps)
  show "join_phase_of (replicate b (Returned BranchCompleted None) @ [Returned x None]) = Joined None"
    by (simp add: join_phase_of_def skip List.map_filter_simps list_all_iff)
qed (simp add: join_phase_of_def)

lemma poll_from_in_turn:
  assumes "poll_from t run1 b (steps # rest) s = Some (r, s')" "drop b branches = steps # rest"
  shows "\<exists>j. reaches t (whole_polls run1) branches (in_turn b Starting (length rest) l s) j \<and> jn_shared j = s' \<and>
    over_as r (replicate b BranchCompleted) j"
  using assms
proof (induction rest arbitrary: b steps s l r s')
  case Nil
  have here: "branches ! b = steps" using Nil.prems(2) by (rule nth_via_drop)
  from Nil.prems(1) obtain r1 u where run: "branch_run t run1 b (branches ! b) s = Some (r1, u)"
    unfolding here by (auto simp: bind_run_def split: option.splits)
  obtain pc l' where "reaches t (whole_polls run1) branches (in_turn b Starting 0 l s) (in_turn b pc 0 l' u)" "stands_as r1 pc"
    using in_turn_branch [OF run] by blast
  with Nil.prems(1) run here show ?case
    by (intro exI [of _ "in_turn b pc 0 l' u"])
      (auto simp: bind_run_def res_run_def stands_as_def over_as_def in_turn_def phase_in_turn
        split: res.splits option.splits prod.splits)
next
  case (Cons next' rest)
  have here: "branches ! b = steps" using Cons.prems(2) by (rule nth_via_drop)
  have after: "drop (Suc b) branches = next' # rest" using Cons.prems(2) by (metis drop_Suc list.sel(3) tl_drop)
  from Cons.prems(1) obtain r1 u where run: "branch_run t run1 b (branches ! b) s = Some (r1, u)"
    unfolding here by (auto simp: bind_run_def split: option.splits)
  obtain pc l' where goes: "reaches t (whole_polls run1) branches (in_turn b Starting (Suc (length rest)) l s)
      (in_turn b pc (Suc (length rest)) l' u)" and stands: "stands_as r1 pc"
    using in_turn_branch [OF run] by blast
  show ?case
  proof (cases "pc = Returned BranchCompleted None")
    case True
    then have "r1 = Ok (BranchCompleted, None)" using stands by (auto simp: stands_as_def split: res.splits)
    with Cons.prems(1) run here obtain r2 where rest: "poll_from t run1 (Suc b) (next' # rest) u = Some (r2, s')"
      and r: "r = (case r2 of Ok (xs, err) \<Rightarrow> Ok (BranchCompleted # xs, err) | Err e \<Rightarrow> Err e | Panic \<Rightarrow> Panic)"
      by (auto simp del: poll_from.simps(2) simp: poll_from.simps(2) [of t run1 b] bind_run_def res_run_def
          split: option.splits res.splits prod.splits)
    obtain j where "reaches t (whole_polls run1) branches (in_turn (Suc b) Starting (length rest) l' u) j" "jn_shared j = s'"
      "over_as r2 (replicate (Suc b) BranchCompleted) j"
      using Cons.IH [OF rest after] by blast
    with goes True r show ?thesis
      by (intro exI [of _ j]) (auto simp: next_in_turn over_as_def replicate_append_same [symmetric] intro: reaches_trans split: res.splits)
  next
    case False
    with Cons.prems(1) run here stands show ?thesis
      by (intro exI [of _ "in_turn b pc (Suc (length rest)) l' u"] conjI)
        (use goes in \<open>auto simp del: poll_from.simps(2) simp: poll_from.simps(2) [of t run1 b] bind_run_def res_run_def stands_as_def
          over_as_def in_turn_def phase_in_turn split: res.splits option.splits prod.splits\<close>)
  qed
qed

text \<open>The steps of this program are such polls, when each of them runs to its end at once.\<close>

lemma execute_step_extends:
  "polls_extend (whole_polls (run_step (execute_step e poll_in_order t' target magic) t))"
proof -
  have "run_keeps adds (run_step (execute_step e poll_in_order t' target magic) t st i)" for st i
    by (rule trace_run.run_keeps_step) (rule adds_step.run_keeps_execute)
  from run_keepsD [OF this] show ?thesis by (fastforce simp: polls_extend_def whole_polls_def)
qed

text \<open>Moves with a trace that can be written.\<close>

lemma reliable_join_moves:
  assumes "join_phase_of (jn_branches j) = Joining" "b < length (jn_branches j)" "jn_shared j = (rn, w)" "reliable w"
  shows "jn_branches j ! b = Starting \<Longrightarrow> join_move t polls branches j
      \<lparr>jn_branches = (jn_branches j)[b := step_or_end (branches ! b) 0], jn_log = jn_log j @ [(b, branch_started_event b)],
       jn_shared = (rn, logged t (branch_started_event b) w)\<rparr>"
    and "jn_branches j ! b = Completing \<Longrightarrow> join_move t polls branches j
      \<lparr>jn_branches = (jn_branches j)[b := Returned BranchCompleted None], jn_log = jn_log j @ [(b, branch_completed_event b)],
       jn_shared = (rn, logged t (branch_completed_event b) w)\<rparr>"
    and "jn_branches j ! b = Failing i e \<Longrightarrow> join_move t polls branches j
      \<lparr>jn_branches = (jn_branches j)[b := Returned BranchFailed (Some e)], jn_log = jn_log j @ [(b, branch_failed_event b i e)],
       jn_shared = (rn, logged t (branch_failed_event b i e) w)\<rparr>"
    and "jn_branches j ! b = Stepping i \<Longrightarrow> polls b (branches ! b ! i) i (rn, w) (Some (Err e)) s' \<Longrightarrow> join_move t polls branches j
      \<lparr>jn_branches = (jn_branches j)[b := Failing i e], jn_log = jn_log j, jn_shared = s'\<rparr>"
proof -
  note moves = join_move.move [OF assms(1,2), of t polls branches]
  have written: "do_emit t ev (jn_shared j) = Some (Ok (), rn, logged t ev w)" for ev
    using assms(3,4) by (simp add: do_emit_reliable)
  show "jn_branches j ! b = Starting \<Longrightarrow> join_move t polls branches j
      \<lparr>jn_branches = (jn_branches j)[b := step_or_end (branches ! b) 0], jn_log = jn_log j @ [(b, branch_started_event b)],
       jn_shared = (rn, logged t (branch_started_event b) w)\<rparr>"
    using moves [of "[branch_started_event b]"] branch_move.starts [OF written] by simp
  show "jn_branches j ! b = Completing \<Longrightarrow> join_move t polls branches j
      \<lparr>jn_branches = (jn_branches j)[b := Returned BranchCompleted None], jn_log = jn_log j @ [(b, branch_completed_event b)],
       jn_shared = (rn, logged t (branch_completed_event b) w)\<rparr>"
    using moves [of "[branch_completed_event b]"] branch_move.completion_written [OF written] by simp
  show "jn_branches j ! b = Failing i e \<Longrightarrow> join_move t polls branches j
      \<lparr>jn_branches = (jn_branches j)[b := Returned BranchFailed (Some e)], jn_log = jn_log j @ [(b, branch_failed_event b i e)],
       jn_shared = (rn, logged t (branch_failed_event b i e) w)\<rparr>"
    using moves [of "[branch_failed_event b i e]"] branch_move.failure_written [OF written] by simp
  show "jn_branches j ! b = Stepping i \<Longrightarrow> polls b (branches ! b ! i) i (rn, w) (Some (Err e)) s' \<Longrightarrow> join_move t polls branches j
      \<lparr>jn_branches = (jn_branches j)[b := Failing i e], jn_log = jn_log j, jn_shared = s'\<rparr>"
    using moves [of "[]"] branch_move.step_fails [of polls b "branches ! b" i "(rn, w)" e s' t] assms(3) by simp
qed

lemma unreported_run:
  fixes t e step rn
  defines "P \<equiv> whole_polls (\<lambda>_ _. res_run (Err e))" and "B \<equiv> [[], [step]]"
  defines "j \<equiv> \<lambda>w. \<lparr>jn_branches = [Completing, Returned BranchFailed (Some e)],
     jn_log = [(0, branch_started_event 0), (1, branch_started_event 1), (1, branch_failed_event 1 0 e)],
     jn_shared = (rn, logged t (branch_failed_event 1 0 e) (logged t (branch_started_event 1) (logged t (branch_started_event 0) w)))\<rparr>"
  assumes "reliable w"
  shows "reaches t P B (join_start B (rn, w)) (j w)"
    "join_phase_of (jn_branches (j w)) = Joined (Some e)" "end_of (jn_branches (j w) ! 0) = BranchCompleted"
    "branch_log 0 (j w) = [branch_started_event 0]" "aborted_events 0 (map end_of (jn_branches (j w))) = []"
proof -
  let ?w1 = "logged t (branch_started_event 0) w"
  let ?w2 = "logged t (branch_started_event 1) ?w1"
  let ?j1 = "\<lparr>jn_branches = [Completing, Starting], jn_log = [(0, branch_started_event 0)], jn_shared = (rn, ?w1)\<rparr>"
  let ?l2 = "[(0, branch_started_event 0), (1, branch_started_event 1)]"
  let ?j2 = "\<lparr>jn_branches = [Completing, Stepping 0], jn_log = ?l2, jn_shared = (rn, ?w2)\<rparr>"
  let ?j3 = "\<lparr>jn_branches = [Completing, Failing 0 e], jn_log = ?l2, jn_shared = (rn, ?w2)\<rparr>"
  have start: "join_start B (rn, w) = \<lparr>jn_branches = [Starting, Starting], jn_log = [], jn_shared = (rn, w)\<rparr>"
    by (simp add: join_start_def B_def)
  have 1: "join_move t P B (join_start B (rn, w)) ?j1"
    using reliable_join_moves(1) [of "join_start B (rn, w)" 0 rn w t P B] assms(4) unfolding start
    by (simp add: B_def joining_iff step_or_end_def)
  have 2: "join_move t P B ?j1 ?j2"
    using reliable_join_moves(1) [of ?j1 1 rn ?w1 t P B] assms(4)
    by (simp add: B_def joining_iff step_or_end_def)
  have 3: "join_move t P B ?j2 ?j3"
    using reliable_join_moves(4) [of ?j2 1 rn ?w2 0 P B e "(rn, ?w2)" t] assms(4)
    by (simp add: B_def P_def whole_polls_def res_run_def joining_iff)
  have 4: "join_move t P B ?j3 (j w)"
    using reliable_join_moves(3) [of ?j3 1 rn ?w2 0 e t P B] assms(4)
    by (simp add: j_def joining_iff)
  show "reaches t P B (join_start B (rn, w)) (j w)"
    by (rule reaches.more [OF reaches.more [OF reaches.more [OF reaches.more [OF reaches.none 1] 2] 3] 4])
qed (simp_all add: j_def join_phase_of_def List.map_filter_simps branch_log_def)

section \<open>Properties\<close>

lemma branch_report:
  assumes "lines_at b pc evs" "returned_well b pc evs" "pc \<noteq> Unwinding" "err = None \<Longrightarrow> has_returned pc"
    and "\<And>e. returned_error pc = Some e \<Longrightarrow> err = Some e"
  shows "case end_of pc of
       BranchCompleted \<Rightarrow> evs = [branch_started_event b, branch_completed_event b] \<or>
         (err \<noteq> None \<and> pc = Completing \<and> evs = [branch_started_event b])
     | BranchFailed \<Rightarrow> (\<exists>i e. (err = Some e \<and> evs = [branch_started_event b, branch_failed_event b i e]) \<or>
         (err \<noteq> None \<and> pc = Failing i e \<and> evs = [branch_started_event b]))
     | BranchDropped i \<Rightarrow> err \<noteq> None \<and> evs \<in> {[], [branch_started_event b]}"
proof (cases pc)
  case (Returned x e)
  then show ?thesis using assms by (cases x; cases e) auto
qed (use assms in auto)

lemma join_error_is:
  assumes "one_error j" "join_phase_of (jn_branches j) = Joined err" "b < length (jn_branches j)"
    "returned_error (jn_branches j ! b) = Some e"
  shows "err = Some e"
proof (cases err)
  case None
  with assms nth_mem [OF assms(3)] show ?thesis by (auto simp: one_error_def)
next
  case (Some e')
  with assms(1,2) obtain c where "returned_error (jn_branches j ! c) = Some e'"
    "\<forall>d < length (jn_branches j). d \<noteq> c \<longrightarrow> returned_error (jn_branches j ! d) = None"
    by (auto simp: one_error_def)
  with assms(3,4) Some show ?thesis by (cases "b = c") auto
qed

text \<open>C4: Under every schedule, a parallel step accounts for its branches. When the join is over with a
  trace that can be written, the lines of the branches are in the trace in the order they were
  written, and for each branch: if it has completed, its lines are its start and its completion, unless
  the join failed while it waited to write the latter; if it has failed, they are its start and its
  failure, with the error that the join returns, unless another one's failure ended the join first;
  otherwise the join failed, the branch has written its start at most, and the parent reports it as
  aborted, and nothing else is reported so. The join returns the error of the one branch that returned
  one, or none if all have completed.\<close>

theorem parallel_branches_accounted:
  assumes "reaches t polls branches (join_start branches s) j" "join_phase_of (jn_branches j) = Joined err"
    and "polls_extend polls" "reliable (snd s)" "b < length branches"
  shows "(\<exists>new. trace_file (snd (jn_shared j)) = trace_file (snd s) @ new \<and> subseq (map snd (jn_log j)) (map unstamped new)) \<and>
    (case end_of (jn_branches j ! b) of
       BranchCompleted \<Rightarrow> branch_log b j = [branch_started_event b, branch_completed_event b] \<or>
         (err \<noteq> None \<and> jn_branches j ! b = Completing \<and> branch_log b j = [branch_started_event b])
     | BranchFailed \<Rightarrow> (\<exists>i e. (err = Some e \<and> branch_log b j = [branch_started_event b, branch_failed_event b i e]) \<or>
         (err \<noteq> None \<and> jn_branches j ! b = Failing i e \<and> branch_log b j = [branch_started_event b]))
     | BranchDropped i \<Rightarrow> err \<noteq> None \<and> branch_log b j \<in> {[], [branch_started_event b]}) \<and>
    aborted_events 0 (map end_of (jn_branches j)) =
      concat (map (\<lambda>(c, x). abort_line c x) (zip [0..<length branches] (map end_of (jn_branches j)))) \<and>
    (case err of
       None \<Rightarrow> end_of (jn_branches j ! b) = BranchCompleted
     | Some e \<Rightarrow> (\<exists>!c. c < length branches \<and> returned_error (jn_branches j ! c) \<noteq> None) \<and>
         (\<exists>c < length branches. returned_error (jn_branches j ! c) = Some e))"
proof -
  have ok: "branches_ok branches j" using assms(1) branches_ok_start by (rule branches_ok_reaches)
  then have len: "length (jn_branches j) = length branches" and lines: "lines_at b (jn_branches j ! b) (branch_log b j)"
    using assms(5) by (auto simp: branches_ok_def)
  have well: "returned_well b (jn_branches j ! b) (branch_log b j)"
    using assms(1,3,4,5) by (rule returned_well_reaches)
  have one: "one_error j" using assms(1) by (rule one_error_reaches)
  have "Unwinding \<notin> set (jn_branches j)" using assms(2) by (auto simp: join_phase_of_def split: if_splits)
  then have pc: "jn_branches j ! b \<noteq> Unwinding" using assms(5) len by (metis nth_mem)
  have all: "has_returned (jn_branches j ! b) \<and> returned_error (jn_branches j ! b) = None" if "err = None"
    using one assms(2,5) len that nth_mem [of b "jn_branches j"] by (simp add: one_error_def)
  have own: "err = Some e" if "returned_error (jn_branches j ! b) = Some e" for e
    using join_error_is [OF one assms(2)] assms(5) len that by simp
  have branch: "case end_of (jn_branches j ! b) of
       BranchCompleted \<Rightarrow> branch_log b j = [branch_started_event b, branch_completed_event b] \<or>
         (err \<noteq> None \<and> jn_branches j ! b = Completing \<and> branch_log b j = [branch_started_event b])
     | BranchFailed \<Rightarrow> (\<exists>i e. (err = Some e \<and> branch_log b j = [branch_started_event b, branch_failed_event b i e]) \<or>
         (err \<noteq> None \<and> jn_branches j ! b = Failing i e \<and> branch_log b j = [branch_started_event b]))
     | BranchDropped i \<Rightarrow> err \<noteq> None \<and> branch_log b j \<in> {[], [branch_started_event b]}"
    by (rule branch_report [OF lines well pc conjunct1 [OF all] own])
  have errs: "case err of
       None \<Rightarrow> end_of (jn_branches j ! b) = BranchCompleted
     | Some e \<Rightarrow> (\<exists>!c. c < length branches \<and> returned_error (jn_branches j ! c) \<noteq> None) \<and>
         (\<exists>c < length branches. returned_error (jn_branches j ! c) = Some e)"
  proof (cases err)
    case None
    with all well show ?thesis by (cases "jn_branches j ! b") auto
  next
    case (Some e)
    then obtain c where c: "c < length branches" "returned_error (jn_branches j ! c) = Some e"
      "\<And>d. d < length branches \<Longrightarrow> d \<noteq> c \<Longrightarrow> returned_error (jn_branches j ! d) = None"
      using one assms(2) len by (auto simp: one_error_def)
    then have "\<exists>!c. c < length branches \<and> returned_error (jn_branches j ! c) \<noteq> None"
      by (metis option.distinct(1))
    with c(1,2) Some show ?thesis by auto
  qed
  have new: "\<exists>new. trace_file (snd (jn_shared j)) = trace_file (snd s) @ new \<and> subseq (map snd (jn_log j)) (map unstamped new)"
    using join_adds_lines [OF assms(1,3)] by (simp only: adds_lines_def)
  have aborts: "aborted_events 0 (map end_of (jn_branches j)) =
      concat (map (\<lambda>(c, x). abort_line c x) (zip [0..<length branches] (map end_of (jn_branches j))))"
    unfolding aborted_events_lines by (simp only: add_0 length_map len)
  show ?thesis by (intro conjI new branch aborts errs)
qed

theorem parallel_branches_accounted_witness:
  "\<exists>j. reaches tracer_open (whole_polls (\<lambda>_ _. res_run (Err (AnyhowError [''no''] False)))) [[], [plain_step Sleep]]
      (join_start [[], [plain_step Sleep]] (runner_default, fresh_world)) j \<and>
    join_phase_of (jn_branches j) = Joined (Some (AnyhowError [''no''] False)) \<and>
    (\<exists>new. trace_file (snd (jn_shared j)) = trace_file fresh_world @ new \<and> subseq (map snd (jn_log j)) (map unstamped new))"
proof -
  let ?P = "whole_polls (\<lambda>_ _. res_run (Err (AnyhowError [''no''] False)))"
  have P: "polls_extend ?P" by (auto simp: polls_extend_def whole_polls_def res_run_def extends_refl)
  from unreported_run [of fresh_world] obtain j where
    run: "reaches tracer_open ?P [[], [plain_step Sleep]] (join_start [[], [plain_step Sleep]] (runner_default, fresh_world)) j"
      "join_phase_of (jn_branches j) = Joined (Some (AnyhowError [''no''] False))"
    using reliable_fresh_world by blast
  from run parallel_branches_accounted [OF run P, of 0] show ?thesis
    by (intro exI [of _ j]) (simp add: reliable_fresh_world)
qed








end
