(* ===== verification/Harness.thy ===== *)
theory Harness
  imports Execute
begin

text \<open>
  The command (\<open>main.rs\<close>): read and validate a scenario file, and run it. Reading the text of the file
  and parsing JSON text are arguments. A text in which an object has a key twice is outside the model:
  the derived readers refuse it, while a parsed value keeps the last entry.
\<close>

record cli =
  cli_scenario :: string
  cli_capture_fixture :: "string option"
  cli_capture_block_fixture :: "string option"

definition cli_default :: cli where
  "cli_default = \<lparr>cli_scenario = ''scenarios/default.json'', cli_capture_fixture = None, cli_capture_block_fixture = None\<rparr>"

definition load_scenario :: "(string \<Rightarrow> string res) \<Rightarrow> (string \<Rightarrow> json res) \<Rightarrow> string \<Rightarrow> scenario res" where
  "load_scenario read_text parse path =
     try_res (with_context (''reading scenario file '' @ path) (read_text path)) (\<lambda>content.
     try_res (with_context (''parsing scenario file '' @ path) (try_res (parse content) scenario_from_value)) (\<lambda>sc.
     try_res (validate sc) (\<lambda>_. Ok sc)))"

definition harness_main :: "(string \<Rightarrow> string res) \<Rightarrow> env \<Rightarrow> u64 \<Rightarrow> scheduler \<Rightarrow> cli \<Rightarrow> unit run" where
  "harness_main read_text e now_ms sched cli =
     bind_run (res_run (load_scenario read_text (parse_json e) (cli_scenario cli))) (\<lambda>parsed.
     run_scenario e now_ms (execute_step e sched)
       (with_capture_block_fixture (cli_capture_block_fixture cli)
         (with_capture_fixture (cli_capture_fixture cli) (scenario_runner_new parsed))))"

text \<open>A scenario that does not pass validation has no effect at all: no trace file, no connection.\<close>

lemma invalid_scenario_has_no_effect:
  assumes "read_text (cli_scenario cli) = Ok content" "parse_json e content = Ok v"
    "scenario_from_value v = Ok sc" "validate sc = Err err"
  shows "harness_main read_text e now_ms sched cli s = Some (Err err, s)"
  using assms by (simp add: harness_main_def load_scenario_def bind_run_def res_run_def)

lemma loaded_is_valid: "load_scenario read_text parse path = Ok sc \<Longrightarrow> validate sc = Ok ()"
  by (auto simp: load_scenario_def)

lemma harness_runs_valid_scenarios:
  assumes "harness_main read_text e now_ms sched cli s = Some (r, s')"
  shows "(s' = s \<and> r \<noteq> Ok ()) \<or> (\<exists>sc. load_scenario read_text (parse_json e) (cli_scenario cli) = Ok sc \<and> validate sc = Ok ())"
  using assms by (auto simp: harness_main_def bind_run_Some res_run_def intro: loaded_is_valid)

end
