(* ===== verification/BlockFetchClientLaws.thy ===== *)
theory BlockFetchClientLaws
  imports BlockFetchClient BlockFetchLaws
begin

text \<open>
  What the Block-Fetch client asks for and captures; and the client against the harness's own
  Block-Fetch server.
\<close>

section \<open>Chunks\<close>

lemma chunks_Nil [simp]: "chunks n [] = []"
  by (simp add: chunks.simps)

lemma chunks_step: "0 < n \<Longrightarrow> xs \<noteq> [] \<Longrightarrow> chunks n xs = take n xs # chunks n (drop n xs)"
  by (subst chunks.simps) simp

lemma chunks_induct [consumes 1, case_names Nil Step]:
  assumes "0 < n" "P []" "\<And>xs. xs \<noteq> [] \<Longrightarrow> P (drop n xs) \<Longrightarrow> P xs"
  shows "P xs"
proof (induction xs rule: length_induct)
  case (1 xs)
  then show ?case using assms by (cases "xs = []") auto
qed

lemma concat_chunks:
  assumes "0 < n"
  shows "concat (chunks n xs) = xs"
  using assms by (induction xs rule: chunks_induct) (simp_all add: chunks_step assms)

lemma chunks_bounds:
  assumes "0 < n" "c \<in> set (chunks n xs)"
  shows "c \<noteq> [] \<and> length c \<le> n"
  using assms
proof (induction xs rule: chunks_induct)
  case Nil
  then show ?case by simp
next
  case (Step xs)
  from Step(1,3) have "c = take n xs \<or> c \<in> set (chunks n (drop n xs))" by (simp add: chunks_step [OF assms(1)])
  with Step(1,2) assms(1) show ?case by auto
qed

text \<open>Every chunk but the last is full, so there are as few as can be.\<close>

lemma length_chunks:
  assumes "0 < n"
  shows "length (chunks n xs) = (length xs + n - 1) div n"
  using assms
proof (induction xs rule: chunks_induct)
  case Nil
  with assms show ?case by simp
next
  case (Step xs)
  have nz: "n \<noteq> 0" using assms by simp
  have step: "(k + n) div n = Suc (k div n)" for k using div_add_self2 [OF nz, of k] by simp
  have "Suc ((length xs - n + n - 1) div n) = (length xs + n - 1) div n"
  proof (cases "n \<le> length xs")
    case True
    then have "length xs + n - 1 = (length xs - n + n - 1) + n" using nz by simp
    then show ?thesis by (simp only: step)
  next
    case False
    then have "length xs + n - 1 = (length xs - 1) + n" using Step(1) by (cases xs) auto
    moreover have "(length xs - 1) div n = 0" "(length xs - n + n - 1) div n = 0" using False nz by auto
    ultimately show ?thesis by (simp only: step)
  qed
  with Step nz show ?case by (simp add: chunks_step)
qed

section \<open>A peer that keeps to the protocol\<close>

text \<open>The replies to the ranges: no blocks, or a batch of them.\<close>

definition range_answers :: "bytes list option list \<Rightarrow> (string + bool) list" where
  "range_answers replies = map (\<lambda>r. Inr (r \<noteq> None)) replies"

definition block_answers :: "bytes list option list \<Rightarrow> (string + bytes option) list" where
  "block_answers replies = concat (map (\<lambda>r. case r of None \<Rightarrow> [] | Some bs \<Rightarrow> map (Inr \<circ> Some) bs @ [Inr None]) replies)"

lemma answers_simps [simp]:
  "range_answers [] = []" "range_answers (r # rs) = Inr (r \<noteq> None) # range_answers rs"
  "block_answers [] = []" "block_answers (None # rs) = block_answers rs"
  "block_answers (Some bs # rs) = map (Inr \<circ> Some) bs @ Inr None # block_answers rs"
  by (simp_all add: range_answers_def block_answers_def)

definition take_reply :: "bfc_session \<Rightarrow> point list \<times> bytes list option \<Rightarrow> bfc_session" where
  "take_reply s br = (case br of
     (batch, None) \<Rightarrow> s\<lparr>bfc_ranges := bfc_ranges s + 1, bfc_no_blocks := bfc_no_blocks s + 1\<rparr>
   | (batch, Some bs) \<Rightarrow> foldl (\<lambda>s b. receive_block (capture_point batch) b s) (s\<lparr>bfc_ranges := bfc_ranges s + 1\<rparr>) bs)"

lemma bfc_stream_run:
  assumes "reliable w"
  shows "\<exists>w'. bfc_stream t cp (map (Inr \<circ> Some) bs @ Inr None # rest) n s w =
      Some (Ok (foldl (\<lambda>s b. receive_block cp b s) s bs, rest), w') \<and> reliable w' \<and> wire_out w' = wire_out w"
  using assms
proof (induction bs arbitrary: n s w)
  case Nil
  then show ?case by (simp add: run_simps)
next
  case (Cons b bs)
  then show ?case
    using Cons.IH [of "logged t (bfc_block_event b) w" "n + 1" "receive_block cp b s"] by (simp add: run_simps)
qed

lemma bfc_batch_run:
  assumes "reliable w"
  shows "\<exists>w'. bfc_batch t batch (Some (Inr (r \<noteq> None))) (block_answers (r # rs)) s w =
      Some (Ok (take_reply s (batch, r), block_answers rs), w') \<and> reliable w' \<and> wire_out w' = wire_out w @ [range_wire batch]"
proof (cases r)
  case None
  then show ?thesis using assms by (simp add: bfc_batch_def run_simps take_reply_def Let_def)
next
  case (Some bs)
  let ?w = "logged t bfc_start_batch_event (requested (range_wire batch) (logged t (bfc_request_event batch) w))"
  have "reliable ?w" using assms by simp
  from bfc_stream_run [OF this, of t "capture_point batch" bs "block_answers rs" 0 "s\<lparr>bfc_ranges := bfc_ranges s + 1\<rparr>"]
  show ?thesis using assms Some by (auto simp: bfc_batch_def run_simps take_reply_def Let_def)
qed

lemma bfc_loop_run:
  assumes "reliable w" "length batches = length replies"
  shows "\<exists>w'. bfc_loop t batches (range_answers replies) (block_answers replies) s w =
      Some (Ok (foldl take_reply s (zip batches replies)), w') \<and> reliable w' \<and>
      wire_out w' = wire_out w @ map range_wire batches"
  using assms
proof (induction batches arbitrary: replies s w)
  case Nil
  then show ?case by (simp add: run_simps)
next
  case (Cons batch batches)
  then obtain r rs where replies: "replies = r # rs" "length batches = length rs" by (cases replies) auto
  from bfc_batch_run [OF Cons.prems(1), of t batch r rs s] obtain w1 where w1:
    "bfc_batch t batch (Some (Inr (r \<noteq> None))) (block_answers (r # rs)) s w =
      Some (Ok (take_reply s (batch, r), block_answers rs), w1)" "reliable w1" "wire_out w1 = wire_out w @ [range_wire batch]"
    by blast
  from Cons.IH [OF w1(2) replies(2), of "take_reply s (batch, r)"] w1 replies(1) show ?case
    by (auto simp: run_simps)
qed

text \<open>What a session has collected after some replies.\<close>

definition reply_blocks :: "bytes list option list \<Rightarrow> bytes list" where
  "reply_blocks replies = concat (map (\<lambda>r. case r of None \<Rightarrow> [] | Some bs \<Rightarrow> bs) replies)"

definition reply_captures :: "point list \<times> bytes list option \<Rightarrow> captured_block list" where
  "reply_captures br = (case br of
     ([Specific slot hash], Some bs) \<Rightarrow> map (\<lambda>b. \<lparr>cb_slot = slot, cb_block_hash = hash, cb_cbor = b\<rparr>) bs
   | _ \<Rightarrow> [])"

lemma receive_blocks_fields:
  "bfc_blocks (foldl (\<lambda>s b. receive_block cp b s) s bs) = bfc_blocks s + of_nat (length bs)"
  "bfc_ranges (foldl (\<lambda>s b. receive_block cp b s) s bs) = bfc_ranges s"
  "bfc_no_blocks (foldl (\<lambda>s b. receive_block cp b s) s bs) = bfc_no_blocks s"
  "bfc_bytes (foldl (\<lambda>s b. receive_block cp b s) s bs) = bfc_bytes s + of_nat (length (concat bs))"
  "bfc_captured (foldl (\<lambda>s b. receive_block cp b s) s bs) = bfc_captured s @
     (case cp of None \<Rightarrow> [] | Some (slot, hash) \<Rightarrow> map (\<lambda>b. \<lparr>cb_slot = slot, cb_block_hash = hash, cb_cbor = b\<rparr>) bs)"
  by (induction bs arbitrary: s) (simp_all add: receive_block_def ac_simps split: option.split prod.split)

lemma take_reply_fields:
  "bfc_ranges (take_reply s br) = bfc_ranges s + 1"
  "bfc_no_blocks (take_reply s br) = bfc_no_blocks s + (if snd br = None then 1 else 0)"
  "bfc_blocks (take_reply s br) = bfc_blocks s + of_nat (length (reply_blocks [snd br]))"
  "bfc_bytes (take_reply s br) = bfc_bytes s + of_nat (length (concat (reply_blocks [snd br])))"
  "bfc_captured (take_reply s br) = bfc_captured s @ reply_captures br"
  by (cases br; simp add: take_reply_def receive_blocks_fields reply_blocks_def reply_captures_def
      capture_point_def split: option.split list.split point.split)+

lemma take_replies_fields:
  assumes "length batches = length replies"
  shows "bfc_ranges (foldl take_reply s (zip batches replies)) = bfc_ranges s + of_nat (length batches)"
    and "bfc_no_blocks (foldl take_reply s (zip batches replies)) =
      bfc_no_blocks s + of_nat (length (filter (\<lambda>r. r = None) replies))"
    and "bfc_blocks (foldl take_reply s (zip batches replies)) = bfc_blocks s + of_nat (length (reply_blocks replies))"
    and "bfc_bytes (foldl take_reply s (zip batches replies)) =
      bfc_bytes s + of_nat (length (concat (reply_blocks replies)))"
    and "bfc_captured (foldl take_reply s (zip batches replies)) =
      bfc_captured s @ concat (map reply_captures (zip batches replies))"
  using assms by (induction batches replies arbitrary: s rule: list_induct2)
    (simp_all add: take_reply_fields reply_blocks_def ac_simps)

lemma bfc_summarise_run:
  "\<exists>d w'. bfc_summarise t s reason w = Some (Ok \<lparr>bcs_range_requests = bfc_ranges s, bcs_blocks_received = bfc_blocks s,
      bcs_no_blocks_responses = bfc_no_blocks s, bcs_total_bytes = bfc_bytes s, bcs_exit_reason = reason,
      bcs_duration_ms = d, bcs_captured_blocks = bfc_captured s\<rparr>, w') \<and> wire_out w' = wire_out w \<and> reliable w' = reliable w"
proof -
  let ?sm = "\<lparr>bcs_range_requests = bfc_ranges s, bcs_blocks_received = bfc_blocks s,
      bcs_no_blocks_responses = bfc_no_blocks s, bcs_total_bytes = bfc_bytes s, bcs_exit_reason = reason,
      bcs_duration_ms = env_clock w (clock_reads w), bcs_captured_blocks = bfc_captured s\<rparr>"
  obtain w' where w': "quietly (emit t (bfc_summary_event ?sm)) (ticked w) = Some (Ok (), w')"
    "wire_out w' = wire_out w" "reliable w' = reliable w"
    using quietly_emit [of t "bfc_summary_event ?sm" "ticked w"] by auto
  have "bfc_build_summary s reason w = (Ok ?sm, ticked w)" by (simp add: bfc_build_summary_def run_simps)
  with w' show ?thesis by (auto simp: bfc_summarise_def run_simps)
qed

lemma run_block_fetch_run:
  fixes batch_size points
  defines "batches \<equiv> chunks (effective_batch batch_size) points"
  assumes "reliable w" "length replies = length batches"
    and "bch_range ch = range_answers replies" "bch_block ch = block_answers replies" "bch_done ch = None"
  shows "\<exists>sm w'. run_block_fetch t ch points batch_size w = Some (Ok sm, w') \<and>
    wire_out w' = wire_out w @ map range_wire batches @ [BfWire ClientDone] \<and>
    bcs_range_requests sm = of_nat (length batches) \<and>
    bcs_no_blocks_responses sm = of_nat (length (filter (\<lambda>r. r = None) replies)) \<and>
    bcs_blocks_received sm = of_nat (length (reply_blocks replies)) \<and>
    bcs_total_bytes sm = of_nat (length (concat (reply_blocks replies))) \<and>
    bcs_exit_reason sm = ''completed'' \<and>
    bcs_captured_blocks sm = concat (map reply_captures (zip batches replies))"
proof -
  let ?w0 = "logged t (bfc_started_event (length points) (effective_batch batch_size)) w"
  have len: "length batches = length replies" using assms(3) by simp
  have "reliable ?w0" using assms(2) by simp
  from bfc_loop_run [OF this len, of t bfc_start] obtain w1 where w1:
    "bfc_loop t batches (bch_range ch) (bch_block ch) bfc_start ?w0 = Some (Ok (foldl take_reply bfc_start (zip batches replies)), w1)"
    "reliable w1" "wire_out w1 = wire_out w @ map range_wire batches" using assms(4,5) by auto
  let ?s = "foldl take_reply bfc_start (zip batches replies)"
  obtain w2 where w2: "bfc_goodbye t ch w1 = Some (Ok (), w2)" "wire_out w2 = wire_out w1 @ [BfWire ClientDone]"
    using w1(2) assms(6) by (simp add: bfc_goodbye_def run_simps)
  from bfc_summarise_run [of t ?s "''completed''" w2] w1 w2 assms(2) show ?thesis
    by (auto simp: run_block_fetch_def run_simps batches_def [symmetric] take_replies_fields [OF len] bfc_start_def)
qed

section \<open>The ranges of a list of points\<close>

text \<open>A point as the package sends it: a hash is cut or filled up to 32 bytes.\<close>

definition as_sent :: "point \<Rightarrow> point" where
  "as_sent p = from_nc_point (to_nc_point p)"

lemma as_sent_32: "length hash = 32 \<Longrightarrow> as_sent (Specific slot hash) = Specific slot hash"
  by (simp add: as_sent_def)

text \<open>C23: The Block-Fetch client asks for its points in as few ranges as the batch size allows, each
  exactly the next points in order, and then says goodbye: against any peer that answers every
  range in full it writes one request per range, counts all the ranges, refusals, blocks and
  bytes, ends with \<open>completed\<close>, and captures exactly the blocks of the ranges of a single point.\<close>

theorem block_fetch_client_session:
  assumes "reliable w" "length replies = length (chunks (effective_batch batch_size) points)"
    and "bch_range ch = range_answers replies" "bch_block ch = block_answers replies" "bch_done ch = None"
  shows "\<exists>ranges sm w'. run_block_fetch t ch points batch_size w = Some (Ok sm, w') \<and>
    concat ranges = points \<and> (\<forall>r. r \<in> set ranges \<longrightarrow> r \<noteq> [] \<and> length r \<le> effective_batch batch_size) \<and>
    length ranges = (length points + effective_batch batch_size - 1) div effective_batch batch_size \<and>
    wire_out w' = wire_out w @ map (\<lambda>r. BfWire (RequestRange (as_sent (hd r)) (as_sent (last r)))) ranges @ [BfWire ClientDone] \<and>
    bcs_range_requests sm = of_nat (length ranges) \<and>
    bcs_no_blocks_responses sm = of_nat (length (filter (\<lambda>r. r = None) replies)) \<and>
    bcs_blocks_received sm = of_nat (length (reply_blocks replies)) \<and>
    bcs_total_bytes sm = of_nat (length (concat (reply_blocks replies))) \<and>
    bcs_exit_reason sm = ''completed'' \<and>
    bcs_captured_blocks sm = concat (map reply_captures (zip ranges replies))"
proof -
  have n: "0 < effective_batch batch_size" by (simp add: effective_batch_def)
  let ?ranges = "chunks (effective_batch batch_size) points"
  have "map range_wire ?ranges = map (\<lambda>r. BfWire (RequestRange (as_sent (hd r)) (as_sent (last r)))) ?ranges"
    by (simp add: range_wire_def as_sent_def)
  moreover have "\<forall>r. r \<in> set ?ranges \<longrightarrow> r \<noteq> [] \<and> length r \<le> effective_batch batch_size"
    using chunks_bounds [OF n] by blast
  moreover note concat_chunks [OF n, of points] length_chunks [OF n, of points]
  ultimately show ?thesis
    using run_block_fetch_run [OF assms, of t] by (intro exI [of _ ?ranges]) (auto simp only:)
qed

theorem block_fetch_client_session_witness:
  "\<exists>sm w'. run_block_fetch tracer_open \<lparr>bch_range = range_answers [Some [[10]], None], bch_block = block_answers [Some [[10]], None],
      bch_done = None\<rparr> [Specific 1 [1], Specific 2 [2]] 0 fresh_world = Some (Ok sm, w') \<and>
    bcs_range_requests sm = 2 \<and> bcs_blocks_received sm = 1"
proof -
  let ?ch = "\<lparr>bch_range = range_answers [Some [[10]], None], bch_block = block_answers [Some [[10]], None], bch_done = None\<rparr>"
  have l: "length [Some [[10 :: u8]], None] = length (chunks (effective_batch 0) [Specific 1 [1], Specific 2 [2]])"
    by (simp add: effective_batch_def chunks_step)
  show ?thesis
    using block_fetch_client_session [OF reliable_fresh_world(1) l, of ?ch tracer_open]
    by (fastforce simp: effective_batch_def reply_blocks_def)
qed

section \<open>The client against the harness's server\<close>

text \<open>What the package makes of the messages of a Block-Fetch server.\<close>

fun range_of_wire :: "wire \<Rightarrow> (string + bool) list" where
  "range_of_wire (BfWire NoBlocks) = [Inr False]"
| "range_of_wire (BfWire StartBatch) = [Inr True]"
| "range_of_wire m = []"

fun block_of_wire :: "wire \<Rightarrow> (string + bytes option) list" where
  "block_of_wire (BfWire (Block body)) = [Inr (Some body)]"
| "block_of_wire (BfWire BatchDone) = [Inr None]"
| "block_of_wire m = []"

definition bf_answers_of :: "wire list \<Rightarrow> bf_channel" where
  "bf_answers_of ms = \<lparr>bch_range = concat (map range_of_wire ms), bch_block = concat (map block_of_wire ms), bch_done = None\<rparr>"

definition range_reply :: "bytes list option \<Rightarrow> bf_message list" where
  "range_reply r = (case r of None \<Rightarrow> [NoBlocks] | Some bs \<Rightarrow> StartBatch # map Block bs @ [BatchDone])"

lemma answers_of_replies:
  "bf_answers_of (map BfWire (concat (map range_reply replies))) =
     \<lparr>bch_range = range_answers replies, bch_block = block_answers replies, bch_done = None\<rparr>"
proof -
  have blocks: "concat (map ((\<lambda>m. range_of_wire (BfWire m)) \<circ> Block) bs) = []"
    "concat (map ((\<lambda>m. block_of_wire (BfWire m)) \<circ> Block) bs) = map (Inr \<circ> Some) bs" for bs
    by (induction bs) auto
  have "concat (map (\<lambda>m. range_of_wire (BfWire m)) (concat (map range_reply replies))) = range_answers replies"
    by (induction replies) (simp_all add: range_reply_def blocks split: option.split)
  moreover have "concat (map (\<lambda>m. block_of_wire (BfWire m)) (concat (map range_reply replies))) = block_answers replies"
    by (induction replies) (simp_all add: range_reply_def blocks split: option.split)
  ultimately show ?thesis by (simp add: bf_answers_of_def comp_def)
qed

definition serve_range :: script_rule where
  "serve_range = \<lparr>sr_on = OnRequestRange, sr_send = StreamBatchSend FromRequest, sr_repeatable = True\<rparr>"

text \<open>The part of a store between two of its records is the part.\<close>

lemma stored_between_part:
  assumes "bt_ok (pre @ part @ post)" "part \<noteq> []"
  shows "stored_between (fst (hd part)) (fst (last part)) (pre @ part @ post) = part"
proof -
  let ?lo = "fst (hd part)" and ?hi = "fst (last part)"
  have sorted: "sorted_wrt (<) (map fst part)"
    and pre: "\<And>a b. a \<in> set pre \<Longrightarrow> b \<in> set part \<Longrightarrow> fst a < fst b"
    and post: "\<And>a b. a \<in> set part \<Longrightarrow> b \<in> set post \<Longrightarrow> fst a < fst b"
    using assms(1) unfolding bt_ok_def map_append sorted_wrt_append set_append set_map by blast+
  have ends: "?lo \<le> fst kv" "fst kv \<le> ?hi" if "kv \<in> set part" for kv
  proof -
    obtain x xs where "part = x # xs" using assms(2) by (cases part) auto
    with that sorted show "?lo \<le> fst kv" by (auto intro: less_imp_le)
    obtain y ys where "part = ys @ [y]" using assms(2) by (cases part rule: rev_cases) auto
    with that sorted show "fst kv \<le> ?hi" by (auto simp: sorted_wrt_append intro: less_imp_le)
  qed
  have hd: "hd part \<in> set part" "last part \<in> set part" using assms(2) by simp_all
  have "filter (\<lambda>kv. ?lo \<le> fst kv \<and> fst kv \<le> ?hi) part = part"
    using ends by (auto intro: filter_True)
  moreover have "filter (\<lambda>kv. ?lo \<le> fst kv \<and> fst kv \<le> ?hi) pre = []"
    using pre [OF _ hd(1)] unfolding filter_empty_conv not_le by (meson leD)
  moreover have "filter (\<lambda>kv. ?lo \<le> fst kv \<and> fst kv \<le> ?hi) post = []"
    using post [OF hd(2)] unfolding filter_empty_conv not_le by (meson leD)
  ultimately show ?thesis using ends hd by (auto simp: stored_between_def)
qed

fun key_point :: "(u64 \<times> bytes) \<times> bytes \<Rightarrow> point" where
  "key_point ((slot, hash), body) = Specific slot hash"

lemma range_step:
  assumes "reliable w" "bt_ok store" "bf_rule_idx s = 0"
    and "stored_between (fst (hd part)) (fst (last part)) store = part" "part \<noteq> []"
  shows "\<exists>s' w'. bf_body t (Some (from_block_store store)) [serve_range]
      (BfRequestRange (key_point (hd part)) (key_point (last part))) s w = (Ok (s', False), w') \<and>
    reliable w' \<and> bf_rule_idx s' = 0 \<and> wire_out w' = wire_out w @ map BfWire (range_reply (Some (map snd part))) \<and>
    blocks_served s' = blocks_served s + of_nat (length part)"
proof -
  obtain s1 h1 b1 s2 h2 b2 where ends: "hd part = ((s1, h1), b1)" "last part = ((s2, h2), b2)"
    by (metis prod.exhaust)
  let ?req = "BfRequestRange (Specific s1 h1) (Specific s2 h2)" and ?f = "Some (from_block_store store)"
  let ?s1 = "(bf_requested ?req s)\<lparr>bf_rule_idx := 0, bf_rules_applied := bf_rules_applied (bf_requested ?req s) + 1\<rparr>"
  let ?es = "map (\<lambda>((s, h), b). (b, s, encode_hex h)) part"
  have n: "next_rule (bf_matches_on ?req) [serve_range] (bf_rule_idx s) = Some (0, serve_range, 0)"
    by (simp add: next_rule_def serve_range_def assms(3) bf_matches_on_def)
  from bf_body_run [OF assms(1) _ n, of t ?f] obtain w1 where w1: "reliable w1" "wire_out w1 = wire_out w"
    and body: "bf_body t ?f [serve_range] ?req s w = bf_apply t ?f ?req (bf_requested ?req s) serve_range 0 w1" by auto
  have "stream_entries ?f ?req FromRequest = Ok (Some ?es)"
    using find_range_of_store_eq [OF assms(2), of s1 h1 s2 h2] assms(4,5) ends
    by (auto simp: stream_entries_def stored_between_def entries_of_store split: if_splits)
  from bf_stream_batch_run [OF w1(1) this, of t ?s1] assms(5) obtain w2 where
    w2: "bf_stream_batch t ?f ?req FromRequest ?s1 w1 =
       (Ok (False, ?s1\<lparr>bf_st := BfIdle, blocks_served := blocks_served ?s1 + of_nat (length ?es)\<rparr>), w2)" "reliable w2"
    "wire_out w2 = wire_out w1 @ [BfWire StartBatch] @ map (\<lambda>(body, _). BfWire (Block body)) ?es @ [BfWire BatchDone]"
    by auto
  have "map (\<lambda>(body, _). BfWire (Block body)) ?es = map BfWire (map Block (map snd part))"
    by (auto simp: split_beta)
  moreover have "bf_apply t ?f ?req (bf_requested ?req s) serve_range 0 w1 =
      (Ok (?s1\<lparr>bf_st := BfIdle, blocks_served := blocks_served ?s1 + of_nat (length ?es)\<rparr>, False), w2)"
    using w2(1) by (simp add: bf_apply_def bf_execute_send_def serve_range_def try_io_def ret_def)
  ultimately show ?thesis using w1 w2 body ends
    by (simp add: bf_requested_def range_reply_def)
qed

lemma ranges_loop:
  assumes "reliable w" "bt_ok store" "bf_rule_idx s = 0"
    and "\<forall>part \<in> set parts. part \<noteq> [] \<and> stored_between (fst (hd part)) (fst (last part)) store = part"
  shows "\<exists>s' w'. serve_loop (bf_body t (Some (from_block_store store)) [serve_range])
      (map (\<lambda>part. Ok (BfRequestRange (key_point (hd part)) (key_point (last part)))) parts @ rest) s w =
      serve_loop (bf_body t (Some (from_block_store store)) [serve_range]) rest s' w' \<and>
    reliable w' \<and> wire_out w' = wire_out w @ map BfWire (concat (map (\<lambda>part. range_reply (Some (map snd part))) parts)) \<and>
    blocks_served s' = blocks_served s + of_nat (length (concat parts))"
  using assms
proof (induction parts arbitrary: s w)
  case Nil
  then show ?case by auto
next
  case (Cons part parts)
  from range_step [OF Cons.prems(1-3), of part t] Cons.prems(4) obtain s1 w1 where one:
    "bf_body t (Some (from_block_store store)) [serve_range]
      (BfRequestRange (key_point (hd part)) (key_point (last part))) s w = (Ok (s1, False), w1)"
    "reliable w1" "bf_rule_idx s1 = 0" "wire_out w1 = wire_out w @ map BfWire (range_reply (Some (map snd part)))"
    "blocks_served s1 = blocks_served s + of_nat (length part)" by auto
  from Cons.IH [OF one(2) Cons.prems(2) one(3)] Cons.prems(4) one show ?case
    by (auto simp: try_io_def ac_simps)
qed

lemma chunks_map:
  assumes "0 < n"
  shows "chunks n (map f xs) = map (map f) (chunks n xs)"
  using assms
proof (induction xs rule: chunks_induct)
  case (Step xs)
  then show ?case using chunks_step [OF assms, of xs] chunks_step [OF assms, of "map f xs"] by (simp add: take_map drop_map)
qed simp

lemma chunks_split:
  assumes "0 < n" "part \<in> set (chunks n xs)"
  shows "\<exists>pre post. xs = pre @ part @ post"
  by (metis assms concat_chunks concat.simps(2) concat_append split_list)

lemma session_for_store:
  assumes "reliable w" "bt_ok store"
    and "\<forall>part \<in> set parts. part \<noteq> [] \<and> stored_between (fst (hd part)) (fst (last part)) store = part"
  shows "\<exists>served w'. execute_block_fetch_script t (Some (from_block_store store)) [serve_range]
      (map Inr (map (\<lambda>part. RequestRange (key_point (hd part)) (key_point (last part))) parts @ [ClientDone])) w = (Ok served, w') \<and>
    wire_out w' = wire_out w @ map BfWire (concat (map (\<lambda>part. range_reply (Some (map snd part))) parts)) \<and>
    bfs_blocks_served served = of_nat (length (concat parts))"
proof -
  let ?f = "Some (from_block_store store)"
  let ?w0 = "logged t (bf_started_event ?f [serve_range]) w"
  have w0: "reliable ?w0" "wire_out ?w0 = wire_out w" using assms(1) by simp_all
  have "bf_rule_idx bf_session_start = 0" "blocks_served bf_session_start = 0" by (simp_all add: bf_session_start_def)
  with ranges_loop [OF w0(1) assms(2) _ assms(3), of bf_session_start t "[Ok BfClientDone]"] obtain s1 w1 where s1:
    "serve_loop (bf_body t ?f [serve_range]) (map (\<lambda>part. Ok (BfRequestRange (key_point (hd part)) (key_point (last part)))) parts
        @ [Ok BfClientDone]) bf_session_start ?w0 = serve_loop (bf_body t ?f [serve_range]) [Ok BfClientDone] s1 w1"
    "reliable w1" "wire_out w1 = wire_out ?w0 @ map BfWire (concat (map (\<lambda>part. range_reply (Some (map snd part))) parts))"
    "blocks_served s1 = of_nat (length (concat parts))" by auto
  from bf_done_run [OF s1(2), of t ?f "[serve_range]" s1] obtain w2 where w2: "reliable w2" "wire_out w2 = wire_out w1"
    "serve_loop (bf_body t ?f [serve_range]) [Ok BfClientDone] s1 w1 = (Ok (s1\<lparr>bf_st := BfDone\<rparr>), w2)" by blast
  from bf_finish_run [OF w2(1), of t "s1\<lparr>bf_st := BfDone\<rparr>"] obtain served w3 where
    "bf_finish t (s1\<lparr>bf_st := BfDone\<rparr>) w2 = (Ok served, w3)" "wire_out w3 = wire_out w2"
    "bfs_blocks_served served = blocks_served s1" by auto
  with assms(1) s1 w2 w0 show ?thesis
    by (simp add: execute_block_fetch_script_def try_io_def emit_reliable comp_def)
qed

lemma single_captures:
  assumes "\<forall>part \<in> set parts. length part = 1"
  shows "map entry_of_captured_block (concat (map reply_captures
    (zip (map (map key_point) parts) (map (\<lambda>part. Some (map snd part)) parts)))) = map entry_of_store (concat parts)"
  using assms
proof (induction parts)
  case (Cons part parts)
  then obtain kv where part: "part = [kv]" by (auto simp: length_Suc_conv)
  obtain slot hash body where kv: "kv = ((slot, hash), body)" by (metis prod.exhaust)
  from Cons part kv show ?case by (simp add: reply_captures_def entry_of_captured_block_def entry_of_store_def)
qed simp



end
