(* ===== verification/LeiosClientLaws.thy ===== *)
theory LeiosClientLaws
  imports LeiosClients LeiosFetchServer Production "HOL-Library.Sublist"
begin

text \<open>
  What the Leios clients ask and report for any answers of the peer, and the fetching client
  against the harness's own server.
\<close>

section \<open>Notifications: any peer\<close>

definition lnc_report :: "lnc_session \<Rightarrow> string \<Rightarrow> u64 \<Rightarrow> lnc_summary" where
  "lnc_report s reason d = \<lparr>lncs_events_received = lnc_events s, lncs_block_announcements = lnc_announcements s,
     lncs_block_offers = lnc_offers s, lncs_block_txs_offers = lnc_txs_offers s, lncs_vote_messages = lnc_votes s,
     lncs_exit_reason = reason, lncs_duration_ms = d\<rparr>"

lemma lnc_summarise_run:
  "\<exists>d w'. lnc_summarise t s reason w = Some (Ok (lnc_report s reason d), w') \<and> wire_out w' = wire_out w"
proof -
  let ?d = "env_clock w (clock_reads w)"
  obtain w' where w': "quietly (emit t (lnc_summary_event (lnc_report s reason ?d))) (ticked w) = Some (Ok (), w')"
    "wire_out w' = wire_out w" using quietly_emit [of t "lnc_summary_event (lnc_report s reason ?d)" "ticked w"] by auto
  have "lnc_build_summary s reason w = (Ok (lnc_report s reason ?d), ticked w)"
    by (simp add: lnc_build_summary_def lnc_report_def run_simps)
  with w' show ?thesis by (auto simp: lnc_summarise_def run_simps)
qed

lemma writes_lnc_summarise:
  assumes "\<And>d. P (Ok (lnc_report s reason d)) []"
  shows "writes P (lnc_summarise t s reason)"
  unfolding writes_def
proof (intro allI impI)
  fix w r w'
  assume "lnc_summarise t s reason w = Some (r, w')"
  with lnc_summarise_run [of t s reason w] assms show "\<exists>ms. wire_out w' = wire_out w @ ms \<and> P r ms" by auto
qed

abbreviation notify_wire :: wire where
  "notify_wire \<equiv> LnWire MsgLeiosNotificationRequestNext"

lemma writes_lnc_ask:
  assumes "\<And>e. P (Err e) [notify_wire]"
    and "\<And>ev. answer = Some (Inr ev) \<Longrightarrow> P (Ok (Inl (lnc_count ev (s\<lparr>lnc_events := lnc_events s + 1\<rparr>)))) [notify_wire]"
    and "\<And>d. P (Ok (Inr (lnc_report s ''await_timeout'' d))) [notify_wire]"
  shows "writes P (lnc_ask t secs answer s)"
  unfolding lnc_ask_def
  by (intro writes_rules) (auto simp: assms intro!: writes_rules writes_lnc_summarise split: sum.split)

definition lnc_agrees :: "u64 \<Rightarrow> lnc_session \<Rightarrow> bool" where
  "lnc_agrees count s \<longleftrightarrow> lnc_events s \<le> count \<and>
     lnc_events s = lnc_announcements s + lnc_offers s + lnc_txs_offers s + lnc_votes s"

lemma lnc_agrees_count:
  assumes "lnc_agrees count s" "lnc_events s < count"
  shows "lnc_agrees count (lnc_count ev (s\<lparr>lnc_events := lnc_events s + 1\<rparr>))"
proof -
  have "lnc_events s + 1 \<le> count" using assms(2) unat_lt64 [of count]
    by (simp add: word_less_nat_alt word_le_nat_alt unat_word_ariths)
  with assms(1) show ?thesis by (cases ev) (simp_all add: lnc_agrees_def)
qed

lemma writes_lnc_loop:
  assumes "lnc_agrees count s"
  shows "writes (\<lambda>r ms. (\<exists>k \<le> Suc (length rs). ms = replicate k notify_wire) \<and>
    (\<forall>s'. r = Ok (Inl s') \<longrightarrow> lnc_agrees count s' \<and> lnc_events s' = count) \<and>
    (\<forall>sm. r = Ok (Inr sm) \<longrightarrow> (\<exists>s' d. sm = lnc_report s' ''await_timeout'' d \<and> lnc_agrees count s')))
    (lnc_loop t count secs rs s)"
  using assms
proof (induction rs arbitrary: s)
  case Nil
  have k: "\<exists>k \<le> Suc 0. [notify_wire] = replicate k notify_wire" by (intro exI [of _ 1]) simp
  show ?case using Nil k by (auto intro!: writes_lnc_ask writes_res simp: lnc_agrees_def)
next
  case (Cons r rs)
  have one: "\<exists>k \<le> Suc (Suc n). [notify_wire] = replicate k notify_wire" for n by (intro exI [of _ 1]) simp
  have more: "\<exists>k \<le> Suc (Suc n). notify_wire # ms = replicate k notify_wire"
    if "\<exists>k \<le> Suc n. ms = replicate k notify_wire" for n ms
  proof -
    from that obtain k where "k \<le> Suc n" "ms = replicate k notify_wire" by blast
    then show ?thesis by (intro exI [of _ "Suc k"]) simp
  qed
  have "writes (\<lambda>r' ms'. (\<exists>k \<le> Suc (Suc (length rs)). notify_wire # ms' = replicate k notify_wire) \<and>
      (\<forall>s'. r' = Ok (Inl s') \<longrightarrow> lnc_agrees count s' \<and> lnc_events s' = count) \<and>
      (\<forall>sm. r' = Ok (Inr sm) \<longrightarrow> (\<exists>s' d. sm = lnc_report s' ''await_timeout'' d \<and> lnc_agrees count s')))
      (lnc_loop t count secs rs (lnc_count ev (s\<lparr>lnc_events := lnc_events s + 1\<rparr>)))" if "lnc_events s < count" for ev
    by (rule writes_mono [OF Cons.IH [OF lnc_agrees_count [OF Cons.prems that]]]) (use more in blast)
  moreover have "\<exists>s' d'. lnc_report s reason d = lnc_report s' reason d' \<and> lnc_agrees count s'" for d reason
    using Cons.prems by blast
  moreover have "lnc_events s = count" if "\<not> lnc_events s < count" using that Cons.prems by (simp add: lnc_agrees_def)
  ultimately show ?case
    using Cons.prems one by (auto intro!: writes_bind writes_lnc_ask writes_res)
qed

definition notify_report_agrees :: "u64 \<Rightarrow> lnc_summary \<Rightarrow> bool" where
  "notify_report_agrees count sm \<longleftrightarrow> lncs_events_received sm \<le> count \<and>
     lncs_events_received sm = lncs_block_announcements sm + lncs_block_offers sm + lncs_block_txs_offers sm + lncs_vote_messages sm \<and>
     (if lncs_exit_reason sm = ''completed'' then lncs_events_received sm = count
      else lncs_exit_reason sm = ''await_timeout'')"

lemma notify_report_agrees:
  "lnc_agrees count s \<Longrightarrow> notify_report_agrees count (lnc_report s ''await_timeout'' d)"
  "lnc_agrees count s \<Longrightarrow> lnc_events s = count \<Longrightarrow> notify_report_agrees count (lnc_report s ''completed'' d)"
  unfolding lnc_agrees_def notify_report_agrees_def lnc_report_def by auto

definition notify_talk :: "nat \<Rightarrow> wire list \<Rightarrow> bool" where
  "notify_talk n ms \<longleftrightarrow> (\<exists>k \<le> n. prefix ms (replicate k notify_wire @ [LnWire LnMsgDone]))"

lemma notify_talk_simps [simp]:
  "notify_talk n []" "k \<le> n \<Longrightarrow> notify_talk n (replicate k notify_wire)"
  "k \<le> n \<Longrightarrow> notify_talk n (replicate k notify_wire @ [LnWire LnMsgDone])"
  by (auto simp: notify_talk_def)

lemma writes_leios_notify:
  "writes (\<lambda>r ms. notify_talk (Suc (length (nch_next ch))) ms \<and> (\<forall>sm. r = Ok sm \<longrightarrow> notify_report_agrees count sm))
     (run_leios_notify t ch count secs)"
proof -
  have start: "lnc_agrees count lnc_start" by (simp add: lnc_agrees_def lnc_start_def)
  show ?thesis
    unfolding run_leios_notify_def lnc_goodbye_def
    by (rule writes_bind, rule writes_emit)
      (auto split: res.split sum.split option.split simp: notify_report_agrees
        intro!: writes_rules writes_mono [OF writes_lnc_loop [OF start]] writes_lnc_summarise)
qed

text \<open>Whatever the peer answers and whatever fails, the Leios-Notify client only ever asks for the
  next notification and says goodbye, with at most one request more than it gets answers; a summary
  it returns counts every event under exactly one of the four kinds and no more events than were
  asked for, exactly as many if it says \<open>completed\<close>.\<close>

theorem leios_notify_client_accounts:
  assumes "run_leios_notify t ch count secs w = Some (r, w')"
  shows "\<exists>ms k. wire_out w' = wire_out w @ ms \<and> k \<le> Suc (length (nch_next ch)) \<and>
    prefix ms (replicate k (LnWire MsgLeiosNotificationRequestNext) @ [LnWire LnMsgDone]) \<and>
    (\<forall>sm. r = Ok sm \<longrightarrow> notify_report_agrees count sm)"
  using writesD [OF writes_leios_notify assms] unfolding notify_talk_def by blast

theorem leios_notify_client_accounts_witness:
  "\<exists>sm w'. run_leios_notify tracer_open \<lparr>nch_next = [Inr (LnVotes [])], nch_done = None\<rparr> 2 30 fresh_world
     = Some (Ok sm, w') \<and> notify_report_agrees 2 sm"
proof -
  let ?ch = "\<lparr>nch_next = [Inr (LnVotes [])], nch_done = None\<rparr> :: ln_channel"
  obtain sm w' where run: "run_leios_notify tracer_open ?ch 2 30 fresh_world = Some (Ok sm, w')"
    by (simp add: run_leios_notify_def lnc_ask_def run_simps lnc_start_def Let_def lnc_summarise_def
        lnc_build_summary_def)
  from leios_notify_client_accounts [OF run] run show ?thesis by blast
qed

section \<open>Blocks: the client against the harness's server\<close>

text \<open>What the package makes of the messages of a Leios-Fetch server.\<close>

fun fetched_of :: "wire \<Rightarrow> (string + bytes) list" where
  "fetched_of (LfWire (MsgLeiosBlock block)) = [Inr block]"
| "fetched_of m = []"

definition lf_answers_of :: "wire list \<Rightarrow> lf_channel" where
  "lf_answers_of ms = \<lparr>fch_fetch = concat (map fetched_of ms), fch_done = None\<rparr>"

lemma lf_answers_of_blocks: "lf_answers_of (replicate n (LfWire (MsgLeiosBlock block))) =
    \<lparr>fch_fetch = replicate n (Inr block), fch_done = None\<rparr>"
  by (induction n) (auto simp: lf_answers_of_def)

definition lfc_fetched :: "lfc_session \<Rightarrow> nat \<Rightarrow> lfc_session" where
  "lfc_fetched s n = \<lparr>lfc_requested = lfc_requested s + of_nat n, lfc_received = lfc_received s + of_nat n\<rparr>"

lemma lfc_loop_run:
  assumes "reliable w"
  shows "\<exists>w'. lfc_loop t points (replicate (length points) (Inr block)) s w = Some (Ok (lfc_fetched s (length points)), w') \<and>
    reliable w' \<and> wire_out w' = wire_out w @ map (\<lambda>p. LfWire (MsgLeiosBlockRequest p)) points \<and>
    trace_file w' = trace_file w @ map (stamp t (slot_cell w))
      (concat (map (\<lambda>p. [lfc_request_event p, lfc_block_event p block]) points)) \<and> slot_cell w' = slot_cell w"
  using assms
proof (induction points arbitrary: s w)
  case Nil
  then show ?case by (simp add: run_simps lfc_fetched_def)
next
  case (Cons p points)
  let ?s = "s\<lparr>lfc_requested := lfc_requested s + 1, lfc_received := lfc_received s + 1\<rparr>"
  let ?w = "logged t (lfc_block_event p block) (requested (LfWire (MsgLeiosBlockRequest p)) (logged t (lfc_request_event p) w))"
  have "lfc_fetch t p (Some (Inr block)) s w = Some (Ok ?s, ?w)"
    using Cons.prems by (simp add: lfc_fetch_def run_simps Let_def)
  moreover have "reliable ?w" using Cons.prems by simp
  ultimately show ?case
    using Cons.IH [of ?w ?s] by (auto simp: run_simps lfc_fetched_def ac_simps)
qed

lemma run_leios_fetch_run:
  assumes "reliable w" "ch = \<lparr>fch_fetch = replicate (length points) (Inr block), fch_done = None\<rparr>"
  shows "\<exists>sm w'. run_leios_fetch t ch points w = Some (Ok sm, w') \<and>
    wire_out w' = wire_out w @ map (\<lambda>p. LfWire (MsgLeiosBlockRequest p)) points @ [LfWire LfMsgDone] \<and>
    lfcs_blocks_requested sm = of_nat (length points) \<and> lfcs_blocks_received sm = of_nat (length points) \<and>
    lfcs_exit_reason sm = ''completed''"
proof -
  let ?w0 = "logged t (lfc_started_event (length points)) w"
  have "reliable ?w0" using assms(1) by simp
  from lfc_loop_run [OF this, of t points block lfc_start] obtain w1 where
    "lfc_loop t points (replicate (length points) (Inr block)) lfc_start ?w0 = Some (Ok (lfc_fetched lfc_start (length points)), w1)"
    "reliable w1" "wire_out w1 = wire_out w @ map (\<lambda>p. LfWire (MsgLeiosBlockRequest p)) points" by auto
  with assms show ?thesis
    by (simp add: run_leios_fetch_def lfc_goodbye_def lfc_summarise_def lfc_build_summary_def run_simps
        lfc_fetched_def lfc_start_def)
qed

text \<open>C34: The Leios-Fetch client and server of the harness fit together: against a server whose script
  starts with a repeatable block rule, the client gets one block per requested point, each side's
  messages are the other's input, both sessions end cleanly, and the two summaries count the same
  blocks.\<close>

theorem leios_fetch_client_served:
  fixes points
  defines "reqs \<equiv> map MsgLeiosBlockRequest points @ [LfMsgDone]"
  assumes "reliable w" "reliable v" "block_rule True block rule"
  shows "\<exists>served w' fetched v'. execute_leios_fetch_script t (rule # rules) (map Inr reqs) w = (Ok served, w') \<and>
    run_leios_fetch t' (lf_answers_of (drop (length (wire_out w)) (wire_out w'))) points v = Some (Ok fetched, v') \<and>
    wire_out v' = wire_out v @ map LfWire reqs \<and>
    lfcs_blocks_requested fetched = of_nat (length points) \<and> lfcs_blocks_received fetched = lfsum_blocks_served served \<and>
    lfsum_blocks_served served = of_nat (length points) \<and> lfcs_exit_reason fetched = ''completed''"
proof -
  let ?w0 = "logged t (with_protocol lf_protocol (new_event ServerLeiosFetchStarted Internal (jobj []))) w"
  let ?s0 = "\<lparr>lf_blocks_served = 0, lf_rule_idx = 0\<rparr>"
  let ?body = "lf_body t (rule # rules)"
  have w0: "reliable ?w0" using assms by simp
  from lf_repeat_loop [OF w0, of ?s0 "rule # rules" block t points "[Ok LfMsgDone]"] assms(4) obtain s1 w1 where s1:
    "serve_loop ?body (map (\<lambda>p. Ok (MsgLeiosBlockRequest p)) points @ [Ok LfMsgDone]) ?s0 ?w0 =
      serve_loop ?body [Ok LfMsgDone] s1 w1"
    "reliable w1" "wire_out w1 = wire_out ?w0 @ replicate (length points) (LfWire (MsgLeiosBlock block))"
    "lf_blocks_served s1 = of_nat (length points)" by auto
  from lf_done_run [OF s1(2), of t "rule # rules" s1] obtain served w2 where
    "try_io (serve_loop ?body [Ok LfMsgDone] s1) (lf_finish t) w1 = (Ok served, w2)"
    "wire_out w2 = wire_out w1" "lfsum_blocks_served served = lf_blocks_served s1" by blast
  with s1 assms(2) have server: "execute_leios_fetch_script t (rule # rules) (map Inr reqs) w = (Ok served, w2)"
    "wire_out w2 = wire_out w @ replicate (length points) (LfWire (MsgLeiosBlock block))"
    "lfsum_blocks_served served = of_nat (length points)"
    unfolding execute_leios_fetch_script_def reqs_def by (simp_all add: try_io_def emit_reliable comp_def)
  from run_leios_fetch_run [OF assms(3) lf_answers_of_blocks, of t'] server show ?thesis
    by (fastforce simp: reqs_def comp_def)
qed

theorem leios_fetch_client_served_witness:
  "\<exists>rule served w' fetched v'. execute_leios_fetch_script tracer_open (rule # [])
      (map Inr (map MsgLeiosBlockRequest [NcOrigin] @ [LfMsgDone])) fresh_world = (Ok served, w') \<and>
    run_leios_fetch tracer_open (lf_answers_of (wire_out w')) [NcOrigin] fresh_world = Some (Ok fetched, v') \<and>
    lfcs_blocks_received fetched = 1"
proof -
  let ?rule = "\<lparr>lfr_on = ''any'', lfr_send = \<lparr>lfs_kind = ''block'',
        lfs_block_bytes = Some (encode_hex [0xa0]), lfs_duration_secs = None, lfs_bytes = None\<rparr>,
        lfr_repeatable = True\<rparr>"
  have "block_rule True [0xa0] ?rule" by (simp add: block_rule_def lf_decode_hex_opt_def del: encode_hex_simps)
  from leios_fetch_client_served [OF reliable_fresh_world(1) reliable_fresh_world(1) this, of tracer_open "[]" "[NcOrigin]" tracer_open]
  show ?thesis by (intro exI [of _ ?rule]) (auto simp: reliable_fresh_world)
qed

end
