(* ===== verification/TestKit.thy ===== *)
theory TestKit
  imports Readers
begin

text \<open>
  What the unit tests of the repository share. A test is a proposition on the model: the test's
  inputs are built as it builds them, and its assertions are conjuncts; JSON text is given as the
  value it denotes. An \<open>unwrap\<close> that the rest of a test depends on becomes \<open>ok_with\<close>, an
  \<open>unwrap_err\<close> with a look at the text becomes \<open>errs_with\<close>. The test theories prove every test of
  their module, so the definitions are known to agree with the code where its authors pinned it.
\<close>

named_theorems test_simps \<open>definitions that a test evaluates\<close>

definition ok_with :: "('a \<Rightarrow> bool) \<Rightarrow> 'a res \<Rightarrow> bool" where
  "ok_with p r = (case r of Ok x \<Rightarrow> p x | _ \<Rightarrow> False)"

definition errs_with :: "(string \<Rightarrow> bool) \<Rightarrow> 'a res \<Rightarrow> bool" where
  "errs_with p r = (case r of Err e \<Rightarrow> p (err_to_string e) | _ \<Rightarrow> False)"

definition is_err :: "'a res \<Rightarrow> bool" where
  "is_err r = errs_with (\<lambda>_. True) r"

definition jstrs :: "string list \<Rightarrow> json" where
  "jstrs ss = JArray (map JString ss)"

definition repeat_str :: "usize \<Rightarrow> 'a list \<Rightarrow> 'a list" where
  "repeat_str n s = concat (replicate n s)"

definition contains :: "'a list \<Rightarrow> 'a \<Rightarrow> bool" where
  "contains xs x \<longleftrightarrow> list_ex (\<lambda>y. y = x) xs"

lemma ok_with_simps [simp]:
  "ok_with p (Ok x) = p x" "\<not> ok_with p (Err e)" "\<not> ok_with p Panic"
  by (simp_all add: ok_with_def)

lemma errs_with_simps [simp]:
  "errs_with p (Err e) = p (err_to_string e)" "\<not> errs_with p (Ok x)" "\<not> errs_with p Panic"
  "errs_with p (anyhow m) = p m"
  by (simp_all add: errs_with_def anyhow_def err_to_string_def)

lemma is_err_simps [simp]: "is_err (Err e)" "\<not> is_err (Ok x)" "\<not> is_err Panic" "is_err (anyhow m)"
  by (simp_all add: is_err_def)

lemma ok_with_is_ok: "ok_with p r \<Longrightarrow> is_ok r"
  by (cases r) simp_all

lemma str_contains_step [test_simps]:
  "str_contains p s = (starts_with s p \<or> (case s of [] \<Rightarrow> False | c # s' \<Rightarrow> str_contains p s'))"
  by (cases s) (simp_all add: str_contains_def str_find.simps)

lemma with_context_anyhow [simp]: "with_context c (anyhow m) = Err (AnyhowError [c, m] False)"
  by (simp add: anyhow_def)

lemma nat_to_string_numerals [test_simps]:
  "nat_to_string 0 = ''0''" "nat_to_string (Suc 0) = ''1''" "nat_to_string (Suc (Suc 0)) = ''2''"
  "nat_to_string (numeral k) = (if (numeral k :: nat) < 10 then [digit_char (numeral k)]
     else nat_to_string (numeral k div 10) @ [digit_char (numeral k mod 10)])"
  by (simp_all add: nat_to_string.simps digit_char_def char_of_def bit_iff_odd)

lemmas string_defs = char_of_def bit_iff_odd u64_to_string_def digit_char_def byte_to_hex_def str_find.simps split_once_def trim_end_matches_def parse_usize_def parse_u64_def
  parse_uint_def to_digit_def Let_def quoted_def

declare string_defs [test_simps] jstrs_def [test_simps] contains_def [test_simps] err_to_string_def [test_simps]

end
