(* ===== verification/VarsTests.thy ===== *)
theory VarsTests
  imports TestKit
begin

text \<open>The unit tests of \<open>scenario/vars.rs\<close>.\<close>

definition test_store :: "(string \<times> json) list \<Rightarrow> var_store" where
  "test_store pairs = map_of (rev pairs)"

section \<open>References\<close>

definition test_resolve_simple_variable :: bool where
  "test_resolve_simple_variable \<longleftrightarrow>
     resolve_ref ''$count'' (test_store [(''count'', jnum 10)]) = Ok (jnum 10)"

definition test_resolve_field_projection :: bool where
  "test_resolve_field_projection \<longleftrightarrow>
     (let vars = test_store [(''tip'', jobj [(''point'', JString ''62:aabb''), (''block_number'', jnum 260)])] in
      resolve_ref ''$tip.point'' vars = Ok (JString ''62:aabb'') \<and>
      resolve_ref ''$tip.block_number'' vars = Ok (jnum 260))"

definition test_resolve_index_access :: bool where
  "test_resolve_index_access \<longleftrightarrow>
     (let vars = test_store [(''pts'', jstrs [''origin'', ''62:aabb'', ''63:ccdd''])] in
      resolve_ref ''$pts[0]'' vars = Ok (JString ''origin'') \<and>
      resolve_ref ''$pts[2]'' vars = Ok (JString ''63:ccdd''))"

definition test_resolve_unknown_variable_gives_clear_error :: bool where
  "test_resolve_unknown_variable_gives_clear_error \<longleftrightarrow>
     errs_with (\<lambda>s. str_contains ''unknown variable'' s \<and> str_contains ''foo'' s)
       (resolve_ref ''$foo'' Map.empty)"

definition test_resolve_missing_field_gives_clear_error :: bool where
  "test_resolve_missing_field_gives_clear_error \<longleftrightarrow>
     errs_with (\<lambda>s. str_contains ''tip'' s \<and> str_contains ''block_number'' s)
       (resolve_ref ''$tip.block_number'' (test_store [(''tip'', jobj [(''point'', JString ''origin'')])]))"

definition test_resolve_out_of_bounds_gives_clear_error :: bool where
  "test_resolve_out_of_bounds_gives_clear_error \<longleftrightarrow>
     errs_with (\<lambda>s. str_contains ''5'' s \<and> str_contains ''pts'' s)
       (resolve_ref ''$pts[5]'' (test_store [(''pts'', jstrs [''a'', ''b''])]))"

section \<open>Substitution\<close>

definition test_substitute_replaces_top_level_string :: bool where
  "test_substitute_replaces_top_level_string \<longleftrightarrow>
     ok_with (\<lambda>(v, resolved). v = jnum 42 \<and> length resolved = 1 \<and>
         fst (resolved ! 0) = ''$x'' \<and> snd (resolved ! 0) = ''number'')
       (substitute_in_value (JString ''$x'') (test_store [(''x'', jnum 42)]))"

definition test_substitute_replaces_in_array :: bool where
  "test_substitute_replaces_in_array \<longleftrightarrow>
     ok_with (\<lambda>(v, _). v = jstrs [''origin'', ''62:aabb'', ''literal''])
       (substitute_in_value (jstrs [''origin'', ''$p'', ''literal'']) (test_store [(''p'', JString ''62:aabb'')]))"

definition test_substitute_replaces_in_nested_object :: bool where
  "test_substitute_replaces_in_nested_object \<longleftrightarrow>
     ok_with (\<lambda>(v, _). json_get ''count'' v = Some (jnum 5) \<and> json_get ''other'' v = Some (jnum 1))
       (substitute_in_value (jobj [(''count'', JString ''$n''), (''other'', jnum 1)]) (test_store [(''n'', jnum 5)]))"

definition test_substitute_leaves_non_refs_unchanged :: bool where
  "test_substitute_leaves_non_refs_unchanged \<longleftrightarrow>
     (let v = jobj [(''count'', jnum 10), (''arr'', JArray [jnum 1, jnum 2])] in
      ok_with (\<lambda>(v', _). v' = v) (substitute_in_value v Map.empty))"

definition test_substitute_returns_error_for_unknown_var :: bool where
  "test_substitute_returns_error_for_unknown_var \<longleftrightarrow>
     is_err (substitute_in_value (JString ''$missing'') Map.empty)"

section \<open>Templates\<close>

definition test_template_expands_number_into_compound_string :: bool where
  "test_template_expands_number_into_compound_string \<longleftrightarrow>
     ok_with (\<lambda>(v, _). v = JString ''5424:abcdef'')
       (substitute_in_value (JString ''${current_slot}:abcdef'') (test_store [(''current_slot'', jnum 5424)]))"

definition test_template_expands_string_variable :: bool where
  "test_template_expands_string_variable \<longleftrightarrow>
     ok_with (\<lambda>(v, _). v = JString ''hello_world'')
       (substitute_in_value (JString ''${prefix}_world'') (test_store [(''prefix'', JString ''hello'')]))"

definition test_template_multiple_placeholders :: bool where
  "test_template_multiple_placeholders \<longleftrightarrow>
     ok_with (\<lambda>(v, _). v = JString ''1:2'')
       (substitute_in_value (JString ''${a}:${b}'') (test_store [(''a'', jnum 1), (''b'', jnum 2)]))"

definition test_template_unknown_var_gives_error :: bool where
  "test_template_unknown_var_gives_error \<longleftrightarrow>
     is_err (substitute_in_value (JString ''${missing}:hash'') Map.empty)"

definition test_template_unclosed_brace_gives_error :: bool where
  "test_template_unclosed_brace_gives_error \<longleftrightarrow>
     is_err (substitute_in_value (JString ''${x:hash'') (test_store [(''x'', jnum 1)]))"

definition test_whole_string_ref_still_returns_number_not_string :: bool where
  "test_whole_string_ref_still_returns_number_not_string \<longleftrightarrow>
     ok_with (\<lambda>(v, _). v = jnum 5424 \<and> (case v of JNumber _ \<Rightarrow> True | _ \<Rightarrow> False))
       (substitute_in_value (JString ''$current_slot'') (test_store [(''current_slot'', jnum 5424)]))"

section \<open>Points\<close>

definition test_point_to_str_origin :: bool where
  "test_point_to_str_origin \<longleftrightarrow> point_to_str Origin = ''origin''"

definition test_point_to_str_specific :: bool where
  "test_point_to_str_specific \<longleftrightarrow> point_to_str (Specific 62 [0xaa, 0xbb]) = ''62:aabb''"

section \<open>The tests pass\<close>

lemmas vars_defs = resolve_ref_def test_store_def unknown_variable_def substitute_in_value_def
  substitute_string_def expand_template_def expand_loop.simps render_var_def str_debug_def
  jobj_def jnum_def

lemma resolve_tests_pass:
  "test_resolve_simple_variable" "test_resolve_field_projection" "test_resolve_index_access"
  "test_resolve_unknown_variable_gives_clear_error" "test_resolve_missing_field_gives_clear_error"
  "test_resolve_out_of_bounds_gives_clear_error"
  by (simp_all add: test_simps vars_defs test_resolve_simple_variable_def test_resolve_field_projection_def
    test_resolve_index_access_def test_resolve_unknown_variable_gives_clear_error_def
    test_resolve_missing_field_gives_clear_error_def test_resolve_out_of_bounds_gives_clear_error_def)

lemma substitute_tests_pass:
  "test_substitute_replaces_top_level_string" "test_substitute_replaces_in_array"
  "test_substitute_replaces_in_nested_object" "test_substitute_leaves_non_refs_unchanged"
  "test_substitute_returns_error_for_unknown_var"
  by (simp_all add: test_simps vars_defs test_substitute_replaces_top_level_string_def
    test_substitute_replaces_in_array_def test_substitute_replaces_in_nested_object_def
    test_substitute_leaves_non_refs_unchanged_def test_substitute_returns_error_for_unknown_var_def)

lemma template_tests_pass:
  "test_template_expands_number_into_compound_string" "test_template_expands_string_variable"
  "test_template_multiple_placeholders" "test_template_unknown_var_gives_error"
  "test_template_unclosed_brace_gives_error" "test_whole_string_ref_still_returns_number_not_string"
  by (simp_all add: test_simps vars_defs test_template_expands_number_into_compound_string_def
    test_template_expands_string_variable_def test_template_multiple_placeholders_def
    test_template_unknown_var_gives_error_def test_template_unclosed_brace_gives_error_def
    test_whole_string_ref_still_returns_number_not_string_def)

lemma point_tests_pass: "test_point_to_str_origin" "test_point_to_str_specific"
  by (simp_all add: test_simps test_point_to_str_origin_def test_point_to_str_specific_def)

end
