(* ===== verification/FixtureTests.thy ===== *)
theory FixtureTests
  imports TestKit
begin

text \<open>
  The unit tests of \<open>fixture.rs\<close>, \<open>block_fixture.rs\<close> and \<open>response_rules.rs\<close> under
  \<open>src/src/scenario/\<close>. Those that go through a file are about every JSON package that reads back
  what it writes.
\<close>

definition entry_of :: "u64 \<Rightarrow> string \<Rightarrow> u64 \<Rightarrow> string \<Rightarrow> fixture_entry" where
  "entry_of slot hash bn cbor = \<lparr>fe_slot = slot, fe_block_hash = hash, fe_block_number = bn,
     fe_cbor_hex = cbor, fe_variant = default_header_variant\<rparr>"

definition reads_back :: "(string \<Rightarrow> json res) \<Rightarrow> (json \<Rightarrow> string) \<Rightarrow> bool" where
  "reads_back parse render \<longleftrightarrow> parse genesis_anchor_line = Ok (jobj [(''anchor'', JBool True)]) \<and>
     (\<forall>kvs. parse (render (JObject kvs)) = Ok (jobj kvs) \<and> \<not> is_blank (render (JObject kvs)))"

text \<open>\<open>format!("{:064x}", i)\<close> for the small numbers of the tests\<close>

definition format_064x :: "nat \<Rightarrow> string" where
  "format_064x i = encode_hex (replicate 31 0 @ [of_nat i])"

section \<open>Header fixtures\<close>

definition fixture_chain_of_tests :: fixture_chain where
  "fixture_chain_of_tests = \<lparr>fc_anchor = Origin, fc_entries =
     [entry_of 10 (repeat_str 32 ''aa'') 1 ''deadbeef'',
      entry_of 20 (repeat_str 32 ''bb'') 2 ''cafebabe'',
      entry_of 30 (repeat_str 32 ''cc'') 3 ''f00df00d'']\<rparr>"

definition test_fixture_round_trips_through_file :: "(string \<Rightarrow> json res) \<Rightarrow> (json \<Rightarrow> string) \<Rightarrow> bool" where
  "test_fixture_round_trips_through_file parse render \<longleftrightarrow>
     (let chain = fixture_chain_of_tests;
          file = fold (append_entry render) (fc_entries chain) (write_anchor render (fc_anchor chain) []) in
      ok_with (\<lambda>loaded. fc_anchor loaded = Origin \<and> length (fc_entries loaded) = 3 \<and>
          fe_slot (fc_entries loaded ! 0) = 10 \<and> fe_block_number (fc_entries loaded ! 2) = 3)
        (fixture_load parse ''tmp'' (Some file)))"

definition test_load_empty_file_errors :: "(string \<Rightarrow> json res) \<Rightarrow> bool" where
  "test_load_empty_file_errors parse \<longleftrightarrow> is_err (fixture_load parse ''tmp'' (Some []))"

definition test_load_anchor_only_gives_empty_entries :: "(string \<Rightarrow> json res) \<Rightarrow> (json \<Rightarrow> string) \<Rightarrow> bool" where
  "test_load_anchor_only_gives_empty_entries parse render \<longleftrightarrow>
     ok_with (\<lambda>chain. length (fc_entries chain) = 0)
       (fixture_load parse ''tmp'' (Some (write_anchor render Origin [])))"

definition test_write_anchor_truncates_on_second_capture ::
    "(string \<Rightarrow> json res) \<Rightarrow> (json \<Rightarrow> string) \<Rightarrow> bool" where
  "test_write_anchor_truncates_on_second_capture parse render \<longleftrightarrow>
     (let entry = entry_of 1 (repeat_str 32 ''aa'') 1 ''deadbeef'';
          file1 = append_entry render entry (write_anchor render Origin []);
          file2 = append_entry render entry (append_entry render entry (write_anchor render Origin file1)) in
      ok_with (\<lambda>chain. length (fc_entries chain) = 2) (fixture_load parse ''tmp'' (Some file2)))"

definition test_cursor_finds_origin :: bool where
  "test_cursor_finds_origin \<longleftrightarrow>
     find_intersect (cursor_new fixture_chain_of_tests) [Origin] = Ok (Some 0)"

definition test_cursor_finds_specific_block :: bool where
  "test_cursor_finds_specific_block \<longleftrightarrow>
     ok_with (\<lambda>hash. find_intersect (cursor_new fixture_chain_of_tests) [Specific 20 hash] = Ok (Some 2))
       (decode_hex_or_default (repeat_str 32 ''bb''))"

definition test_cursor_returns_first_match_in_candidate_order :: bool where
  "test_cursor_returns_first_match_in_candidate_order \<longleftrightarrow>
     (let cursor = cursor_new fixture_chain_of_tests in
      ok_with (\<lambda>h1. ok_with (\<lambda>h2.
          find_intersect cursor [Specific 30 h2, Specific 10 h1] = Ok (Some 3) \<and>
          find_intersect cursor [Specific 10 h1, Specific 30 h2] = Ok (Some 1))
        (decode_hex_or_default (repeat_str 32 ''cc''))) (decode_hex_or_default (repeat_str 32 ''aa'')))"

definition test_cursor_returns_none_for_no_match :: bool where
  "test_cursor_returns_none_for_no_match \<longleftrightarrow>
     find_intersect (cursor_new fixture_chain_of_tests) [Specific 99 (replicate 32 0xff)] = Ok None"

definition test_cursor_advance_through_chain :: bool where
  "test_cursor_advance_through_chain \<longleftrightarrow>
     (let cursor0 = set_pos 0 (cursor_new fixture_chain_of_tests);
          (e1, cursor1) = advance cursor0; (e2, cursor2) = advance cursor1;
          (e3, cursor3) = advance cursor2; (e4, _) = advance cursor3 in
      map_option fe_slot e1 = Some 10 \<and> remaining cursor1 = 1 \<and>
      map_option fe_slot e2 = Some 20 \<and> map_option fe_slot e3 = Some 30 \<and> e4 = None)"

definition test_cursor_advance_from_initial_pos_skips_anchor :: bool where
  "test_cursor_advance_from_initial_pos_skips_anchor \<longleftrightarrow>
     (let (at_anchor, cursor1) = advance (cursor_new fixture_chain_of_tests);
          (e1, _) = advance cursor1 in
      at_anchor = None \<and> map_option fe_slot e1 = Some 10)"

definition test_cursor_tip_reflects_last_entry :: bool where
  "test_cursor_tip_reflects_last_entry \<longleftrightarrow>
     ok_with (\<lambda>tip. case tip of Tip tip_point block_num \<Rightarrow> block_num = 3 \<and>
         (case tip_point of Specific slot _ \<Rightarrow> slot = 30 | Origin \<Rightarrow> False))
       (cursor_tip (cursor_new fixture_chain_of_tests))"

section \<open>Block fixtures\<close>

definition block_chain_of_tests :: "nat \<Rightarrow> block_fixture_chain" where
  "block_chain_of_tests n = \<lparr>bc_anchor = Origin, bc_entries = map (\<lambda>i.
     \<lparr>be_slot = of_nat (10 * (i + 1)), be_block_hash = format_064x i,
      be_block_cbor_hex = ''deadbeef'' @ byte_to_hex (of_nat i)\<rparr>) [0..<n]\<rparr>"

definition test_find_range_exact_endpoints :: bool where
  "test_find_range_exact_endpoints \<longleftrightarrow>
     (let chain = block_chain_of_tests 5 in
      ok_with (\<lambda>from. ok_with (\<lambda>to. ok_with (\<lambda>result. case result of
            Some es \<Rightarrow> length es = 3 \<and> be_slot (es ! 0) = 20 \<and> be_slot (es ! 2) = 40
          | None \<Rightarrow> False)
        (find_range chain from to)) (block_point (bc_entries chain ! 3))) (block_point (bc_entries chain ! 1)))"

definition test_find_range_single_block :: bool where
  "test_find_range_single_block \<longleftrightarrow>
     (let chain = block_chain_of_tests 3 in
      ok_with (\<lambda>pt. ok_with (\<lambda>result. case result of
            Some es \<Rightarrow> length es = 1 \<and> be_slot (es ! 0) = 20
          | None \<Rightarrow> False)
        (find_range chain pt pt)) (block_point (bc_entries chain ! 1)))"

definition test_find_range_missing_endpoint_returns_none :: bool where
  "test_find_range_missing_endpoint_returns_none \<longleftrightarrow>
     (let chain = block_chain_of_tests 3; bad = Specific 99 (replicate 32 0xff) in
      ok_with (\<lambda>good. find_range chain good bad = Ok None \<and> find_range chain bad good = Ok None)
        (block_point (bc_entries chain ! 0)))"

definition test_find_range_reversed_returns_none :: bool where
  "test_find_range_reversed_returns_none \<longleftrightarrow>
     (let chain = block_chain_of_tests 3 in
      ok_with (\<lambda>from. ok_with (\<lambda>to. find_range chain from to = Ok None)
        (block_point (bc_entries chain ! 0))) (block_point (bc_entries chain ! 2)))"

definition test_block_fixture_round_trips :: "(string \<Rightarrow> json res) \<Rightarrow> (json \<Rightarrow> string) \<Rightarrow> bool" where
  "test_block_fixture_round_trips parse render \<longleftrightarrow>
     (let chain = block_chain_of_tests 3;
          file = fold (block_append_entry render) (bc_entries chain) (block_write_anchor []) in
      ok_with (\<lambda>loaded. length (bc_entries loaded) = 3 \<and>
          be_slot (bc_entries loaded ! 0) = 10 \<and> be_slot (bc_entries loaded ! 2) = 30)
        (block_fixture_load parse ''tmp'' (Some file)))"

definition test_block_load_anchor_only :: "(string \<Rightarrow> json res) \<Rightarrow> bool" where
  "test_block_load_anchor_only parse \<longleftrightarrow>
     ok_with (\<lambda>chain. length (bc_entries chain) = 0)
       (block_fixture_load parse ''tmp'' (Some (block_write_anchor [])))"

section \<open>Response rules\<close>

definition make_cs_chain :: "nat \<Rightarrow> fixture_chain" where
  "make_cs_chain n = \<lparr>fc_anchor = Origin, fc_entries =
     map (\<lambda>i. entry_of (of_nat (i + 1)) (format_064x i) (of_nat (i + 1)) ''deadbeef'') [0..<n]\<rparr>"

definition make_bf_chain :: "nat \<Rightarrow> block_fixture_chain" where
  "make_bf_chain n = \<lparr>bc_anchor = Origin, bc_entries = map (\<lambda>i. \<lparr>be_slot = of_nat (i + 1),
     be_block_hash = format_064x i, be_block_cbor_hex = ''cafebabe''\<rparr>) [0..<n]\<rparr>"

definition rule_value :: "string \<Rightarrow> (string \<times> json) list \<Rightarrow> json" where
  "rule_value on send = jobj [(''on'', JString on), (''send'', jobj send)]"

definition test_rule_parses_roll_forward_fixture :: bool where
  "test_rule_parses_roll_forward_fixture \<longleftrightarrow>
     ok_with (\<lambda>def. rd_on def = OnRequestNext \<and>
         (case rd_send def of SDRollForward (Some i) _ _ _ \<Rightarrow> i = 0 | _ \<Rightarrow> False))
       (rule_def_from_value (rule_value ''request_next''
          [(''kind'', JString ''roll_forward''), (''header_from_fixture'', jnum 0)]))"

definition test_rule_parses_no_blocks :: bool where
  "test_rule_parses_no_blocks \<longleftrightarrow>
     ok_with (\<lambda>def. rd_on def = OnRequestRange \<and> rd_send def = SDNoBlocks)
       (rule_def_from_value (rule_value ''request_range'' [(''kind'', JString ''no_blocks'')]))"

definition test_rule_parses_stream_batch_indices :: bool where
  "test_rule_parses_stream_batch_indices \<longleftrightarrow>
     ok_with (\<lambda>def. case rd_send def of SDStreamBatch (Some _) _ \<Rightarrow> True | _ \<Rightarrow> False)
       (rule_def_from_value (rule_value ''request_range''
          [(''kind'', JString ''stream_batch''), (''block_indices'', JArray [jnum 0, jnum 1, jnum 2])]))"

definition test_rule_parses_stream_batch_from_request :: bool where
  "test_rule_parses_stream_batch_from_request \<longleftrightarrow>
     ok_with (\<lambda>def. case rd_send def of SDStreamBatch _ (Some b) \<Rightarrow> b | _ \<Rightarrow> False)
       (rule_def_from_value (rule_value ''request_range''
          [(''kind'', JString ''stream_batch''), (''block_count_from_request'', JBool True)]))"

definition test_rule_def_to_script_resolves_block_fixture_entry :: bool where
  "test_rule_def_to_script_resolves_block_fixture_entry \<longleftrightarrow>
     ok_with (\<lambda>def. ok_with (\<lambda>rule. case sr_send rule of BlockSend (BFixtureEntry _) \<Rightarrow> True | _ \<Rightarrow> False)
         (rule_def_to_script def None (Some (make_bf_chain 3))))
       (rule_def_from_value (rule_value ''request_range''
          [(''kind'', JString ''block''), (''block_from_fixture'', jnum 1)]))"

definition test_rule_def_to_script_stream_batch_from_request :: bool where
  "test_rule_def_to_script_stream_batch_from_request \<longleftrightarrow>
     ok_with (\<lambda>def. ok_with (\<lambda>rule. sr_send rule = StreamBatchSend FromRequest) (rule_def_to_script def None None))
       (rule_def_from_value (rule_value ''request_range''
          [(''kind'', JString ''stream_batch''), (''block_count_from_request'', JBool True)]))"

definition test_generate_from_fixture_count :: bool where
  "test_generate_from_fixture_count \<longleftrightarrow>
     (let rules = generate_from_fixture (make_cs_chain 4) 30 in
      length rules = 7 \<and> \<not> sr_repeatable (rules ! 0))"

definition test_generate_for_block_fetch_normal :: bool where
  "test_generate_for_block_fetch_normal \<longleftrightarrow>
     (let rules = generate_for_block_fetch False in
      length rules = 2 \<and> sr_send (rules ! 0) = CursorRange \<and> sr_repeatable (rules ! 0) \<and>
      sr_send (rules ! 1) = DisconnectSend)"

definition test_generate_for_block_fetch_no_blocks :: bool where
  "test_generate_for_block_fetch_no_blocks \<longleftrightarrow>
     (let rules = generate_for_block_fetch True in
      length rules = 2 \<and> sr_send (rules ! 0) = NoBlocksSend \<and> sr_repeatable (rules ! 0))"

section \<open>The tests pass\<close>

lemma repeat_hex:
  "repeat_str n ''aa'' = encode_hex (replicate n 0xaa)" "repeat_str n ''bb'' = encode_hex (replicate n 0xbb)"
  "repeat_str n ''cc'' = encode_hex (replicate n 0xcc)"
  by (induction n) (simp_all add: repeat_str_def test_simps)

lemmas fixture_test_defs = fixture_chain_of_tests_def entry_of_def cursor_new_def repeat_hex

lemma fixture_file_tests_pass:
  assumes "reads_back parse render"
  shows "test_fixture_round_trips_through_file parse render" "test_load_empty_file_errors parse"
    "test_load_anchor_only_gives_empty_entries parse render"
    "test_write_anchor_truncates_on_second_capture parse render"
proof -
  have load: "fixture_load parse path (Some (fold (append_entry render) es (write_anchor render Origin old))) =
      Ok \<lparr>fc_anchor = Origin, fc_entries = es\<rparr>" for path es old
    by (rule fixture_load_written) (use assms in \<open>simp_all add: reads_back_def\<close>)
  show "test_fixture_round_trips_through_file parse render"
    by (simp add: test_fixture_round_trips_through_file_def fixture_test_defs load del: fold.simps)
  show "test_load_empty_file_errors parse"
    by (simp add: test_load_empty_file_errors_def fixture_load_def)
  show "test_load_anchor_only_gives_empty_entries parse render"
    using load [of _ "[]"] by (simp add: test_load_anchor_only_gives_empty_entries_def)
  show "test_write_anchor_truncates_on_second_capture parse render"
    using load [of _ "[e, e]" for e] by (simp add: test_write_anchor_truncates_on_second_capture_def Let_def)
qed

lemma cursor_tests_pass:
  "test_cursor_finds_origin" "test_cursor_finds_specific_block"
  "test_cursor_returns_first_match_in_candidate_order" "test_cursor_returns_none_for_no_match"
  "test_cursor_advance_through_chain" "test_cursor_advance_from_initial_pos_skips_anchor"
  "test_cursor_tip_reflects_last_entry"
  by (simp_all add: test_cursor_finds_origin_def test_cursor_finds_specific_block_def
    test_cursor_returns_first_match_in_candidate_order_def test_cursor_returns_none_for_no_match_def
    test_cursor_advance_through_chain_def test_cursor_advance_from_initial_pos_skips_anchor_def
    test_cursor_tip_reflects_last_entry_def fixture_test_defs point_to_pos_def advance_def set_pos_def
    remaining_def cursor_tip_def chain_tip_def Let_def replicate_eq_replicate)

lemmas block_test_defs = block_chain_of_tests_def format_064x_def block_point_def find_range_def
  find_entry_idx_def upt_rec

lemma find_range_tests_pass:
  "test_find_range_exact_endpoints" "test_find_range_single_block"
  "test_find_range_missing_endpoint_returns_none" "test_find_range_reversed_returns_none"
  by (simp_all add: test_find_range_exact_endpoints_def test_find_range_single_block_def
    test_find_range_missing_endpoint_returns_none_def test_find_range_reversed_returns_none_def
    block_test_defs Let_def)

lemma block_fixture_file_tests_pass:
  assumes "reads_back parse render"
  shows "test_block_fixture_round_trips parse render" "test_block_load_anchor_only parse"
proof -
  have load: "block_fixture_load parse path (Some (fold (block_append_entry render) es (block_write_anchor old))) =
      Ok \<lparr>bc_anchor = Origin, bc_entries = es\<rparr>" for path es old
    by (rule block_fixture_load_written) (use assms in \<open>simp_all add: reads_back_def\<close>)
  show "test_block_fixture_round_trips parse render"
    by (simp add: test_block_fixture_round_trips_def Let_def load block_test_defs del: fold.simps)
  show "test_block_load_anchor_only parse"
    using load [of _ "[]"] by (simp add: test_block_load_anchor_only_def)
qed

lemmas rule_test_defs = rule_value_def rule_def_from_value_def req_param_def on_from_value_def on_from_name_def
  send_def_from_value.simps tagged_value_def string_from_value_def flat_send_from_value_def
  chain_sync_send_from_value_def read_param_def field_or_null_def opt_from_value_def usize_from_value_def
  u64_from_value_def bool_from_value_def vec_from_value_def values_from_value_def opt_string_from_value_def
  opt_tip_from_field_def jobj_def jnum_def struct_value_def

lemma rule_tests_pass:
  "test_rule_parses_roll_forward_fixture" "test_rule_parses_no_blocks"
  "test_rule_parses_stream_batch_indices" "test_rule_parses_stream_batch_from_request"
  by (simp_all add: test_rule_parses_roll_forward_fixture_def test_rule_parses_no_blocks_def
    test_rule_parses_stream_batch_indices_def test_rule_parses_stream_batch_from_request_def rule_test_defs)

lemma rule_conversion_tests_pass:
  "test_rule_def_to_script_resolves_block_fixture_entry" "test_rule_def_to_script_stream_batch_from_request"
  by (simp_all add: test_rule_def_to_script_resolves_block_fixture_entry_def
    test_rule_def_to_script_stream_batch_from_request_def rule_test_defs rule_def_to_script_def
    convert_block_source_def convert_stream_sources_def nth_opt_def make_bf_chain_def)

lemma generated_rule_tests_pass:
  "test_generate_from_fixture_count" "test_generate_for_block_fetch_normal" "test_generate_for_block_fetch_no_blocks"
  by (simp_all add: test_generate_from_fixture_count_def test_generate_for_block_fetch_normal_def
    test_generate_for_block_fetch_no_blocks_def generate_from_fixture_def generate_for_block_fetch_def
    make_cs_chain_def one_shot_def)

end
