(* ===== verification/PeerTests.thy ===== *)
theory PeerTests
  imports TestKit
begin

text \<open>
  The unit tests of \<open>peer_state.rs\<close>, for every hash function: those that only compare hashes for
  equality hold whatever it is, and the one that expects different hashes holds when the hash
  function separates the two inputs it is about.
\<close>

section \<open>Firing slots\<close>

definition test_every_n_slots_fires_in_range :: bool where
  "test_every_n_slots_fires_in_range \<longleftrightarrow>
     (let rule = EveryNSlots 100 5 in
      slots_in_range rule 100 130 = Some [100, 105, 110, 115, 120, 125, 130] \<and>
      slots_in_range rule 101 130 = Some [105, 110, 115, 120, 125, 130] \<and>
      slots_in_range rule 131 130 = Some [] \<and> slots_in_range rule 50 99 = Some [])"

definition test_at_slots_fires_correctly :: bool where
  "test_at_slots_fires_correctly \<longleftrightarrow>
     (let rule = AtSlots [102, 107, 117] in
      slots_in_range rule 100 120 = Some [102, 107, 117] \<and> slots_in_range rule 103 120 = Some [107, 117] \<and>
      slots_in_range rule 118 200 = Some [])"

definition test_none_rule_never_fires :: bool where
  "test_none_rule_never_fires \<longleftrightarrow> slots_in_range PRNone 0 (- 1) = Some []"

definition test_forked_slots_match_every_n_slots :: bool where
  "test_forked_slots_match_every_n_slots \<longleftrightarrow>
     (let forked = ForkedFromSlot 100 5 115 ''x''; honest = EveryNSlots 100 5 in
      slots_in_range forked 100 130 = slots_in_range honest 100 130 \<and> slots_in_range honest 100 130 \<noteq> None)"

section \<open>Production\<close>

definition peer_with_rule :: "production_rule \<Rightarrow> peer_state" where
  "peer_with_rule rule = peer_state_new\<lparr>ps_production_rule := Some rule\<rparr>"

definition produced :: "(production_event list \<Rightarrow> (string \<rightharpoonup> peer_state) \<Rightarrow> bool)
    \<Rightarrow> (production_event list \<times> peers) res option \<Rightarrow> bool" where
  "produced p r = (case r of Some (Ok (events, peers)) \<Rightarrow> p events (map_of peers) | _ \<Rightarrow> False)"

definition entries_of :: "(string \<rightharpoonup> peer_state) \<Rightarrow> string \<Rightarrow> chain_entry list" where
  "entries_of peers pid = (case peers pid of Some ps \<Rightarrow> ps_chain_entries ps | None \<Rightarrow> [])"

definition test_apply_production_extends_chain_sequentially :: "(bytes \<Rightarrow> bytes) \<Rightarrow> bool" where
  "test_apply_production_extends_chain_sequentially h \<longleftrightarrow>
     produced (\<lambda>events peers.
         length events = 3 \<and> list_all (\<lambda>e. \<not> pe_skipped e) events \<and>
         pe_slot (events ! 0) = 10 \<and> pe_slot (events ! 1) = 20 \<and> pe_slot (events ! 2) = 30 \<and>
         (let es = entries_of peers ''p'' in length es = 3 \<and> ce_block_number (es ! 0) = 0 \<and>
            ce_block_number (es ! 1) = 1 \<and> ce_block_number (es ! 2) = 2))
       (apply_production_rules h [(''p'', peer_with_rule (EveryNSlots 10 10))] 0 30)"

definition test_apply_production_skips_when_tip_already_covers_slot :: "(bytes \<Rightarrow> bytes) \<Rightarrow> bool" where
  "test_apply_production_skips_when_tip_already_covers_slot h \<longleftrightarrow>
     (let ps = (peer_with_rule (EveryNSlots 10 10))\<lparr>ps_chain_entries := [
          \<lparr>ce_slot = 10, ce_block_hash = replicate 32 0, ce_block_number = 0,
           ce_header_cbor = [0x82, 0x82, 0x00, 0x0a, 0xf6], ce_variant = 6\<rparr>]\<rparr> in
      produced (\<lambda>events peers.
          length events = 2 \<and> pe_skipped (events ! 0) \<and> pe_slot (events ! 0) = 10 \<and>
          \<not> pe_skipped (events ! 1) \<and> pe_slot (events ! 1) = 20 \<and> length (entries_of peers ''p'') = 2)
        (apply_production_rules h [(''p'', ps)] 0 20))"

definition test_apply_production_fires_at_new_slot_inclusive :: "(bytes \<Rightarrow> bytes) \<Rightarrow> bool" where
  "test_apply_production_fires_at_new_slot_inclusive h \<longleftrightarrow>
     produced (\<lambda>events peers. length events = 1 \<and> pe_slot (events ! 0) = 50 \<and> \<not> pe_skipped (events ! 0))
       (apply_production_rules h [(''p'', peer_with_rule (EveryNSlots 50 50))] 0 50)"

definition test_block_number_increments_after_initial_fixture_entries :: "(bytes \<Rightarrow> bytes) \<Rightarrow> bool" where
  "test_block_number_increments_after_initial_fixture_entries h \<longleftrightarrow>
     (let ps = (peer_with_rule (EveryNSlots 200 100))\<lparr>ps_chain_entries := map (\<lambda>(i, slot).
          \<lparr>ce_slot = slot, ce_block_hash = replicate 32 (of_nat i), ce_block_number = of_nat i,
           ce_header_cbor = [0x82, 0x82, of_nat i, ucast slot, 0xf6], ce_variant = 6\<rparr>) (enumerate 0 [10, 20, 30])\<rparr> in
      produced (\<lambda>events peers. length events = 1 \<and> pe_block_number (events ! 0) = 3)
        (apply_production_rules h [(''p'', ps)] 100 200))"

section \<open>Peer states\<close>

definition make_entry :: "u64 \<Rightarrow> u64 \<Rightarrow> chain_entry" where
  "make_entry slot block_number = \<lparr>ce_slot = slot, ce_block_hash = replicate 32 (ucast slot),
     ce_block_number = block_number, ce_header_cbor = [0xaa, 0xbb], ce_variant = 6\<rparr>"

definition test_new_peer_state_is_empty :: bool where
  "test_new_peer_state_is_empty \<longleftrightarrow> ps_chain_entries peer_state_new = [] \<and>
     ps_block_store peer_state_new = [] \<and> chain_tip_slot peer_state_new = None"

definition test_filtered_fixture_chain_respects_slot_bound :: bool where
  "test_filtered_fixture_chain_respects_slot_bound \<longleftrightarrow>
     (let ps = peer_state_new\<lparr>ps_chain_entries := [make_entry 10 1, make_entry 20 2, make_entry 30 3]\<rparr>;
          chain = filtered_fixture_chain ps (Some 20) in
      length (fc_entries (filtered_fixture_chain ps None)) = 3 \<and>
      length (fc_entries chain) = 2 \<and> fe_slot (fc_entries chain ! 1) = 20 \<and>
      length (fc_entries (filtered_fixture_chain ps (Some 5))) = 0)"

definition test_chain_tip_slot_returns_last_entry :: bool where
  "test_chain_tip_slot_returns_last_entry \<longleftrightarrow>
     chain_tip_slot (peer_state_new\<lparr>ps_chain_entries := [make_entry 10 1, make_entry 20 2]\<rparr>) = Some 20"

section \<open>Adversarial rules\<close>

definition test_pre_fork_hashes_match_between_same_timing_different_markers :: "(bytes \<Rightarrow> bytes) \<Rightarrow> bool" where
  "test_pre_fork_hashes_match_between_same_timing_different_markers h \<longleftrightarrow>
     produced (\<lambda>_ peers. map ce_block_hash (entries_of peers ''peer_a'') = map ce_block_hash (entries_of peers ''peer_b''))
       (apply_production_rules h [(''peer_a'', peer_with_rule (ForkedFromSlot 100 10 130 ''chain_a'')),
          (''peer_b'', peer_with_rule (ForkedFromSlot 100 10 130 ''chain_b''))] 99 120)"

definition test_post_fork_hashes_differ_with_different_markers :: "(bytes \<Rightarrow> bytes) \<Rightarrow> bool" where
  "test_post_fork_hashes_differ_with_different_markers h \<longleftrightarrow>
     (let make_peers = (\<lambda>marker. apply_production_rules h
            [(''p'', peer_with_rule (ForkedFromSlot 100 10 110 marker))] 99 130) in
      produced (\<lambda>_ chain_a. produced (\<lambda>_ chain_b.
          ce_block_hash (entries_of chain_a ''p'' ! 0) = ce_block_hash (entries_of chain_b ''p'' ! 0) \<and>
          ce_block_hash (entries_of chain_a ''p'' ! 1) \<noteq> ce_block_hash (entries_of chain_b ''p'' ! 1))
        (make_peers ''B'')) (make_peers ''A''))"

definition test_skips_slots_omits_specified_indices :: "(bytes \<Rightarrow> bytes) \<Rightarrow> bool" where
  "test_skips_slots_omits_specified_indices h \<longleftrightarrow>
     produced (\<lambda>_ peers. let slots = map ce_slot (entries_of peers ''p'') in
         \<not> contains slots 105 \<and> \<not> contains slots 115 \<and> contains slots 100 \<and> contains slots 110)
       (apply_production_rules h [(''p'', peer_with_rule (SkipsSlots 100 5 [1, 3]))] 99 130)"

definition test_skips_slots_block_numbers_are_sequential :: "(bytes \<Rightarrow> bytes) \<Rightarrow> bool" where
  "test_skips_slots_block_numbers_are_sequential h \<longleftrightarrow>
     produced (\<lambda>_ peers. let bns = map ce_block_number (entries_of peers ''p'') in
         bns = map of_nat [0..<length bns])
       (apply_production_rules h [(''p'', peer_with_rule (SkipsSlots 100 5 [1, 3]))] 99 130)"

definition test_broken_prev_hash_correct_before_break :: "(bytes \<Rightarrow> bytes) \<Rightarrow> bool" where
  "test_broken_prev_hash_correct_before_break h \<longleftrightarrow>
     (let wrong = repeat_str 16 ''abcd'' in
      produced (\<lambda>_ peers. ce_block_hash (entries_of peers ''p'' ! 0) = synthetic_hash h ''p'' 100 (replicate 32 0))
        (apply_production_rules h [(''p'', peer_with_rule (BrokenPrevHash 100 10 120 wrong))] 99 130))"

definition test_broken_prev_hash_wrong_after_break :: "(bytes \<Rightarrow> bytes) \<Rightarrow> bool" where
  "test_broken_prev_hash_wrong_after_break h \<longleftrightarrow>
     (let wrong = repeat_str 16 ''abcd'' in
      produced (\<lambda>_ peers. ok_with (\<lambda>wrong_bytes.
            ce_block_hash (entries_of peers ''p'' ! 1) = synthetic_hash h ''p'' 110 wrong_bytes)
          (decode_hex_at wrong))
        (apply_production_rules h [(''p'', peer_with_rule (BrokenPrevHash 100 10 110 wrong))] 99 130))"

definition test_defect_kind_populated_for_adversarial_rules :: "(bytes \<Rightarrow> bytes) \<Rightarrow> bool" where
  "test_defect_kind_populated_for_adversarial_rules h \<longleftrightarrow>
     produced (\<lambda>events _.
         let forked_events = filter (\<lambda>e. pe_peer_id e = ''forked'') events;
             sparse_events = filter (\<lambda>e. pe_peer_id e = ''sparse'' \<and> \<not> pe_skipped e) events in
         pe_defect_kind (forked_events ! 0) = None \<and>
         pe_defect_kind (forked_events ! 1) = Some ''fork_divergence'' \<and>
         list_all (\<lambda>e. pe_defect_kind e = Some ''sparse_chain'') sparse_events)
       (apply_production_rules h [(''forked'', peer_with_rule (ForkedFromSlot 100 10 110 ''f'')),
          (''sparse'', peer_with_rule (SkipsSlots 100 10 [1]))] 99 120)"

definition test_decode_hex_rejects_odd_length :: bool where
  "test_decode_hex_rejects_odd_length \<longleftrightarrow> is_err (decode_hex_at ''abc'')"

definition test_decode_hex_round_trips :: bool where
  "test_decode_hex_round_trips \<longleftrightarrow>
     (let bs = [0xde, 0xad, 0xbe, 0xef] in decode_hex_at (encode_hex bs) = Ok bs)"

section \<open>The tests pass\<close>

lemma push_slots_steps:
  "s \<le> to \<Longrightarrow> push_slots interval to s slots = push_slots interval to (saturating_add s interval) (slots @ [s])"
  "\<not> s \<le> to \<Longrightarrow> push_slots interval to s slots = Some slots"
  by (simp_all add: push_slots.simps [of interval to s])

lemmas slot_defs = slots_in_range_def every_n_slots_range_def push_slots_steps saturating_add_def Let_def

lemma slot_tests_pass:
  "test_every_n_slots_fires_in_range" "test_at_slots_fires_correctly" "test_none_rule_never_fires"
  "test_forked_slots_match_every_n_slots"
  by (simp_all add: test_every_n_slots_fires_in_range_def test_at_slots_fires_correctly_def
    test_none_rule_never_fires_def test_forked_slots_match_every_n_slots_def slot_defs)

lemmas production_defs = slot_defs produced_def apply_production_rules_def peer_with_rule_def peer_state_new_def
  production_task_def try_div_def produce_slot_def covered_def chain_tip_slot_def new_block_def entries_of_def

lemma production_tests_pass:
  "test_apply_production_extends_chain_sequentially h"
  "test_apply_production_skips_when_tip_already_covers_slot h"
  "test_apply_production_fires_at_new_slot_inclusive h"
  by (simp_all add: test_apply_production_extends_chain_sequentially_def
    test_apply_production_skips_when_tip_already_covers_slot_def
    test_apply_production_fires_at_new_slot_inclusive_def production_defs)

lemma numbering_test_passes: "test_block_number_increments_after_initial_fixture_entries h"
  by (simp add: test_block_number_increments_after_initial_fixture_entries_def production_defs)

lemma peer_tests_pass:
  "test_new_peer_state_is_empty" "test_filtered_fixture_chain_respects_slot_bound"
  "test_chain_tip_slot_returns_last_entry"
  by (simp_all add: test_new_peer_state_is_empty_def test_filtered_fixture_chain_respects_slot_bound_def
    test_chain_tip_slot_returns_last_entry_def peer_state_new_def chain_tip_slot_def make_entry_def
    filtered_fixture_chain_def to_fixture_entry_def)

lemmas adversarial_defs = production_defs synthetic_hash_def canonical_root_def

lemma fork_test_passes: "test_pre_fork_hashes_match_between_same_timing_different_markers h"
  by (simp add: test_pre_fork_hashes_match_between_same_timing_different_markers_def adversarial_defs)

lemma skip_tests_pass:
  "test_skips_slots_omits_specified_indices h" "test_skips_slots_block_numbers_are_sequential h"
  by (simp_all add: test_skips_slots_omits_specified_indices_def
    test_skips_slots_block_numbers_are_sequential_def adversarial_defs upt_rec contains_def)

text \<open>The two inputs that the hash function has to separate: those of slot 110, with the markers.\<close>

lemma post_fork_test_passes:
  assumes "\<And>prev. h (hash_input (CHR 0x00 # ''A'') 110 prev) \<noteq> h (hash_input (CHR 0x00 # ''B'') 110 prev)"
  shows "test_post_fork_hashes_differ_with_different_markers h"
  by (simp add: test_post_fork_hashes_differ_with_different_markers_def adversarial_defs assms)

lemma wrong_hash_decodes: "decode_hex_at (repeat_str 16 ''abcd'') = Ok (concat (replicate 16 [0xab, 0xcd]))"
proof -
  have "repeat_str n ''abcd'' = encode_hex (concat (replicate n [0xab, 0xcd]))" for n
    by (induction n) (simp_all add: repeat_str_def test_simps)
  then show ?thesis by simp
qed

lemma broken_tests_pass:
  "test_broken_prev_hash_correct_before_break h" "test_broken_prev_hash_wrong_after_break h"
  by (simp_all add: test_broken_prev_hash_correct_before_break_def
    test_broken_prev_hash_wrong_after_break_def adversarial_defs wrong_hash_decodes)

lemma defect_test_passes: "test_defect_kind_populated_for_adversarial_rules h"
  by (simp add: test_defect_kind_populated_for_adversarial_rules_def adversarial_defs)

lemma hex_tests_pass: "test_decode_hex_rejects_odd_length" "test_decode_hex_round_trips"
proof -
  show "test_decode_hex_rejects_odd_length"
    by (simp add: test_decode_hex_rejects_odd_length_def decode_hex_at_def decode_hex_with_def)
  show "test_decode_hex_round_trips"
    by (simp add: test_decode_hex_round_trips_def Let_def del: encode_hex_simps)
qed

end
