(* ===== verification/TraceTests.thy ===== *)
theory TraceTests
  imports TestKit ChainSyncClient BlockFetchClient Handshake
begin

text \<open>
  The unit tests of \<open>trace.rs\<close> and of the client sessions (\<open>chainsync.rs\<close>, \<open>blockfetch.rs\<close>,
  \<open>handshake.rs\<close>). A line of the trace is looked at as the value it is written from; the test on
  its time stamp is left out with the stamp, and the one on the summary of the header client, which sets a
  flag that no caller sets and the model has not. A summary is looked at after the clock was read once.
\<close>

definition field :: "json \<Rightarrow> string \<Rightarrow> json" where
  "field v k = (case json_get k v of None \<Rightarrow> JNull | Some x \<Rightarrow> x)"

definition trace_lines :: "world \<Rightarrow> json list" where
  "trace_lines w = map trace_event_to_value (trace_file w)"

section \<open>Events\<close>

definition test_event_serialises_with_snake_case_fields :: bool where
  "test_event_serialises_with_snake_case_fields \<longleftrightarrow>
     (let parsed = trace_event_to_value (new_event ConnectionOpened Internal (jobj [(''addr'', JString ''localhost:3001'')])) in
      field parsed ''kind'' = JString ''connection_opened'' \<and> field parsed ''direction'' = JString ''internal'' \<and>
      field (field parsed ''payload'') ''addr'' = JString ''localhost:3001'')"

definition test_protocol_fields_are_omitted_when_none :: bool where
  "test_protocol_fields_are_omitted_when_none \<longleftrightarrow>
     (let json = trace_event_to_value (new_event HandshakeStarted Internal (jobj [])) in
      json_get ''mini_protocol'' json = None \<and> json_get ''state_before'' json = None \<and>
      json_get ''state_after'' json = None)"

definition test_with_states_populates_optional_fields :: bool where
  "test_with_states_populates_optional_fields \<longleftrightarrow>
     (let parsed = trace_event_to_value
            (with_states ''chain-sync'' ''Idle'' ''CanAwait'' (new_event ChainSyncRequestNext Sent (jobj []))) in
      field parsed ''mini_protocol'' = JString ''chain-sync'' \<and> field parsed ''state_before'' = JString ''Idle'' \<and>
      field parsed ''state_after'' = JString ''CanAwait'')"

definition test_with_protocol_sets_only_mini_protocol :: bool where
  "test_with_protocol_sets_only_mini_protocol \<longleftrightarrow>
     (let parsed = trace_event_to_value (with_protocol ''chain-sync'' (new_event ChainSyncStarted Internal (jobj []))) in
      field parsed ''mini_protocol'' = JString ''chain-sync'' \<and>
      (json_get ''state_before'' parsed = None \<or> field parsed ''state_before'' = JNull))"

definition test_emit_writes_one_json_line_per_call :: "world \<Rightarrow> bool" where
  "test_emit_writes_one_json_line_per_call w \<longleftrightarrow>
     (let (r1, w1) = emit tracer_open (new_event HandshakeStarted Internal (jobj [(''magic'', jnum 1)])) w;
          (r2, w2) = emit tracer_open (new_event HandshakeCompleted Internal (jobj [(''negotiated_version'', jnum 13)])) w1;
          lines = trace_lines w2 in
      r1 = Ok () \<and> r2 = Ok () \<and> length lines = 2 \<and>
      field (lines ! 0) ''kind'' = JString ''handshake_started'' \<and>
      field (field (lines ! 0) ''payload'') ''magic'' = jnum 1 \<and>
      field (lines ! 1) ''kind'' = JString ''handshake_completed'' \<and>
      field (field (lines ! 1) ''payload'') ''negotiated_version'' = jnum 13)"

text \<open>The lock makes one of the two emits the first; the test holds for either.\<close>

definition test_concurrent_emits_all_appear_in_file :: "world \<Rightarrow> bool" where
  "test_concurrent_emits_all_appear_in_file w \<longleftrightarrow>
     (let sent = new_event KeepAliveSent Sent (jobj [(''cookie'', jnum 1)]);
          received = new_event KeepAliveReceived Received (jobj [(''cookie'', jnum 1)]);
          both = (\<lambda>a b. let (r1, w1) = emit tracer_open a w; (r2, w2) = emit tracer_open b w1 in
            r1 = Ok () \<and> r2 = Ok () \<and> length (trace_lines w2) = 2) in
      both sent received \<and> both received sent)"

section \<open>Client sessions\<close>

definition test_encode_hex_roundtrip :: bool where
  "test_encode_hex_roundtrip \<longleftrightarrow> encode_hex [0xde, 0xad, 0xbe, 0xef] = ''deadbeef''"

definition test_format_point_origin :: bool where
  "test_format_point_origin \<longleftrightarrow> format_point Origin = JString ''origin''"

definition test_format_point_specific :: bool where
  "test_format_point_specific \<longleftrightarrow>
     (let v = format_point (Specific 42 [0xab, 0xcd]) in
      field v ''slot'' = jnum 42 \<and> field v ''hash'' = JString ''abcd'')"

definition test_round_trip_point_conversion :: bool where
  "test_round_trip_point_conversion \<longleftrightarrow>
     (case from_nc_point (to_nc_point (Specific 100 (replicate 32 0xaa))) of
        Specific slot h \<Rightarrow> slot = 100 \<and> h = replicate 32 0xaa
      | Origin \<Rightarrow> False)"

definition test_encode_hex_known_value :: bool where
  "test_encode_hex_known_value \<longleftrightarrow> encode_hex [0xca, 0xfe] = ''cafe''"

definition test_block_fetch_build_summary_fields :: "world \<Rightarrow> bool" where
  "test_block_fetch_build_summary_fields w \<longleftrightarrow>
     ok_with (\<lambda>s. bcs_range_requests s = 3 \<and> bcs_blocks_received s = 10 \<and> bcs_no_blocks_responses s = 1 \<and>
         bcs_total_bytes s = 4096 \<and> bcs_exit_reason s = ''completed'')
       (fst (bfc_build_summary \<lparr>bfc_ranges = 3, bfc_blocks = 10, bfc_no_blocks = 1, bfc_bytes = 4096,
          bfc_captured = []\<rparr> ''completed'' w))"

definition test_block_payload_has_required_keys :: bool where
  "test_block_payload_has_required_keys \<longleftrightarrow>
     (let body = [0xab, 0xcd, 0xef];
          payload = jobj [(''cbor_hex'', JString (encode_hex body)), (''cbor_len'', jlen (length body))] in
      field payload ''cbor_hex'' = JString ''abcdef'' \<and> field payload ''cbor_len'' = jnum 3)"

text \<open>Nothing listens on port 1. Every line of the trace is written from a value.\<close>

definition test_fails_gracefully_on_refused_connection :: "(u64 \<Rightarrow> u64 list) \<Rightarrow> world \<Rightarrow> bool" where
  "test_fails_gracefully_on_refused_connection version_keys w \<longleftrightarrow>
     (case run_handshake tracer_open version_keys (\<lambda>addr. Inr [addr]) (\<lambda>addr. Inl ''connection refused'')
         ''127.0.0.1:1'' 1 w of
        Some (result, w') \<Rightarrow> is_err result \<and> length (trace_lines w') = length (trace_file w')
      | None \<Rightarrow> False)"

section \<open>The tests pass\<close>

lemmas trace_test_defs = field_def trace_lines_def trace_event_to_value_def json_get_jobj opt_field_def Let_def

lemma event_tests_pass:
  "test_event_serialises_with_snake_case_fields" "test_protocol_fields_are_omitted_when_none"
  "test_with_states_populates_optional_fields" "test_with_protocol_sets_only_mini_protocol"
  by (simp_all add: test_event_serialises_with_snake_case_fields_def
    test_protocol_fields_are_omitted_when_none_def test_with_states_populates_optional_fields_def
    test_with_protocol_sets_only_mini_protocol_def trace_test_defs new_event_def with_states_def with_protocol_def)

lemma emit_tests_pass:
  assumes "reliable w" "trace_file w = []"
  shows "test_emit_writes_one_json_line_per_call w" "test_concurrent_emits_all_appear_in_file w"
  using assms by (simp_all add: test_emit_writes_one_json_line_per_call_def
    test_concurrent_emits_all_appear_in_file_def trace_test_defs emit_reliable tracer_open_def
    new_event_def stamp_def)

lemma client_tests_pass:
  "test_encode_hex_roundtrip" "test_format_point_origin" "test_format_point_specific"
  "test_round_trip_point_conversion"
  "test_encode_hex_known_value" "test_block_fetch_build_summary_fields w"
  "test_block_payload_has_required_keys" "test_fails_gracefully_on_refused_connection version_keys w"
  by (simp_all add: test_encode_hex_roundtrip_def test_format_point_origin_def test_format_point_specific_def
    test_round_trip_point_conversion_def
    test_encode_hex_known_value_def test_block_fetch_build_summary_fields_def
    test_block_payload_has_required_keys_def test_fails_gracefully_on_refused_connection_def
    trace_test_defs test_simps bfc_build_summary_def run_simps jlen_def jnum_def
    run_handshake_def open_bearer_def bind_run_def res_run_def)

end
