(* ===== verification/LeiosTests.thy ===== *)
theory LeiosTests
  imports TestKit
begin

text \<open>
  The unit tests of \<open>leios_notify_server.rs\<close> and \<open>leios_fetch_server.rs\<close>. Client and server share
  a lossless pair of channels and the client sends whatever it gets, so a test is the session on the
  client's messages: what it receives is what the server put on the wire, and nothing once the
  server's session is over.
\<close>

section \<open>Notifications\<close>

definition test_action :: "string \<Rightarrow> ln_action" where
  "test_action kind = \<lparr>la_kind = kind,
     la_header_bytes = (if kind = ''block_announcement'' then Some ''f6'' else None),
     la_point = (if kind = ''block_offer'' \<or> kind = ''block_txs_offer'' then Some (''1000:'' @ repeat_str 32 ''aa'') else None),
     la_eb_size = (if kind = ''block_offer'' then Some 512 else None),
     la_votes = None, la_duration_secs = None, la_bytes = None\<rparr>"

definition serve_notifications :: "ln_action list \<Rightarrow> ln_message list \<Rightarrow> ln_summary res \<times> wire list" where
  "serve_notifications actions msgs =
     (let (r, w) = execute_leios_notify_script tracer_open actions (map Inr msgs) fresh_world in (r, wire_out w))"

definition test_block_announcement_served_on_request_next :: bool where
  "test_block_announcement_served_on_request_next \<longleftrightarrow>
     (let (srv_result, received) = serve_notifications [test_action ''block_announcement'']
            [MsgLeiosNotificationRequestNext] in
      ok_with (\<lambda>summary. lns_notifications_sent summary = 1) srv_result \<and>
      (case received of LnWire (MsgLeiosBlockAnnouncement raw) # _ \<Rightarrow> raw = [0xf6] | _ \<Rightarrow> False))"

definition test_multiple_actions_served_in_order :: bool where
  "test_multiple_actions_served_in_order \<longleftrightarrow>
     (let (srv_result, received) = serve_notifications
            [test_action ''block_announcement'', test_action ''block_offer'', test_action ''block_txs_offer'']
            (replicate 3 MsgLeiosNotificationRequestNext) in
      ok_with (\<lambda>summary. lns_notifications_sent summary = 3) srv_result \<and>
      (case received of
         [LnWire (MsgLeiosBlockAnnouncement _), LnWire (MsgLeiosBlockOffer _ _), LnWire (MsgLeiosBlockTxsOffer _)] \<Rightarrow> True
       | _ \<Rightarrow> False))"

definition test_notify_done_from_client_terminates_session :: bool where
  "test_notify_done_from_client_terminates_session \<longleftrightarrow>
     ok_with (\<lambda>summary. lns_notifications_sent summary = 0) (fst (serve_notifications [] [LnMsgDone]))"

definition test_block_offer_fields_are_correct :: bool where
  "test_block_offer_fields_are_correct \<longleftrightarrow>
     (let (srv_result, received) = serve_notifications [test_action ''block_offer''] [MsgLeiosNotificationRequestNext] in
      is_ok srv_result \<and>
      (case received of LnWire (MsgLeiosBlockOffer _ eb_size) # _ \<Rightarrow> eb_size = 512 | _ \<Rightarrow> False))"

text \<open>The first \<open>recv\<close> of the client succeeds, the second finds no message.\<close>

definition test_session_ends_when_actions_exhausted :: bool where
  "test_session_ends_when_actions_exhausted \<longleftrightarrow>
     (let (srv_result, received) = serve_notifications [test_action ''block_announcement'']
            (replicate 2 MsgLeiosNotificationRequestNext) in
      is_ok srv_result \<and> length received = 1)"

section \<open>Block fetches\<close>

definition test_block_rule :: "string \<Rightarrow> lf_rule" where
  "test_block_rule block_hex = \<lparr>lfr_on = ''fetch_block'', lfr_send = \<lparr>lfs_kind = ''block'',
     lfs_block_bytes = Some block_hex, lfs_duration_secs = None, lfs_bytes = None\<rparr>, lfr_repeatable = False\<rparr>"

definition test_repeatable_block_rule :: "string \<Rightarrow> lf_rule" where
  "test_repeatable_block_rule block_hex = (test_block_rule block_hex)\<lparr>lfr_repeatable := True\<rparr>"

definition serve_fetches :: "lf_rule list \<Rightarrow> lf_message list \<Rightarrow> lf_summary res \<times> wire list" where
  "serve_fetches rules msgs =
     (let (r, w) = execute_leios_fetch_script tracer_open rules (map Inr msgs) fresh_world in (r, wire_out w))"

definition test_block_served_on_fetch_request :: bool where
  "test_block_served_on_fetch_request \<longleftrightarrow>
     (let (srv_result, received) = serve_fetches [test_block_rule ''a0''] [MsgLeiosBlockRequest NcOrigin] in
      ok_with (\<lambda>summary. lfsum_blocks_served summary = 1) srv_result \<and>
      (case received of LfWire (MsgLeiosBlock block) # _ \<Rightarrow> block = [0xa0] | _ \<Rightarrow> False))"

definition test_repeatable_rule_fires_multiple_times :: bool where
  "test_repeatable_rule_fires_multiple_times \<longleftrightarrow>
     (let (srv_result, received) = serve_fetches [test_repeatable_block_rule ''a0'']
            (replicate 3 (MsgLeiosBlockRequest NcOrigin) @ [LfMsgDone]) in
      ok_with (\<lambda>summary. lfsum_blocks_served summary = 3) srv_result \<and> length received = 3 \<and>
      list_all (\<lambda>m. m = LfWire (MsgLeiosBlock [0xa0])) received)"

definition test_fetch_done_from_client_terminates_session :: bool where
  "test_fetch_done_from_client_terminates_session \<longleftrightarrow>
     ok_with (\<lambda>summary. lfsum_blocks_served summary = 0) (fst (serve_fetches [] [LfMsgDone]))"

definition test_exhausted_rules_return_error :: bool where
  "test_exhausted_rules_return_error \<longleftrightarrow>
     is_err (fst (serve_fetches [test_block_rule ''a0''] (replicate 2 (MsgLeiosBlockRequest NcOrigin))))"

section \<open>The tests pass\<close>

lemma announcement_decodes: "decode_hex ''f6'' = Ok [0xf6]"
  using decode_encode_hex(1) [of "[0xf6]"] by (simp add: test_simps)

lemma block_decodes: "decode_hex ''a0'' = Ok [0xa0]"
  using decode_encode_hex(1) [of "[0xa0]"] by (simp add: test_simps)

lemma test_point_parses: "parse_nc_point (''1000:'' @ repeat_str 32 ''aa'') = Ok (NcSpecific 1000 (replicate 32 0xaa))"
proof -
  have "repeat_str n ''aa'' = encode_hex (replicate n 0xaa)" for n
    by (induction n) (simp_all add: repeat_str_def test_simps)
  then have "''1000:'' @ repeat_str 32 ''aa'' = point_to_str (Specific 1000 (replicate 32 0xaa))"
    by (simp add: test_simps)
  then show ?thesis by (simp only: parse_nc_point_str length_replicate)
qed

lemma test_actions_run:
  "ln_execute_action t (test_action ''block_announcement'') s =
     ln_notify t (MsgLeiosBlockAnnouncement [0xf6]) LeiosNotifyBlockAnnouncement [] s"
  "ln_execute_action t (test_action ''block_offer'') s =
     ln_notify t (MsgLeiosBlockOffer (NcSpecific 1000 (replicate 32 0xaa)) 512) LeiosNotifyBlockOffer [(''eb_size'', jnum 512)] s"
  "ln_execute_action t (test_action ''block_txs_offer'') s =
     ln_notify t (MsgLeiosBlockTxsOffer (NcSpecific 1000 (replicate 32 0xaa))) LeiosNotifyBlockTxsOffer [] s"
  using test_point_parses
  by (simp_all add: fun_eq_iff ln_execute_action_def test_action_def ln_decode_hex_opt_def ln_parse_point_opt_def
    announcement_decodes try_io_def lift_res_def)

lemma ln_notify_reliable:
  "reliable w \<Longrightarrow> ln_notify t m kind ps s w =
     (Ok (False, s\<lparr>notifications_sent := notifications_sent s + 1\<rparr>), logged t (ln_sent kind ps) (put_wire (LnWire m) w))"
  by (simp add: ln_notify_def ln_send_def run_simps)

lemmas notify_test_defs = serve_notifications_def execute_leios_notify_script_def ln_body_def ln_finish_def
  test_actions_run ln_notify_reliable numeral_3_eq_3 numeral_2_eq_2 Let_def run_simps

lemma notify_tests_pass:
  "test_block_announcement_served_on_request_next" "test_notify_done_from_client_terminates_session"
  "test_block_offer_fields_are_correct" "test_session_ends_when_actions_exhausted"
  "test_multiple_actions_served_in_order"
  by (simp_all add: test_block_announcement_served_on_request_next_def
    test_notify_done_from_client_terminates_session_def test_block_offer_fields_are_correct_def
    test_session_ends_when_actions_exhausted_def test_multiple_actions_served_in_order_def notify_test_defs)

lemmas fetch_test_defs = serve_fetches_def test_repeatable_block_rule_def test_block_rule_def
  execute_leios_fetch_script_def lf_body_def lf_serve_request_def lf_next_rule_def lf_matches_on_def
  lf_execute_send_def lf_decode_hex_opt_def block_decodes lf_finish_def numeral_3_eq_3 numeral_2_eq_2 Let_def run_simps

lemma fetch_tests_pass:
  "test_block_served_on_fetch_request" "test_repeatable_rule_fires_multiple_times"
  "test_fetch_done_from_client_terminates_session"
  by (simp_all add: test_block_served_on_fetch_request_def test_repeatable_rule_fires_multiple_times_def
    test_fetch_done_from_client_terminates_session_def fetch_test_defs)

lemma exhausted_test_passes: "test_exhausted_rules_return_error"
  by (simp add: test_exhausted_rules_return_error_def fetch_test_defs anyhow_def)

end
