(* ===== verification/ScenarioTests.thy ===== *)
theory ScenarioTests
  imports TestKit Validate
begin

text \<open>
  The unit tests of \<open>scenario/mod.rs\<close>: reading and validating scenarios. A test calls
  \<open>parse\<close> when it reads and validates in one go; the others read first, and then validate what was read.
\<close>

section \<open>Inputs\<close>

definition parse_scenario :: "json \<Rightarrow> scenario res" where
  "parse_scenario v = try_res (scenario_from_value v) (\<lambda>s. try_res (validate s) (\<lambda>_. Ok s))"

definition step_value :: "string \<Rightarrow> (string \<times> json) list \<Rightarrow> json" where
  "step_value kind params = jobj ((''kind'', JString kind) # params)"

definition scenario_value :: "(string \<times> json) list \<Rightarrow> json list \<Rightarrow> json" where
  "scenario_value own steps = jobj ([(''name'', JString ''t''), (''network_magic'', jnum 1),
     (''trace_output_path'', JString ''t.jsonl'')] @ own @ [(''steps'', JArray steps)])"

text \<open>The scenarios of the client tests have a target address, those of the network tests a network.\<close>

definition client_scenario :: "json list \<Rightarrow> json" where
  "client_scenario = scenario_value [(''target_address'', JString ''x'')]"

definition server_with_network :: "(string \<times> json) list \<Rightarrow> json list \<Rightarrow> json" where
  "server_with_network network = scenario_value [(''network'', jobj network)]"

definition fixture_peer :: "string \<Rightarrow> string \<Rightarrow> json" where
  "fixture_peer pid path = jobj [(''id'', JString pid), (''chain_sync_fixture'', JString path)]"

definition network_with_rule :: "(string \<times> json) list \<Rightarrow> json" where
  "network_with_rule rule = server_with_network [(''start_slot'', jnum 99), (''peers'', JArray [jobj
     [(''id'', JString ''p''), (''chain_sync_fixture'', JString ''f.jsonl''), (''production_rule'', jobj rule)]])] []"

definition param_of :: "step_def \<Rightarrow> string \<Rightarrow> json option" where
  "param_of s k = json_get k (sd_raw_params s)"

text \<open>Read, then look at what validation says.\<close>

definition rejected :: "(string \<Rightarrow> bool) \<Rightarrow> json \<Rightarrow> bool" where
  "rejected p v = ok_with (\<lambda>s. errs_with p (validate s)) (scenario_from_value v)"

definition accepted :: "(scenario \<Rightarrow> bool) \<Rightarrow> json \<Rightarrow> bool" where
  "accepted p v = ok_with (\<lambda>s. is_ok (validate s) \<and> p s) (scenario_from_value v)"

definition minimal :: json where
  "minimal = jobj [(''name'', JString ''test''), (''target_address'', JString ''localhost:3001''),
     (''network_magic'', jnum 42), (''trace_output_path'', JString ''trace.jsonl''),
     (''steps'', JArray [step_value ''connect'' [], step_value ''disconnect'' []])]"

section \<open>Reading steps\<close>

definition test_minimal_scenario_parses :: bool where
  "test_minimal_scenario_parses \<longleftrightarrow>
     ok_with (\<lambda>s. sc_name s = ''test'' \<and> length (sc_steps s) = 2) (parse_scenario minimal)"

definition test_full_scenario_parses :: bool where
  "test_full_scenario_parses \<longleftrightarrow>
     ok_with (\<lambda>s. length (sc_steps s) = 5 \<and> param_of (sc_steps s ! 2) ''count'' = Some (jnum 5) \<and>
         param_of (sc_steps s ! 3) ''batch_size'' = Some (jnum 2))
       (parse_scenario (jobj [(''name'', JString ''full''), (''target_address'', JString ''localhost:3001''),
          (''network_magic'', jnum 42), (''trace_output_path'', JString ''trace.jsonl''),
          (''steps'', JArray [step_value ''connect'' [], step_value ''handshake'' [], step_value ''chain_sync'' [(''count'', jnum 5)], 
            step_value ''block_fetch'' [(''points'', JString ''from_chain_sync''), (''batch_size'', jnum 2)], step_value ''disconnect'' []])]))"

definition test_output_field_parsed_from_step :: bool where
  "test_output_field_parsed_from_step \<longleftrightarrow>
     ok_with (\<lambda>s. sd_output (sc_steps s ! 2) = Some ''my_points'' \<and> param_of (sc_steps s ! 2) ''output'' = None)
       (scenario_from_value (client_scenario [step_value ''connect'' [], step_value ''handshake'' [], step_value ''chain_sync'' [(''count'', jnum 5), (''output'', JString ''my_points'')], step_value ''disconnect'' []]))"

definition test_variable_reference_in_intersection_points_is_valid :: bool where
  "test_variable_reference_in_intersection_points_is_valid \<longleftrightarrow>
     is_ok (parse_scenario (client_scenario [step_value ''connect'' [], step_value ''handshake'' [], 
       step_value ''query_tip'' [(''output'', JString ''tip'')], 
       step_value ''chain_sync'' [(''intersection_points'', jstrs [''$tip.point'']), (''count'', jnum 5)], step_value ''disconnect'' []]))"

definition test_block_fetch_with_variable_ref_is_valid :: bool where
  "test_block_fetch_with_variable_ref_is_valid \<longleftrightarrow>
     is_ok (parse_scenario (client_scenario [step_value ''connect'' [], step_value ''handshake'' [], 
       step_value ''chain_sync'' [(''count'', jnum 3), (''output'', JString ''pts'')], step_value ''block_fetch'' [(''points'', JString ''$pts'')], step_value ''disconnect'' []]))"

definition test_repeat_step_parses_with_body :: bool where
  "test_repeat_step_parses_with_body \<longleftrightarrow>
     ok_with (\<lambda>s. param_of (sc_steps s ! 2) ''times'' = Some (jnum 3) \<and>
         map_option length (Option.bind (param_of (sc_steps s ! 2) ''body'') as_array) = Some 1)
       (parse_scenario (client_scenario [step_value ''connect'' [], step_value ''handshake'' [], 
       step_value ''repeat'' [(''times'', jnum 3), (''body'', JArray [step_value ''chain_sync'' [(''count'', jnum 2)]])], step_value ''disconnect'' []]))"

definition test_repeat_step_with_variable_count_parses :: bool where
  "test_repeat_step_with_variable_count_parses \<longleftrightarrow>
     ok_with (\<lambda>s. param_of (sc_steps s ! 2) ''times'' = Some (JString ''$n''))
       (parse_scenario (client_scenario [step_value ''connect'' [], step_value ''handshake'' [], 
       step_value ''repeat'' [(''times'', JString ''$n''), (''body'', JArray [step_value ''sleep'' [(''duration_secs'', jnum 1)]])], step_value ''disconnect'' []]))"

definition test_query_tip_step_parses :: bool where
  "test_query_tip_step_parses \<longleftrightarrow>
     ok_with (\<lambda>s. sd_kind (sc_steps s ! 2) = QueryTip \<and> sd_output (sc_steps s ! 2) = Some ''tip'')
       (parse_scenario (client_scenario [step_value ''connect'' [], step_value ''handshake'' [], step_value ''query_tip'' [(''output'', JString ''tip'')], step_value ''disconnect'' []]))"

definition test_repeat_requires_times :: bool where
  "test_repeat_requires_times \<longleftrightarrow>
     rejected (\<lambda>_. True) (client_scenario [step_value ''connect'' [], step_value ''repeat'' [(''body'', JArray [])], step_value ''disconnect'' []])"

definition test_repeat_requires_body :: bool where
  "test_repeat_requires_body \<longleftrightarrow>
     rejected (\<lambda>_. True) (client_scenario [step_value ''connect'' [], step_value ''repeat'' [(''times'', jnum 3)], step_value ''disconnect'' []])"

definition test_from_chain_sync_points_parses :: bool where
  "test_from_chain_sync_points_parses \<longleftrightarrow>
     ok_with (\<lambda>s. param_of (sc_steps s ! 3) ''points'' = Some (JString ''from_chain_sync''))
       (scenario_from_value (client_scenario [step_value ''connect'' [], step_value ''handshake'' [], step_value ''chain_sync'' [(''count'', jnum 3)], 
       step_value ''block_fetch'' [(''points'', JString ''from_chain_sync'')], step_value ''disconnect'' []]))"

section \<open>Steps that are refused\<close>

definition test_missing_name_fails :: bool where
  "test_missing_name_fails \<longleftrightarrow>
     is_err (scenario_from_value (jobj [(''target_address'', JString ''x''), (''network_magic'', jnum 1),
       (''trace_output_path'', JString ''t.jsonl''), (''steps'', JArray [])]))"

definition test_invalid_step_kind_fails :: bool where
  "test_invalid_step_kind_fails \<longleftrightarrow>
     is_err (scenario_from_value (client_scenario [step_value ''fly_to_moon'' []]))"

definition test_multiple_connect_disconnect_cycles_are_valid :: bool where
  "test_multiple_connect_disconnect_cycles_are_valid \<longleftrightarrow>
     accepted (\<lambda>_. True) (client_scenario [step_value ''connect'' [], step_value ''handshake'' [], step_value ''disconnect'' [], step_value ''connect'' [], step_value ''handshake'' [], step_value ''disconnect'' []])"

definition test_validate_rejects_block_fetch_without_prior_chain_sync :: bool where
  "test_validate_rejects_block_fetch_without_prior_chain_sync \<longleftrightarrow>
     rejected (\<lambda>_. True) (client_scenario [step_value ''connect'' [], step_value ''handshake'' [], step_value ''block_fetch'' [], step_value ''disconnect'' []])"

definition test_validate_sleep_requires_duration :: bool where
  "test_validate_sleep_requires_duration \<longleftrightarrow>
     rejected (\<lambda>_. True) (client_scenario [step_value ''connect'' [], step_value ''sleep'' [], step_value ''disconnect'' []])"

section \<open>Target addresses\<close>

definition test_connect_per_step_target_address_overrides_scenario_level :: bool where
  "test_connect_per_step_target_address_overrides_scenario_level \<longleftrightarrow>
     accepted (\<lambda>s. sc_target_address s = None \<and>
         param_of (sc_steps s ! 0) ''target_address'' = Some (JString ''host-a:3001''))
       (scenario_value [] [step_value ''connect'' [(''target_address'', JString ''host-a:3001'')], step_value ''handshake'' [], step_value ''disconnect'' []])"

definition test_connect_without_per_step_address_requires_scenario_level :: bool where
  "test_connect_without_per_step_address_requires_scenario_level \<longleftrightarrow>
     rejected (\<lambda>err. str_contains ''target_address'' err) (scenario_value [] [step_value ''connect'' [], step_value ''disconnect'' []])"

definition test_target_address_on_non_connect_step_is_rejected :: bool where
  "test_target_address_on_non_connect_step_is_rejected \<longleftrightarrow>
     rejected (\<lambda>err. str_contains ''target_address is only valid on connect steps'' err)
       (client_scenario [step_value ''connect'' [], step_value ''handshake'' [(''target_address'', JString ''sneaky:9999'')], step_value ''disconnect'' []])"

section \<open>Network declarations\<close>

definition test_network_declaration_parses_and_validates :: bool where
  "test_network_declaration_parses_and_validates \<longleftrightarrow>
     accepted (\<lambda>s. case sc_network s of None \<Rightarrow> False
       | Some net \<Rightarrow> length (net_peers net) = 1 \<and> peer_id (net_peers net ! 0) = ''p1'')
       (server_with_network [(''peers'', JArray [fixture_peer ''p1'' ''f.jsonl''])] [step_value ''listen'' [(''bind_address'', JString ''0.0.0.0:9999'')], step_value ''accept_handshake'' [], 
          step_value ''serve_chain_sync'' [(''as_peer'', JString ''p1'')]])"

definition test_validate_rejects_duplicate_peer_ids :: bool where
  "test_validate_rejects_duplicate_peer_ids \<longleftrightarrow>
     rejected (\<lambda>err. str_contains ''duplicate peer id'' err)
       (server_with_network [(''peers'', JArray [fixture_peer ''same'' ''a.jsonl'', fixture_peer ''same'' ''b.jsonl''])] [step_value ''listen'' []])"

definition test_peer_with_no_content_sources_is_rejected :: bool where
  "test_peer_with_no_content_sources_is_rejected \<longleftrightarrow>
     rejected (\<lambda>err. str_contains ''no content source'' err \<and> str_contains ''production_rule'' err)
       (server_with_network [(''peers'', JArray [jobj [(''id'', JString ''empty_peer'')]])] [step_value ''listen'' []])"

definition test_peer_with_only_production_rule_passes_validation :: bool where
  "test_peer_with_only_production_rule_passes_validation \<longleftrightarrow>
     accepted (\<lambda>_. True) (server_with_network [(''start_slot'', jnum 99), (''peers'', JArray [jobj [(''id'', JString ''p''), (''production_rule'',
         jobj [(''kind'', JString ''every_n_slots''), (''first_slot'', jnum 100), (''interval'', jnum 5)])]])] [step_value ''listen'' []])"

definition test_validate_rejects_as_peer_without_network_block :: bool where
  "test_validate_rejects_as_peer_without_network_block \<longleftrightarrow>
     rejected (\<lambda>err. str_contains ''requires a network declaration'' err)
       (scenario_value [] [step_value ''listen'' [], step_value ''accept_handshake'' [], step_value ''serve_chain_sync'' [(''as_peer'', JString ''nobody'')]])"

definition test_validate_rejects_as_peer_referencing_unknown_peer :: bool where
  "test_validate_rejects_as_peer_referencing_unknown_peer \<longleftrightarrow>
     rejected (\<lambda>err. str_contains ''not declared in the network block'' err)
       (server_with_network [(''peers'', JArray [fixture_peer ''known'' ''f.jsonl''])] [step_value ''listen'' [], step_value ''accept_handshake'' [], 
          step_value ''serve_chain_sync'' [(''as_peer'', JString ''unknown_peer'')]])"

definition test_validate_rejects_as_peer_and_fixture_path_together :: bool where
  "test_validate_rejects_as_peer_and_fixture_path_together \<longleftrightarrow>
     rejected (\<lambda>err. str_contains ''mutually exclusive'' err)
       (server_with_network [(''peers'', JArray [fixture_peer ''p1'' ''f.jsonl''])] [step_value ''listen'' [], step_value ''accept_handshake'' [], 
          step_value ''serve_chain_sync'' [(''as_peer'', JString ''p1''), (''fixture_path'', JString ''other.jsonl'')]])"

section \<open>Production rules\<close>

definition test_every_n_slots_interval_zero_rejected :: bool where
  "test_every_n_slots_interval_zero_rejected \<longleftrightarrow>
     rejected (\<lambda>err. str_contains ''interval must be at least 1'' err)
       (network_with_rule [(''kind'', JString ''every_n_slots''), (''first_slot'', jnum 100), (''interval'', jnum 0)])"

definition test_at_slots_empty_list_rejected :: bool where
  "test_at_slots_empty_list_rejected \<longleftrightarrow>
     rejected (\<lambda>err. str_contains ''non-empty'' err) (network_with_rule [(''kind'', JString ''at_slots''), (''slots'', JArray [])])"

definition test_at_slots_not_strictly_increasing_rejected :: bool where
  "test_at_slots_not_strictly_increasing_rejected \<longleftrightarrow>
     rejected (\<lambda>err. str_contains ''strictly increasing'' err)
       (network_with_rule [(''kind'', JString ''at_slots''), (''slots'', JArray [jnum 100, jnum 105, jnum 100])])"

definition test_every_n_slots_first_slot_before_start_slot_rejected :: bool where
  "test_every_n_slots_first_slot_before_start_slot_rejected \<longleftrightarrow>
     rejected (\<lambda>err. str_contains ''first_slot'' err \<and> str_contains ''start_slot'' err)
       (network_with_rule [(''kind'', JString ''every_n_slots''), (''first_slot'', jnum 50), (''interval'', jnum 5)])"

definition test_forked_from_slot_fork_before_first_rejected :: bool where
  "test_forked_from_slot_fork_before_first_rejected \<longleftrightarrow>
     rejected (\<lambda>err. str_contains ''fork_slot'' err \<and> str_contains ''first_slot'' err)
       (network_with_rule [(''kind'', JString ''forked_from_slot''), (''first_slot'', jnum 100), (''interval'', jnum 5), (''fork_slot'', jnum 90), (''fork_marker'', JString ''x'')])"

definition test_forked_from_slot_empty_marker_rejected :: bool where
  "test_forked_from_slot_empty_marker_rejected \<longleftrightarrow>
     rejected (\<lambda>err. str_contains ''fork_marker must be non-empty'' err)
       (network_with_rule [(''kind'', JString ''forked_from_slot''), (''first_slot'', jnum 100), (''interval'', jnum 5), (''fork_slot'', jnum 110), (''fork_marker'', JString [])])"

definition test_skips_slots_non_increasing_indices_rejected :: bool where
  "test_skips_slots_non_increasing_indices_rejected \<longleftrightarrow>
     rejected (\<lambda>err. str_contains ''strictly increasing'' err)
       (network_with_rule [(''kind'', JString ''skips_slots''), (''first_slot'', jnum 100), (''interval'', jnum 5), (''skip_indices'', JArray [jnum 2, jnum 1])])"

definition test_broken_prev_hash_bad_hex_rejected :: bool where
  "test_broken_prev_hash_bad_hex_rejected \<longleftrightarrow>
     rejected (\<lambda>err. str_contains ''wrong_hash'' err)
       (network_with_rule [(''kind'', JString ''broken_prev_hash''), (''first_slot'', jnum 100), (''interval'', jnum 5), (''break_at_slot'', jnum 110), (''wrong_hash'', JString ''zzzz'')])"

definition test_broken_prev_hash_break_before_first_rejected :: bool where
  "test_broken_prev_hash_break_before_first_rejected \<longleftrightarrow>
     rejected (\<lambda>err. str_contains ''break_at_slot'' err \<and> str_contains ''first_slot'' err)
       (network_with_rule [(''kind'', JString ''broken_prev_hash''), (''first_slot'', jnum 100), (''interval'', jnum 5), (''break_at_slot'', jnum 90), (''wrong_hash'', JString (repeat_str 64 ''0''))])"

definition test_valid_production_rule_passes_validation :: bool where
  "test_valid_production_rule_passes_validation \<longleftrightarrow>
     accepted (\<lambda>_. True) (network_with_rule [(''kind'', JString ''every_n_slots''), (''first_slot'', jnum 100), (''interval'', jnum 5)])"

section \<open>Steps on the network\<close>

definition test_peer_extends_chain_without_peer_id_is_rejected :: bool where
  "test_peer_extends_chain_without_peer_id_is_rejected \<longleftrightarrow>
     rejected (\<lambda>err. str_contains ''peer_extends_chain requires peer_id'' err)
       (server_with_network [(''peers'', JArray [fixture_peer ''p'' ''f.jsonl''])] [step_value ''peer_extends_chain'' [(''slot'', jnum 100), (''block_number'', jnum 1), (''block_hash'', JString (repeat_str 64 ''0'')), (''header_cbor'', JString ''8200'')]])"

definition test_peer_extends_chain_with_peer_id_passes_validation :: bool where
  "test_peer_extends_chain_with_peer_id_passes_validation \<longleftrightarrow>
     accepted (\<lambda>_. True)
       (server_with_network [(''peers'', JArray [fixture_peer ''p'' ''f.jsonl''])] [step_value ''peer_extends_chain'' [(''peer_id'', JString ''p''), (''slot'', jnum 100), (''block_number'', jnum 1), (''block_hash'', JString (repeat_str 64 ''0'')), (''header_cbor'', JString ''8200'')]])"

definition test_advance_to_slot_requires_slot_param :: bool where
  "test_advance_to_slot_requires_slot_param \<longleftrightarrow>
     rejected (\<lambda>err. str_contains ''advance_to_slot requires slot'' err)
       (server_with_network [(''peers'', JArray [fixture_peer ''p'' ''f.jsonl''])] [step_value ''listen'' [], step_value ''accept_handshake'' [], step_value ''advance_to_slot'' []])"

definition test_tick_slots_requires_count_param :: bool where
  "test_tick_slots_requires_count_param \<longleftrightarrow>
     rejected (\<lambda>err. str_contains ''tick_slots requires count'' err) (server_with_network [(''peers'', JArray [fixture_peer ''p'' ''f.jsonl''])] [step_value ''tick_slots'' []])"

definition test_tick_slots_rejects_count_zero :: bool where
  "test_tick_slots_rejects_count_zero \<longleftrightarrow>
     rejected (\<lambda>err. str_contains ''count must be at least 1'' err)
       (server_with_network [(''peers'', JArray [fixture_peer ''p'' ''f.jsonl''])] [step_value ''tick_slots'' [(''count'', jnum 0)]])"

definition test_tick_slots_count_one_is_valid :: bool where
  "test_tick_slots_count_one_is_valid \<longleftrightarrow>
     accepted (\<lambda>_. True) (server_with_network [(''peers'', JArray [fixture_peer ''p'' ''f.jsonl''])] [step_value ''tick_slots'' [(''count'', jnum 1)]])"

definition test_network_start_slot_parses :: bool where
  "test_network_start_slot_parses \<longleftrightarrow>
     accepted (\<lambda>s. case sc_network s of None \<Rightarrow> False
       | Some net \<Rightarrow> start_slot net = Some 500 \<and> slot_length_ms net = Some 200)
       (server_with_network [(''start_slot'', jnum 500), (''slot_length_ms'', jnum 200), (''peers'', JArray [fixture_peer ''p'' ''f.jsonl''])] 
          [step_value ''tick_slots'' [(''count'', jnum 1)]])"

section \<open>Points\<close>

definition test_parse_point_origin :: bool where
  "test_parse_point_origin \<longleftrightarrow>
     parse_point ''origin'' = Ok Origin"

definition test_parse_point_specific :: bool where
  "test_parse_point_specific \<longleftrightarrow>
     parse_point ''62:aabb'' = Ok (Specific 62 [0xaa, 0xbb])"

definition test_parse_point_invalid_format :: bool where
  "test_parse_point_invalid_format \<longleftrightarrow>
     is_err (parse_point ''notapoint'') \<and> is_err (parse_point ''abc:gg'') \<and> is_err (parse_point ''notanumber:aabb'')"

section \<open>The tests pass\<close>

lemmas reader_defs = parse_scenario_def rejected_def accepted_def minimal_def step_value_def scenario_value_def
  client_scenario_def server_with_network_def fixture_peer_def network_with_rule_def param_of_def
  scenario_from_value_def struct_value_def req_param_def read_param_def string_from_value_def
  opt_string_from_value_def field_or_null_def u64_from_value_def opt_from_value_def steps_from_value_def
  step_def_from_value_def step_kind_from_value_def step_kind_of_name_def all_step_kinds_def take_field_def
  network_from_value_def peer_from_value_def production_rule_from_value_def production_rule_of_tag_def
  tagged_value_def vec_from_value_def values_from_value_def usize_from_value_def jnum_def jobj_def

lemmas scenario_test_defs = reader_defs validate_defs test_simps

lemma length_repeat_str [simp]: "length (repeat_str n s) = n * length s"
  by (induction n) (simp_all add: repeat_str_def)

text \<open>The scenarios of the production rules differ in the rule only.\<close>

definition rule_scenario :: "production_rule \<Rightarrow> scenario" where
  "rule_scenario r = \<lparr>sc_name = ''t'', sc_description = None, sc_target_address = None, sc_network_magic = 1,
     sc_trace_output_path = ''t.jsonl'', sc_expected_outcome = None, sc_network = Some \<lparr>net_peers =
       [\<lparr>peer_id = ''p'', chain_sync_fixture = Some ''f.jsonl'', block_fetch_fixture = None, peer_description = None,
         production_rule = Some r\<rparr>], start_slot = Some 99, slot_length_ms = None\<rparr>, sc_steps = [],
     sc_sut_genesis_time_unix = None, sc_sut_slot_duration_ms = None\<rparr>"

lemma rule_scenario_read:
  assumes "production_rule_from_value (jobj rule) = Ok r"
  shows "scenario_from_value (network_with_rule rule) = Ok (rule_scenario r)"
proof -
  obtain m where "jobj rule = JObject m" using jobj_ok [of rule] by blast
  with assms show ?thesis
    by (simp add: network_with_rule_def server_with_network_def scenario_value_def rule_scenario_def
      scenario_from_value_def struct_value_def req_param_def read_param_def string_from_value_def
      opt_string_from_value_def field_or_null_def u64_from_value_def opt_from_value_def steps_from_value_def
      network_from_value_def peer_from_value_def vec_from_value_def values_from_value_def jnum_def json_get_jobj
      jobj_def [of "_ # _"])
qed

lemma rule_scenario_errors:
  "validation_errors (rule_scenario r) = Ok (production_rule_errors ''network.peers[\"p\"]'' (Some 99) r)"
  by (simp add: rule_scenario_def validate_defs quoted_def)

lemma rule_rejected:
  assumes "production_rule_from_value (jobj rule) = Ok r"
    and "production_rule_errors ''network.peers[\"p\"]'' (Some 99) r = err # errs"
    and "p (''scenario \"t\" has validation errors:'' @ [CHR 0x0A] @ ''  - '' @ join_lines ([CHR 0x0A] @ ''  - '') (err # errs))"
  shows "rejected p (network_with_rule rule)"
proof -
  have "sc_name (rule_scenario r) = ''t''" by (simp add: rule_scenario_def)
  with assms(3) show ?thesis
    by (simp add: rejected_def rule_scenario_read [OF assms(1)] validate_def rule_scenario_errors assms(2) quoted_def)
qed

lemma reading_1_tests_pass:
  "test_minimal_scenario_parses" "test_full_scenario_parses" "test_output_field_parsed_from_step"
  "test_variable_reference_in_intersection_points_is_valid" "test_block_fetch_with_variable_ref_is_valid"
  "test_repeat_step_parses_with_body"
  by (simp_all add: scenario_test_defs test_minimal_scenario_parses_def test_full_scenario_parses_def
    test_output_field_parsed_from_step_def test_variable_reference_in_intersection_points_is_valid_def
    test_block_fetch_with_variable_ref_is_valid_def test_repeat_step_parses_with_body_def)

lemma reading_2_tests_pass:
  "test_repeat_step_with_variable_count_parses" "test_query_tip_step_parses" "test_repeat_requires_times"
  "test_repeat_requires_body" "test_from_chain_sync_points_parses"
  by (simp_all add: scenario_test_defs test_repeat_step_with_variable_count_parses_def
    test_query_tip_step_parses_def test_repeat_requires_times_def test_repeat_requires_body_def
    test_from_chain_sync_points_parses_def)

lemma refusal_tests_pass:
  "test_missing_name_fails" "test_invalid_step_kind_fails"
  "test_multiple_connect_disconnect_cycles_are_valid"
  "test_validate_rejects_block_fetch_without_prior_chain_sync" "test_validate_sleep_requires_duration"
  by (simp_all add: scenario_test_defs test_missing_name_fails_def test_invalid_step_kind_fails_def
    test_multiple_connect_disconnect_cycles_are_valid_def
    test_validate_rejects_block_fetch_without_prior_chain_sync_def test_validate_sleep_requires_duration_def)

lemma address_tests_pass:
  "test_connect_per_step_target_address_overrides_scenario_level"
  "test_connect_without_per_step_address_requires_scenario_level"
  "test_target_address_on_non_connect_step_is_rejected"
  by (simp_all add: scenario_test_defs test_connect_per_step_target_address_overrides_scenario_level_def
    test_connect_without_per_step_address_requires_scenario_level_def
    test_target_address_on_non_connect_step_is_rejected_def)

lemma network_declaration_1_tests_pass:
  "test_network_declaration_parses_and_validates" "test_validate_rejects_duplicate_peer_ids"
  "test_peer_with_no_content_sources_is_rejected" "test_peer_with_only_production_rule_passes_validation"
  by (simp_all add: scenario_test_defs test_network_declaration_parses_and_validates_def
    test_validate_rejects_duplicate_peer_ids_def test_peer_with_no_content_sources_is_rejected_def
    test_peer_with_only_production_rule_passes_validation_def)

lemma network_declaration_2_tests_pass:
  "test_validate_rejects_as_peer_without_network_block"
  "test_validate_rejects_as_peer_referencing_unknown_peer"
  "test_validate_rejects_as_peer_and_fixture_path_together"
  by (simp_all add: scenario_test_defs test_validate_rejects_as_peer_without_network_block_def
    test_validate_rejects_as_peer_referencing_unknown_peer_def
    test_validate_rejects_as_peer_and_fixture_path_together_def)

lemmas rule_reader_defs = production_rule_from_value_def production_rule_of_tag_def tagged_value_def
  struct_value_def req_param_def string_from_value_def u64_from_value_def vec_from_value_def
  values_from_value_def usize_from_value_def jnum_def jobj_def

lemmas rule_error_defs = interval_errors_def start_errors_def at_slots_errors_def skip_errors_def
  marker_errors_def wrong_hash_errors_def err_if_def

lemma every_n_slots_interval_zero_rejected_passes: "test_every_n_slots_interval_zero_rejected"
  unfolding test_every_n_slots_interval_zero_rejected_def
  by (rule rule_rejected [of _ "EveryNSlots 100 0"],
    simp add: rule_reader_defs, simp add: rule_error_defs, simp add: test_simps u64_str_def em_dash_def)

lemma at_slots_empty_list_rejected_passes: "test_at_slots_empty_list_rejected"
  unfolding test_at_slots_empty_list_rejected_def
  by (rule rule_rejected [of _ "AtSlots []"],
    simp add: rule_reader_defs, simp add: rule_error_defs, simp add: test_simps u64_str_def em_dash_def)

lemma at_slots_not_strictly_increasing_rejected_passes: "test_at_slots_not_strictly_increasing_rejected"
  unfolding test_at_slots_not_strictly_increasing_rejected_def
  by (rule rule_rejected [of _ "AtSlots [100, 105, 100]"],
    simp add: rule_reader_defs, simp add: rule_error_defs, simp add: test_simps u64_str_def em_dash_def)

lemma every_n_slots_first_slot_before_start_slot_rejected_passes: "test_every_n_slots_first_slot_before_start_slot_rejected"
  unfolding test_every_n_slots_first_slot_before_start_slot_rejected_def
  by (rule rule_rejected [of _ "EveryNSlots 50 5"],
    simp add: rule_reader_defs, simp add: rule_error_defs, simp add: test_simps u64_str_def em_dash_def)

lemma forked_from_slot_fork_before_first_rejected_passes: "test_forked_from_slot_fork_before_first_rejected"
  unfolding test_forked_from_slot_fork_before_first_rejected_def
  by (rule rule_rejected [of _ "ForkedFromSlot 100 5 90 ''x''"],
    simp add: rule_reader_defs, simp add: rule_error_defs, simp add: test_simps u64_str_def em_dash_def)

lemma forked_from_slot_empty_marker_rejected_passes: "test_forked_from_slot_empty_marker_rejected"
  unfolding test_forked_from_slot_empty_marker_rejected_def
  by (rule rule_rejected [of _ "ForkedFromSlot 100 5 110 []"],
    simp add: rule_reader_defs, simp add: rule_error_defs, simp add: test_simps u64_str_def em_dash_def)

lemma skips_slots_non_increasing_indices_rejected_passes: "test_skips_slots_non_increasing_indices_rejected"
  unfolding test_skips_slots_non_increasing_indices_rejected_def
  by (rule rule_rejected [of _ "SkipsSlots 100 5 [2, 1]"],
    simp add: rule_reader_defs, simp add: rule_error_defs, simp add: test_simps u64_str_def em_dash_def)

lemma broken_prev_hash_bad_hex_rejected_passes: "test_broken_prev_hash_bad_hex_rejected"
  unfolding test_broken_prev_hash_bad_hex_rejected_def
  by (rule rule_rejected [of _ "BrokenPrevHash 100 5 110 ''zzzz''"],
    simp add: rule_reader_defs, simp add: rule_error_defs, simp add: test_simps u64_str_def em_dash_def)

lemma broken_prev_hash_break_before_first_rejected_passes: "test_broken_prev_hash_break_before_first_rejected"
  unfolding test_broken_prev_hash_break_before_first_rejected_def
  by (rule rule_rejected [of _ "BrokenPrevHash 100 5 90 (repeat_str 64 ''0'')"],
    simp add: rule_reader_defs, simp add: rule_error_defs, simp add: test_simps u64_str_def em_dash_def)

lemma valid_production_rule_passes: "test_valid_production_rule_passes_validation"
proof -
  have "production_rule_from_value (jobj [(''kind'', JString ''every_n_slots''), (''first_slot'', jnum 100),
      (''interval'', jnum 5)]) = Ok (EveryNSlots 100 5)"
    by (simp add: rule_reader_defs)
  note read = rule_scenario_read [OF this]
  have "validate (rule_scenario (EveryNSlots 100 5)) = Ok ()"
    by (simp add: validate_def rule_scenario_errors rule_error_defs)
  with read show ?thesis by (simp add: test_valid_production_rule_passes_validation_def accepted_def)
qed

lemma network_step_1_tests_pass:
  "test_peer_extends_chain_without_peer_id_is_rejected"
  "test_peer_extends_chain_with_peer_id_passes_validation" "test_advance_to_slot_requires_slot_param"
  "test_tick_slots_requires_count_param"
  by (simp_all add: scenario_test_defs test_peer_extends_chain_without_peer_id_is_rejected_def
    test_peer_extends_chain_with_peer_id_passes_validation_def test_advance_to_slot_requires_slot_param_def
    test_tick_slots_requires_count_param_def)

lemma network_step_2_tests_pass:
  "test_tick_slots_rejects_count_zero" "test_tick_slots_count_one_is_valid" "test_network_start_slot_parses"
  by (simp_all add: scenario_test_defs test_tick_slots_rejects_count_zero_def
    test_tick_slots_count_one_is_valid_def test_network_start_slot_parses_def)

lemma scenario_point_tests_pass:
  "test_parse_point_origin" "test_parse_point_specific" "test_parse_point_invalid_format"
proof -
  show "test_parse_point_origin" by (simp add: test_parse_point_origin_def parse_point_def)
  have "point_to_str (Specific 62 [0xaa, 0xbb]) = ''62:aabb''" by (simp add: test_simps)
  then show "test_parse_point_specific"
    using parse_point_Specific [of 62 "[0xaa, 0xbb]"] by (simp only: test_parse_point_specific_def)
  show "test_parse_point_invalid_format"
    by (simp add: test_parse_point_invalid_format_def parse_point_def test_simps)
qed

end
