(* ===== verification/RunnerTests.thy ===== *)
theory RunnerTests
  imports TestKit Execute RunnerLaws
begin

text \<open>
  The unit tests of \<open>scenario/runner.rs\<close>, for every environment and schedule. A test starts from a
  state that its helper builds, in a world where every write succeeds. The test on the constant list of
  subscribed protocols is left out with the protocol numbers, which are the network package's.
\<close>

section \<open>Assertions\<close>

definition test_events :: "string list \<Rightarrow> json list" where
  "test_events kinds = map (\<lambda>k. jobj [(''kind'', JString k)]) kinds"

definition all_pass :: "assertion_result list \<Rightarrow> bool" where
  "all_pass rs \<longleftrightarrow> list_all ar_passed rs"

definition any_fail :: "assertion_result list \<Rightarrow> bool" where
  "any_fail rs \<longleftrightarrow> list_ex (\<lambda>r. \<not> ar_passed r) rs"

definition no_assertions :: assertions where
  "no_assertions = \<lparr>min_events = None, must_contain_kind = None, must_not_contain_kind = None\<rparr>"

definition test_empty_assertions_always_pass :: bool where
  "test_empty_assertions_always_pass \<longleftrightarrow> evaluate_assertions no_assertions (test_events [''foo'']) = []"

definition test_min_events_passes :: bool where
  "test_min_events_passes \<longleftrightarrow>
     all_pass (evaluate_assertions (no_assertions\<lparr>min_events := Some 2\<rparr>) (test_events [''a'', ''b'', ''c'']))"

definition test_min_events_fails :: bool where
  "test_min_events_fails \<longleftrightarrow>
     any_fail (evaluate_assertions (no_assertions\<lparr>min_events := Some 5\<rparr>) (test_events [''a'', ''b'']))"

definition test_must_contain_kind_passes :: bool where
  "test_must_contain_kind_passes \<longleftrightarrow>
     all_pass (evaluate_assertions (no_assertions\<lparr>must_contain_kind := Some [''chain_sync_roll_forward'']\<rparr>)
       (test_events [''chain_sync_started'', ''chain_sync_roll_forward'']))"

definition test_must_contain_kind_fails :: bool where
  "test_must_contain_kind_fails \<longleftrightarrow>
     any_fail (evaluate_assertions (no_assertions\<lparr>must_contain_kind := Some [''chain_sync_roll_forward'']\<rparr>)
       (test_events [''chain_sync_started'']))"

definition test_must_not_contain_kind_passes :: bool where
  "test_must_not_contain_kind_passes \<longleftrightarrow>
     all_pass (evaluate_assertions (no_assertions\<lparr>must_not_contain_kind := Some [''error'']\<rparr>)
       (test_events [''handshake_completed'']))"

definition test_must_not_contain_kind_fails :: bool where
  "test_must_not_contain_kind_fails \<longleftrightarrow>
     any_fail (evaluate_assertions (no_assertions\<lparr>must_not_contain_kind := Some [''error'']\<rparr>)
       (test_events [''error'', ''handshake_completed'']))"

definition test_multiple_assertions_all_pass :: bool where
  "test_multiple_assertions_all_pass \<longleftrightarrow>
     all_pass (evaluate_assertions \<lparr>min_events = Some 2, must_contain_kind = Some [''handshake_completed''],
         must_not_contain_kind = Some [''error'']\<rparr> (test_events [''handshake_started'', ''handshake_completed'']))"

definition test_multiple_assertions_partial_fail :: bool where
  "test_multiple_assertions_partial_fail \<longleftrightarrow>
     (let results = evaluate_assertions \<lparr>min_events = Some 10, must_contain_kind = Some [''handshake_completed''],
          must_not_contain_kind = None\<rparr> (test_events [''handshake_completed'']) in
      list_ex ar_passed results \<and> any_fail results)"

section \<open>The initial state\<close>

definition test_runner_state_starts_with_no_workers :: bool where
  "test_runner_state_starts_with_no_workers \<longleftrightarrow> rn_connections runner_default = [] \<and>
     rn_listeners runner_default = {} \<and> rn_server_connections runner_default = []"

definition test_network_without_start_slot_does_not_activate_slot_tracking :: bool where
  "test_network_without_start_slot_does_not_activate_slot_tracking \<longleftrightarrow>
     (let network = Some \<lparr>net_peers = [\<lparr>peer_id = ''p'', chain_sync_fixture = Some ''fixtures/devnet_genesis.jsonl'',
            block_fetch_fixture = None, peer_description = None, production_rule = None\<rparr>],
            start_slot = None, slot_length_ms = None\<rparr>;
          current_slot = map_option (\<lambda>_. SlotHandle) (Option.bind network start_slot) in
      current_slot = None)"

text \<open>The test that needs a node: \<open>devnet_up\<close> says that one answers at the address and accepts a version.\<close>

definition devnet_magic :: u64 where
  "devnet_magic = 42"

definition devnet_up :: "env \<Rightarrow> string \<Rightarrow> bool" where
  "devnet_up e addr \<longleftrightarrow> (\<exists>socket_addr rest link v. resolve_address e addr = Inr (socket_addr # rest) \<and>
     dial e 0 socket_addr = Inr link \<and> pl_hs link = Some (Inr (Accepted v)))"

text \<open>The step returns, with this result and this next state.\<close>

definition returns :: "('a res \<Rightarrow> runner \<Rightarrow> world \<Rightarrow> bool) \<Rightarrow> ('a res \<times> runner \<times> world) option \<Rightarrow> bool" where
  "returns p r = (case r of None \<Rightarrow> False | Some (res, rn, w) \<Rightarrow> p res rn w)"

definition test_background_workers_spawned_after_handshake_not_before :: "env \<Rightarrow> scheduler \<Rightarrow> bool" where
  "test_background_workers_spawned_after_handshake_not_before e sched \<longleftrightarrow>
     (let run = (\<lambda>kind. execute_step e sched tracer_open ''localhost:3001'' devnet_magic (plain_step kind) (jobj [])) in
      returns (\<lambda>r1 rn1 w1. is_ok r1 \<and>
          (case map_of (rn_connections rn1) ''default'' of None \<Rightarrow> False
           | Some conn \<Rightarrow> \<not> cl_ka_handle conn \<and> \<not> cl_ts_handle conn \<and> cl_ka_channels conn \<noteq> None \<and>
               cl_ts_channels conn \<noteq> None) \<and>
          returns (\<lambda>r2 rn2 w2. is_ok r2 \<and>
              (case map_of (rn_connections rn2) ''default'' of None \<Rightarrow> False
               | Some conn \<Rightarrow> cl_ka_handle conn \<and> cl_ts_handle conn \<and> cl_ka_channels conn = None \<and>
                   cl_ts_channels conn = None))
            (run Handshake (rn1, w1)))
        (run Connect (runner_default, fresh_world)))"

section \<open>The clock\<close>

definition slot_tracer :: tracer where
  "slot_tracer = with_slot_tracker tracer_open (Some SlotHandle)"

definition make_slot_state :: "u64 \<Rightarrow> runner \<times> world" where
  "make_slot_state start =
     (runner_default\<lparr>rn_current_slot := Some SlotHandle\<rparr>, fresh_world\<lparr>slot_cell := start\<rparr>)"

definition slot_step :: "step_kind \<Rightarrow> json \<Rightarrow> step_def" where
  "slot_step kind params = (plain_step kind)\<lparr>sd_raw_params := params\<rparr>"

definition run_slot_step :: "env \<Rightarrow> scheduler \<Rightarrow> step_kind \<Rightarrow> (string \<times> json) list \<Rightarrow> unit run" where
  "run_slot_step e sched kind params =
     execute_step e sched slot_tracer [] 42 (slot_step kind (jobj params)) (jobj params)"

definition test_advance_to_slot_stores_new_value :: "env \<Rightarrow> scheduler \<Rightarrow> bool" where
  "test_advance_to_slot_stores_new_value e sched \<longleftrightarrow>
     returns (\<lambda>r _ w. is_ok r \<and> slot_cell w = 200)
       (run_slot_step e sched AdvanceToSlot [(''slot'', jnum 200)] (make_slot_state 100))"

definition test_advance_to_slot_rejects_same_slot :: "env \<Rightarrow> scheduler \<Rightarrow> bool" where
  "test_advance_to_slot_rejects_same_slot e sched \<longleftrightarrow>
     returns (\<lambda>r _ w. errs_with (\<lambda>err. str_contains ''not greater than current slot'' err) r \<and> slot_cell w = 100)
       (run_slot_step e sched AdvanceToSlot [(''slot'', jnum 100)] (make_slot_state 100))"

definition test_advance_to_slot_rejects_rewind :: "env \<Rightarrow> scheduler \<Rightarrow> bool" where
  "test_advance_to_slot_rejects_rewind e sched \<longleftrightarrow>
     returns (\<lambda>r _ _. errs_with (\<lambda>err. str_contains ''not greater than current slot'' err) r)
       (run_slot_step e sched AdvanceToSlot [(''slot'', jnum 100)] (make_slot_state 200))"

definition test_tick_slots_advances_by_count :: "env \<Rightarrow> scheduler \<Rightarrow> bool" where
  "test_tick_slots_advances_by_count e sched \<longleftrightarrow>
     returns (\<lambda>r _ w. is_ok r \<and> slot_cell w = 75)
       (run_slot_step e sched TickSlots [(''count'', jnum 25)] (make_slot_state 50))"

definition test_tick_slots_count_one_works :: "env \<Rightarrow> scheduler \<Rightarrow> bool" where
  "test_tick_slots_count_one_works e sched \<longleftrightarrow>
     returns (\<lambda>r _ w. is_ok r \<and> slot_cell w = 1)
       (run_slot_step e sched TickSlots [(''count'', jnum 1)] (make_slot_state 0))"

definition test_slot_appears_on_trace_events_when_network_declared :: "env \<Rightarrow> scheduler \<Rightarrow> bool" where
  "test_slot_appears_on_trace_events_when_network_declared e sched \<longleftrightarrow>
     returns (\<lambda>r _ w. is_ok r \<and>
         (case find (\<lambda>ev. json_get ''kind'' ev = Some (JString ''slot_advanced'')) (map trace_event_to_value (trace_file w)) of
            None \<Rightarrow> False
          | Some slot_advanced \<Rightarrow> json_get ''slot'' slot_advanced = Some (jnum 50) \<and>
              (case json_get ''payload'' slot_advanced of None \<Rightarrow> False
               | Some payload \<Rightarrow> json_get ''from_slot'' payload = Some (jnum 42) \<and>
                   json_get ''to_slot'' payload = Some (jnum 50) \<and>
                   json_get ''reason'' payload = Some (JString ''tick_slots''))))
       (run_slot_step e sched TickSlots [(''count'', jnum 8)] (make_slot_state 42))"

section \<open>Extending a peer's chain\<close>

definition run_peer_extends_chain ::
    "env \<Rightarrow> scheduler \<Rightarrow> string \<Rightarrow> u64 \<Rightarrow> u64 \<Rightarrow> string \<Rightarrow> string \<Rightarrow> unit run" where
  "run_peer_extends_chain e sched pid slot block_number block_hash_hex header_cbor_hex =
     (let params = jobj [(''peer_id'', JString pid), (''slot'', jnum slot), (''block_number'', jnum block_number),
            (''block_hash'', JString block_hash_hex), (''header_cbor'', JString header_cbor_hex)] in
      execute_step e sched tracer_open [] 42 (slot_step PeerExtendsChain params) params)"

definition state_with_peer :: "string \<Rightarrow> runner \<times> world" where
  "state_with_peer pid = (runner_default\<lparr>rn_peers := [(pid, peer_state_new\<lparr>ps_chain_entries := [
     \<lparr>ce_slot = 10, ce_block_hash = replicate 32 1, ce_block_number = 1, ce_header_cbor = [0xaa], ce_variant = 6\<rparr>]\<rparr>)]\<rparr>,
     fresh_world)"

definition peer_entries :: "runner \<Rightarrow> string \<Rightarrow> chain_entry list" where
  "peer_entries rn pid = (case map_of (rn_peers rn) pid of Some ps \<Rightarrow> ps_chain_entries ps | None \<Rightarrow> [])"

definition test_peer_extends_chain_appends_new_entry :: "env \<Rightarrow> scheduler \<Rightarrow> bool" where
  "test_peer_extends_chain_appends_new_entry e sched \<longleftrightarrow>
     returns (\<lambda>r rn _. is_ok r \<and> length (peer_entries rn ''p'') = 2 \<and> ce_slot (peer_entries rn ''p'' ! 1) = 20)
       (run_peer_extends_chain e sched ''p'' 20 2 (repeat_str 32 ''aa'') ''8200'' (state_with_peer ''p''))"

definition test_peer_extends_chain_rejects_same_slot :: "env \<Rightarrow> scheduler \<Rightarrow> bool" where
  "test_peer_extends_chain_rejects_same_slot e sched \<longleftrightarrow>
     returns (\<lambda>r _ _. errs_with (\<lambda>err. str_contains ''not greater than current chain tip slot'' err) r)
       (run_peer_extends_chain e sched ''p'' 10 2 (repeat_str 32 ''bb'') ''8200'' (state_with_peer ''p''))"

definition test_peer_extends_chain_rejects_rewind :: "env \<Rightarrow> scheduler \<Rightarrow> bool" where
  "test_peer_extends_chain_rejects_rewind e sched \<longleftrightarrow>
     returns (\<lambda>r _ _. errs_with (\<lambda>err. str_contains ''not greater than current chain tip slot'' err) r)
       (run_peer_extends_chain e sched ''p'' 5 2 (repeat_str 32 ''cc'') ''8200'' (state_with_peer ''p''))"

definition test_peer_extends_chain_accepts_any_slot_when_empty :: "env \<Rightarrow> scheduler \<Rightarrow> bool" where
  "test_peer_extends_chain_accepts_any_slot_when_empty e sched \<longleftrightarrow>
     returns (\<lambda>r rn _. is_ok r \<and> length (peer_entries rn ''p'') = 1)
       (run_peer_extends_chain e sched ''p'' 1 1 (repeat_str 32 ''dd'') ''8200''
          (runner_default\<lparr>rn_peers := [(''p'', peer_state_new)]\<rparr>, fresh_world))"

definition test_peer_state_slot_filter_unit :: bool where
  "test_peer_state_slot_filter_unit \<longleftrightarrow>
     (let ps = peer_state_new\<lparr>ps_chain_entries := map (\<lambda>i. let slot = 100 + 10 * i in
            \<lparr>ce_slot = slot, ce_block_hash = replicate 32 (ucast slot), ce_block_number = i,
             ce_header_cbor = [0x82, 0x82, ucast i, 0x18, ucast slot, 0xf6], ce_variant = 6\<rparr>)
            [0, 1, 2, 3, 4, 5, 6, 7, 8, 9]\<rparr>;
          visible = filtered_fixture_chain ps (Some 145) in
      length (ps_chain_entries ps) = 10 \<and> length (fc_entries visible) = 5 \<and> fe_slot (last (fc_entries visible)) = 140 \<and>
      length (fc_entries (filtered_fixture_chain ps (Some 200))) = 10 \<and>
      length (fc_entries (filtered_fixture_chain ps None)) = 10)"

section \<open>The tests pass\<close>

lemma assertion_tests_pass:
  "test_empty_assertions_always_pass" "test_min_events_passes" "test_min_events_fails"
  "test_must_contain_kind_passes" "test_must_contain_kind_fails" "test_must_not_contain_kind_passes"
  "test_must_not_contain_kind_fails" "test_multiple_assertions_all_pass" "test_multiple_assertions_partial_fail"
  by (simp_all add: test_empty_assertions_always_pass_def test_min_events_passes_def test_min_events_fails_def
    test_must_contain_kind_passes_def test_must_contain_kind_fails_def test_must_not_contain_kind_passes_def
    test_must_not_contain_kind_fails_def test_multiple_assertions_all_pass_def
    test_multiple_assertions_partial_fail_def evaluate_assertions_def no_assertions_def test_events_def
    all_pass_def any_fail_def has_kind_def json_get_jobj Let_def)

lemma initial_state_tests_pass:
  "test_runner_state_starts_with_no_workers" "test_network_without_start_slot_does_not_activate_slot_tracking"
  by (simp_all add: test_runner_state_starts_with_no_workers_def runner_default_def
    test_network_without_start_slot_does_not_activate_slot_tracking_def)

lemma workers_test_passes:
  assumes "devnet_up e ''localhost:3001''"
  shows "test_background_workers_spawned_after_handshake_not_before e sched"
proof -
  from assms obtain socket_addr rest link v where up: "resolve_address e ''localhost:3001'' = Inr (socket_addr # rest)"
    "dial e 0 socket_addr = Inr link" "pl_hs link = Some (Inr (Accepted v))" unfolding devnet_up_def by blast
  have params: "step_params_from_value (jobj []) = Ok no_params"
    using step_params_empty by (simp add: jobj_def)
  show ?thesis
    using up by (simp add: test_background_workers_spawned_after_handshake_not_before_def execute_step.simps params
      plain_step_def returns_def connect_def open_link_def open_bearer_def runner_default_def no_params_def
      conn_as_def conn_on_def name_or_default_def modify_runner_def new_connection_def handshake_step_def
      checked_out_client_def take_channel_def peer_tracer_def on_conn_def on_world_def on_runner_def
      start_workers_def bind_run_def handshake_accepted_run do_emit_reliable Let_def)
qed

lemmas param_reader_defs = step_params_from_value_def read_param_def field_or_null_def opt_strings_from_value_def
  opt_from_value_def opt_usize_from_value_def opt_string_from_value_def u64_from_value_def no_params_def jobj_def jnum_def

lemma slot_params: "step_params_from_value (jobj [(''slot'', jnum n)]) = Ok (no_params\<lparr>sp_slot := Some n\<rparr>)"
  by (simp add: param_reader_defs)

lemma count_params: "step_params_from_value (jobj [(''count'', jnum n)]) = Ok (no_params\<lparr>sp_count := Some n\<rparr>)"
  by (simp add: param_reader_defs)

lemma extension_params:
  "step_params_from_value (jobj [(''peer_id'', JString pid), (''slot'', jnum slot), (''block_number'', jnum bn),
     (''block_hash'', JString hash), (''header_cbor'', JString cbor)]) =
   Ok (no_params\<lparr>sp_peer_id := Some pid, sp_slot := Some slot, sp_block_number := Some bn,
     sp_block_hash := Some hash, sp_header_cbor := Some cbor\<rparr>)"
  by (simp add: param_reader_defs)

lemma slot_steps_run:
  "run_slot_step e sched AdvanceToSlot [(''slot'', jnum n)] s = advance_to_slot e slot_tracer (no_params\<lparr>sp_slot := Some n\<rparr>) s"
  "run_slot_step e sched TickSlots [(''count'', jnum n)] s = tick_slots e slot_tracer (no_params\<lparr>sp_count := Some n\<rparr>) s"
  by (simp_all add: run_slot_step_def slot_params count_params slot_step_def plain_step_def execute_step.simps)

lemmas clock_defs = slot_steps_run returns_def make_slot_state_def runner_default_def no_params_def
  advance_to_slot_def tick_slots_def load_slot_def store_slot_def produce_def apply_production_rules_def try_div_def
  run_simps

lemma clock_tests_pass:
  "test_advance_to_slot_stores_new_value e sched" "test_tick_slots_advances_by_count e sched"
  "test_tick_slots_count_one_works e sched"
  by (simp_all add: test_advance_to_slot_stores_new_value_def test_tick_slots_advances_by_count_def
    test_tick_slots_count_one_works_def clock_defs)

lemma clock_rejection_tests_pass:
  "test_advance_to_slot_rejects_same_slot e sched" "test_advance_to_slot_rejects_rewind e sched"
  by (simp_all add: test_advance_to_slot_rejects_same_slot_def test_advance_to_slot_rejects_rewind_def
    clock_defs bind_run_def test_simps)

lemma slot_stamp_test_passes: "test_slot_appears_on_trace_events_when_network_declared e sched"
  by (simp add: test_slot_appears_on_trace_events_when_network_declared_def clock_defs slot_tracer_def
    with_slot_tracker_def or_else_def tracer_open_def slot_advanced_event_def trace_event_to_value_def opt_field_def
    stamp_def with_slot_def new_event_def json_get_jobj)

lemma extension_run:
  "run_peer_extends_chain e sched pid slot bn hash cbor s = peer_extends_chain tracer_open (no_params\<lparr>sp_peer_id := Some pid,
     sp_slot := Some slot, sp_block_number := Some bn, sp_block_hash := Some hash, sp_header_cbor := Some cbor\<rparr>) s"
  by (simp add: run_peer_extends_chain_def Let_def extension_params slot_step_def plain_step_def execute_step.simps)

lemma extension_text:
  "decode_hex_at ''8200'' = Ok [0x82, 0x00]" "is_ok (decode_hex_at (repeat_str 32 ''aa''))"
  "is_ok (decode_hex_at (repeat_str 32 ''bb''))" "is_ok (decode_hex_at (repeat_str 32 ''cc''))"
  "is_ok (decode_hex_at (repeat_str 32 ''dd''))"
proof -
  show "decode_hex_at ''8200'' = Ok [0x82, 0x00]"
    using decode_encode_hex(2) [of "[0x82, 0x00]"] by (simp add: test_simps)
  have hex: "repeat_str n ''aa'' = encode_hex (replicate n 0xaa)" "repeat_str n ''bb'' = encode_hex (replicate n 0xbb)"
    "repeat_str n ''cc'' = encode_hex (replicate n 0xcc)" "repeat_str n ''dd'' = encode_hex (replicate n 0xdd)" for n
    by (induction n) (simp_all add: repeat_str_def test_simps)
  show "is_ok (decode_hex_at (repeat_str 32 ''aa''))" "is_ok (decode_hex_at (repeat_str 32 ''bb''))"
    "is_ok (decode_hex_at (repeat_str 32 ''cc''))" "is_ok (decode_hex_at (repeat_str 32 ''dd''))"
    by (simp_all add: hex)
qed

lemmas extension_defs = extension_run returns_def extension_of_params_def no_params_def peer_extends_chain_def
  update_peers_def extend_peer_def not_above_tip_def chain_tip_slot_def push_entry_def peer_state_new_def
  state_with_peer_def peer_entries_def runner_default_def run_simps

lemma extension_tests_pass:
  "test_peer_extends_chain_appends_new_entry e sched" "test_peer_extends_chain_accepts_any_slot_when_empty e sched"
  using extension_text by (auto simp: test_peer_extends_chain_appends_new_entry_def is_ok_iff
    test_peer_extends_chain_accepts_any_slot_when_empty_def extension_defs)

lemma extension_rejection_tests_pass:
  "test_peer_extends_chain_rejects_same_slot e sched" "test_peer_extends_chain_rejects_rewind e sched"
  using extension_text by (auto simp: test_peer_extends_chain_rejects_same_slot_def is_ok_iff
    test_peer_extends_chain_rejects_rewind_def extension_defs bind_run_def anyhow_def test_simps)

lemma slot_filter_test_passes: "test_peer_state_slot_filter_unit"
  by (simp add: test_peer_state_slot_filter_unit_def filtered_fixture_chain_def to_fixture_entry_def peer_state_new_def Let_def)

end
