(* ===== verification/Spec2Isabelle.thy ===== *)
theory Spec2Isabelle
  imports EndLaws ForkLaws ReaderLaws NameLaws CaptureLaws Parallel Harness BlockFetchClientLaws LeiosClientLaws Workers RunnerLaws
    ValidateLaws BlockFetchLaws ChainSyncLaws LeiosNotifyServer LeiosFetchServer PeerLaws Fixture
    BlockFixture Production Vars Readers VarsTests FixtureTests PeerTests TraceTests LeiosTests
    ScenarioTests RunnerTests
begin

text \<open>
  A model of \<open>cardano-conformance-harness\<close>, a Rust program that plays scripted, honest or
  adversarial peers against a Cardano node and records what happens. The source is under
  \<open>src/src/\<close>; \<open>mod.rs\<close>, \<open>runner.rs\<close> and the other files without a directory below are those of
  \<open>src/src/scenario/\<close>, the servers those of \<open>src/src/miniprotocols/\<close>.

  \<^bold>\<open>How the program works.\<close> \<open>main.rs\<close> loads a scenario (JSON), \<open>mod.rs\<close> validates it, and
  \<open>runner.rs\<close> executes its steps one after the other: it substitutes the variables in a step's
  parameters (\<open>vars.rs\<close>), executes the step, and judges the events the step left in the trace
  (\<open>trace.rs\<close>) by the step's assertions. Serving steps answer a connected node from a script of
  response rules (\<open>response_rules.rs\<close>), which is written in the scenario or generated from a
  fixture file (\<open>fixture.rs\<close>, \<open>block_fixture.rs\<close>) or from the chain of a peer of the imaginary
  network (\<open>peer_state.rs\<close>). The peers' chains grow with the scenario's slot counter, by
  production rules, or by explicit steps.

  \<^bold>\<open>Theories\<close>, from the bottom:

  \<^item> \<open>Prelude\<close>: results (\<open>Ok\<close>, \<open>Err\<close> with the context chain of \<open>anyhow\<close>, \<open>Panic\<close>) and
    their combinators, \<open>iter().position\<close>, \<open>BTreeMap\<close> as a sorted entry list with the locale
    \<open>ordered_map\<close> of what the components use of it. \<open>Rust_Std\<close>: slices, searches and number
    parsing of Rust strings, which are byte lists. \<open>Hex\<close>: the encoder and the three decoders that
    the modules copy. \<open>Json\<close>: \<open>serde_json::Value\<close> and its accessors. \<open>Wire\<close>: points, and the
    messages of the mini-protocols.
  \<^item> \<open>Event_Kind\<close>, \<open>Trace\<close>, \<open>Io_Rules\<close>: trace events, the tracer with its stamps and buffer,
    the world (trace file, wire, slot counter, and an environment that may fail any write or send),
    and rules for world-passing code: the locale \<open>world_preorder\<close>, its instances (the trace only
    grows), and the closed forms of the primitives in a world without failures.
  \<^item> \<open>Vars\<close>: references and templates. Substitution works leaf by leaf, and a template is its
    literals and holes.
  \<^item> \<open>Fixture\<close>, \<open>BlockFixture\<close>: reading, writing and searching fixture files, the cursor over a
    header chain, and range look-up. The locale \<open>record_format\<close> is what a line format must
    satisfy for files to round-trip; both formats interpret it.
  \<^item> \<open>Production\<close>: production rules on \<open>u64\<close> as the code computes them, against a rule as a set
    of natural numbers. \<open>PeerState\<close>, \<open>PeerLaws\<close>: chains, block stores and
    \<open>apply_production_rules\<close>; chains only grow, events describe the growth, advances compose.
    \<open>ForkLaws\<close>: forks split at their slot and nowhere else, and no defect shows in a served header.
  \<^item> \<open>ResponseRules\<close>: scripts and their conversion. \<open>Script\<close>: the receive loop, and the locale
    \<open>script_server\<close> of a loop body that takes its rules in order. \<open>ChainSyncServer\<close>,
    \<open>BlockFetchServer\<close> model two servers arm by arm; \<open>ChainSyncLaws\<close>, \<open>BlockFetchLaws\<close>
    interpret the locale on their bodies and show what honest sessions send.
    \<open>LeiosNotifyServer\<close> and \<open>LeiosFetchServer\<close> do the same for their protocols.
  \<^item> \<open>Scenario\<close>, \<open>StepParams\<close>: networks, steps, their readers. \<open>Validate\<close>, \<open>ValidateLaws\<close>:
    every check of \<open>validate\<close> with its messages, and what a clean bill means.
  \<^item> \<open>Steps\<close>: code that may not return, as functions of a state, and the locale \<open>step_preorder\<close> of
    the relations that such code keeps. \<open>Client\<close>: what the client sessions share: the calls of the
    network package, with the peer's answers as lists, and weakest preconditions for what a session
    puts on the wire. \<open>ChainSyncClient\<close>, \<open>BlockFetchClient\<close>, \<open>LeiosClients\<close>: the client sessions
    (\<open>chainsync.rs\<close>, \<open>blockfetch.rs\<close>, \<open>leios_notify.rs\<close>, \<open>leios_fetch.rs\<close>), and theories with
    \<open>Laws\<close> at the end of the name for what they report, capture and ask, alone and against the model's own
    servers. \<open>Handshake\<close> (\<open>handshake.rs\<close>) and \<open>Workers\<close> (\<open>keepalive.rs\<close>, \<open>txsubmission.rs\<close>).
  \<^item> \<open>Runner\<close>: the runner's state, the clock, network and serving arms of \<open>execute_step\<close>, the
    assertions. \<open>RunLoop\<close>: \<open>run_step\<close>, \<open>repeat\<close> and \<open>ScenarioRunner::run\<close>, as functions of an
    executor, over which the theorems of \<open>RunnerLaws\<close> quantify; the locales \<open>step_bookkeeping\<close> and
    \<open>run_preorder\<close> there carry relations over runs.
  \<^item> \<open>ClientSteps\<close>: the arms on connections (connect, handshake, query_tip, the client sessions with
    their captures, listen, accept_handshake). \<open>ParallelStep\<close>: the \<open>parallel\<close> arm for a given
    schedule. \<open>Execute\<close>: \<open>execute_step\<close> itself, which ends because nested steps are smaller.
    \<open>Harness\<close>: \<open>main\<close>.
  \<^item> \<open>ExecuteLaws\<close>: the locale \<open>step_contract\<close> of the relations that every arm keeps, and with it
    properties of whole runs of the real executor: append-only traces, negotiation before workers,
    one session per channel. \<open>NameLaws\<close>: validated connection names are open when a step needs them.
    \<open>CaptureLaws\<close>: a fixture served, fetched and captured is the fixture. \<open>EndLaws\<close>: the locales \<open>ending\<close> and
    \<open>ending_steps\<close> of code that returns in every state with an invariant, and with them that a run which
    only serves ends. \<open>ReaderLaws\<close>: response scripts are read and converted when their step runs.
  \<^item> \<open>Parallel\<close>: the branches of a parallel step as a step relation in which any branch moves next,
    one poll or one trace line at a time, whatever the nested steps do. Every fair run of it ends,
    its ends and trace lines account for the branches, the schedule of \<open>ParallelStep\<close> in which nothing
    suspends is one of its runs, and one of its runs leaves a completed branch unreported.

  \<^item> \<open>Readers\<close>: the readers that \<open>serde\<close> derives for scenario files, response rules and Leios
    actions, from a JSON value. \<open>TestKit\<close> and the theories with \<open>Tests\<close> at the end of the name: the
    unit tests of the source as definitions on the model, one per \<open>#[test]\<close>, each proved to pass.
    They pin the model to the code where the authors pinned the code.

  \<^bold>\<open>Conventions.\<close> Machine integers are words and wrap, as in a release build; \<open>usize\<close> is \<open>nat\<close>
  (lengths and indices). A session is a function of the world. An inbox is the list of what
  \<open>recv\<close> returns, errors included, and its end is a closed connection; the answers of a client's
  calls are lists too, and where a list ends the peer is silent and the call waits. A \<open>HashMap\<close> that
  the code iterates is the list of its entries in this run's order, so statements hold for every
  order. \<open>None\<close> for a step or a production query means that the code does not return: a call that nothing
  answers without a time limit, or the loop of \<open>every_n_slots_range\<close>, which has no bound and stays at
  the greatest slot for ever. No fuel is used: all other loops are structural, or end by a measure
  (nested steps are smaller than the value they are read from).

  \<^bold>\<open>Parameters.\<close> Blake2b, the parser and the printer of JSON text, the file system, the resolver, the
  dialler and the connections that peers open, the version table, the wall clock and the schedule of
  parallel branches are arguments of the definitions that use them. A JSON text in which an object has a
  key twice is outside the model. \<open>try_join_all\<close> is modelled by its documentation: it returns with the first error, and
  drops the other futures. The texts of \<open>serde_json\<close>'s own errors are abbreviated. Wall-clock
  time stamps are left out of events.

  \<^bold>\<open>Not modelled.\<close> Sockets, the multiplexer and the CBOR codecs are packages the source only calls:
  aborting a connection has no effect besides its removal. Background workers are functions of their
  own messages, and \<open>execute_step\<close> records only that they run; how their trace lines interleave with those
  of the steps is left out. A trace line is written whole or not at all. Logging
  (\<open>tracing\<close>) is left out. \<open>peersharing.rs\<close> holds a constant that nothing uses.
\<close>

end
